(* ===== verification/Go_Prelude.thy ===== *)
theory Go_Prelude
  imports Main "HOL-Library.Word" "HOL-Library.Char_ord" "HOL-Library.List_Lexorder"
begin

text \<open>
  Shared vocabulary of the development: the Go types the program uses (bytes and strings,
  64-bit integers with wrap-around, binary64 values by their bit pattern), the error values
  that travel between the components with the wrapping the code applies to them, Go maps and
  the \<open>range\<close> loop over them, and the lemma collections the component proofs use.
\<close>

named_theorems store_simps \<open>functional equations of the storage operations\<close>
named_theorems http_simps \<open>unfolding of the HTTP plumbing\<close>
named_theorems go_map_simps \<open>facts on Go maps and range loops\<close>

unbundle bit_operations_syntax

section \<open>Values\<close>

text \<open>
  A Go byte is a HOL character (8 bits), so \<open>string\<close> and \<open>[]byte\<close> share one type and
  the conversions between them are the identity. An \<open>int64\<close> is a 64-bit word read as
  two's complement by \<open>sint\<close>. A \<open>float64\<close> is its IEEE 754 binary64 bit pattern:
  the program stores, copies and tests these values and never computes with them.
\<close>

type_synonym bytes = string
type_synonym int64 = "64 word"

datatype float64 = Float64 (float_bits: "64 word")

instantiation float64 :: zero
begin

definition zero_float64 :: float64 where
  "zero_float64 = Float64 0"

instance ..

end

text \<open>Neither NaN nor an infinity: the eleven exponent bits are not all ones.\<close>

definition float_finite :: "float64 \<Rightarrow> bool" where
  "float_finite f \<longleftrightarrow> drop_bit 52 (float_bits f) AND 0x7FF \<noteq> 0x7FF"

definition float_nan :: float64 where
  "float_nan = Float64 0x7FF8000000000001"

lemma float_nan_not_finite [simp]: "\<not> float_finite float_nan"
  by (simp add: float_finite_def float_nan_def)

lemma float_zero_finite [simp]: "float_finite 0"
  by (simp add: float_finite_def zero_float64_def)

definition int64_range :: "int \<Rightarrow> bool" where
  "int64_range i \<longleftrightarrow> - (2 ^ 63) \<le> i \<and> i < 2 ^ 63"

lemma sint_in_range [simp]: "int64_range (sint (w :: int64))"
  using sint_ge [of w] sint_lt [of w] by (simp add: int64_range_def)

lemma sint_of_range: "int64_range i \<Longrightarrow> sint (word_of_int i :: int64) = i"
  by (simp add: int64_range_def sint_sbintrunc' signed_take_bit_int_eq_self)

lemma sint_add_range:
  fixes v w :: int64
  assumes "int64_range (sint v + sint w)"
  shows "sint (v + w) = sint v + sint w"
  using assms sint_of_range [of "sint v + sint w"] by simp

section \<open>Errors\<close>

text \<open>
  The error values of the program. \<open>ErrWrap\<close> is \<open>fmt.Errorf("...: %w", err)\<close>;
  \<open>errors.As\<close> walks that chain. \<open>ErrNet\<close> is an error that implements
  \<open>net.Error\<close>, with its \<open>Timeout()\<close>; \<open>ErrPg\<close> is a \<open>pgconn.PgError\<close> with
  its SQLSTATE; \<open>ErrPermanent\<close> is \<open>backoff.Permanent\<close>.
\<close>

datatype go_error =
    ErrMetricNotFound
  | ErrUnknownType string
  | ErrPg string
  | ErrNet bool
  | ErrCtx
  | ErrStatus nat
  | ErrPermanent go_error
  | ErrWrap string go_error
  | ErrOther string

fun as_net_error :: "go_error \<Rightarrow> bool option" where
  "as_net_error (ErrNet t) = Some t"
| "as_net_error (ErrWrap _ e) = as_net_error e"
| "as_net_error (ErrPermanent e) = as_net_error e"
| "as_net_error _ = None"

fun as_pg_error :: "go_error \<Rightarrow> string option" where
  "as_pg_error (ErrPg c) = Some c"
| "as_pg_error (ErrWrap _ e) = as_pg_error e"
| "as_pg_error (ErrPermanent e) = as_pg_error e"
| "as_pg_error _ = None"

section \<open>Go maps and range loops\<close>

text \<open>
  A Go map is a HOL map. A \<open>range\<close> loop visits every key exactly once in an order the
  runtime chooses: the order is an input of the definitions that loop (\<open>visits m ks\<close> says
  that \<open>ks\<close> is a possible one), and the theorems hold for every such order.
\<close>

definition visits :: "('k \<rightharpoonup> 'v) \<Rightarrow> 'k list \<Rightarrow> bool" where
  "visits m ks \<longleftrightarrow> distinct ks \<and> set ks = dom m"

fun range_pairs :: "('k \<rightharpoonup> 'v) \<Rightarrow> 'k list \<Rightarrow> ('k \<times> 'v) list" where
  "range_pairs m [] = []"
| "range_pairs m (k # ks) =
     (case m k of None \<Rightarrow> range_pairs m ks | Some v \<Rightarrow> (k, v) # range_pairs m ks)"

fun put_pairs :: "('k \<times> 'v) list \<Rightarrow> ('k \<rightharpoonup> 'v) \<Rightarrow> ('k \<rightharpoonup> 'v)" where
  "put_pairs [] r = r"
| "put_pairs ((k, v) # kvs) r = put_pairs kvs (r(k \<mapsto> v))"

lemma visits_empty [simp]: "visits Map.empty [] \<longleftrightarrow> True"
  by (simp add: visits_def)

lemma visits_finite: "visits m ks \<Longrightarrow> finite (dom m)"
  by (metis List.finite_set visits_def)

lemma visits_exists: "finite (dom m) \<Longrightarrow> \<exists>ks. visits m ks"
  unfolding visits_def by (metis finite_distinct_list)

lemma visits_length: "visits m ks \<Longrightarrow> length ks = card (dom m)"
  unfolding visits_def by (metis distinct_card)

lemma set_range_pairs: "set (range_pairs m ks) = {(k, v). k \<in> set ks \<and> m k = Some v}"
  by (induction ks) (auto split: option.splits)

lemma fst_range_pairs: "set ks \<subseteq> dom m \<Longrightarrow> map fst (range_pairs m ks) = ks"
  by (induction ks) (auto split: option.splits)

lemma length_range_pairs: "set ks \<subseteq> dom m \<Longrightarrow> length (range_pairs m ks) = length ks"
  by (metis fst_range_pairs length_map)

lemma put_range_pairs:
  "put_pairs (range_pairs m ks) r = (\<lambda>k. if k \<in> set ks \<and> k \<in> dom m then m k else r k)"
  by (induction ks arbitrary: r) (auto simp: fun_eq_iff split: option.splits)

text \<open>Copying a map by ranging over it rebuilds the map, whatever the order.\<close>

lemma put_range_pairs_copy [go_map_simps]:
  assumes "visits m ks"
  shows "put_pairs (range_pairs m ks) Map.empty = m"
  using assms by (auto simp: put_range_pairs visits_def fun_eq_iff domIff)

section \<open>Strings\<close>

definition has_prefix :: "string \<Rightarrow> string \<Rightarrow> bool" where
  "has_prefix s p \<longleftrightarrow> take (length p) s = p"

fun contains :: "string \<Rightarrow> string \<Rightarrow> bool" where
  "contains [] p = (p = [])"
| "contains (c # s) p = (has_prefix (c # s) p \<or> contains s p)"

lemma has_prefix_append [simp]: "has_prefix (p @ s) p"
  by (simp add: has_prefix_def)

lemma has_prefix_iff: "has_prefix s p \<longleftrightarrow> (\<exists>t. s = p @ t)"
  unfolding has_prefix_def by (metis append_eq_conv_conj)

end
