(* ===== verification/Metrics_Model.thy ===== *)
theory Metrics_Model
  imports Go_Prelude
begin

text \<open>
  The data transfer object of \<open>internal/model/metrics.go\<close>. \<open>MetricType\<close> is a Go string
  type, so any string can stand in the \<open>MType\<close> field; the two constants are the only values
  the program accepts. \<open>Delta\<close> and \<open>Value\<close> are pointers: \<open>None\<close> is nil.
\<close>

type_synonym metric_type = string

definition TypeCounter :: metric_type where
  "TypeCounter = ''counter''"

definition TypeGauge :: metric_type where
  "TypeGauge = ''gauge''"

record metrics =
  ID :: string
  MType :: metric_type
  Delta :: "int64 option"
  Value :: "float64 option"
  Hash :: string

text \<open>The composite literals the code builds for one gauge and for one counter.\<close>

definition gauge_metric :: "string \<Rightarrow> float64 \<Rightarrow> metrics" where
  "gauge_metric name v =
     \<lparr>ID = name, MType = TypeGauge, Delta = None, Value = Some v, Hash = ''''\<rparr>"

definition counter_metric :: "string \<Rightarrow> int64 \<Rightarrow> metrics" where
  "counter_metric name d =
     \<lparr>ID = name, MType = TypeCounter, Delta = Some d, Value = None, Hash = ''''\<rparr>"

definition zero_metrics :: metrics where
  "zero_metrics = \<lparr>ID = '''', MType = '''', Delta = None, Value = None, Hash = ''''\<rparr>"

definition known_type :: "metrics \<Rightarrow> bool" where
  "known_type m \<longleftrightarrow> MType m = TypeGauge \<or> MType m = TypeCounter"

lemma type_names_distinct [simp]: "TypeGauge \<noteq> TypeCounter" "TypeCounter \<noteq> TypeGauge"
  by (simp_all add: TypeGauge_def TypeCounter_def)

lemma gauge_metric_sel [simp]:
  "ID (gauge_metric n v) = n" "MType (gauge_metric n v) = TypeGauge"
  "Delta (gauge_metric n v) = None" "Value (gauge_metric n v) = Some v"
  "Hash (gauge_metric n v) = ''''"
  by (simp_all add: gauge_metric_def)

lemma counter_metric_sel [simp]:
  "ID (counter_metric n d) = n" "MType (counter_metric n d) = TypeCounter"
  "Delta (counter_metric n d) = Some d" "Value (counter_metric n d) = None"
  "Hash (counter_metric n d) = ''''"
  by (simp_all add: counter_metric_def)

lemma known_type_metric [simp]:
  "known_type (gauge_metric n v)" "known_type (counter_metric n d)"
  by (simp_all add: known_type_def)

end
