(* ===== verification/Strconv.thy ===== *)
theory Strconv
  imports Go_Prelude
begin

text \<open>
  The parts of Go's \<open>strconv\<close> and of \<open>fmt\<close>'s \<open>%d\<close> the program uses on integers:
  \<open>format_int\<close> is \<open>strconv.FormatInt(i, 10)\<close> and \<open>parse_int\<close> is
  \<open>strconv.ParseInt(s, 10, 64)\<close> (\<open>None\<close> for a syntax or a range error). Floating-point
  text is a parameter of the definitions that print or read it: the record \<open>float_text\<close>.
\<close>

section \<open>Decimal digits\<close>

definition digit_char :: "nat \<Rightarrow> char" where
  "digit_char d = char_of (48 + d)"

definition is_digit :: "char \<Rightarrow> bool" where
  "is_digit c \<longleftrightarrow> 48 \<le> (of_char c :: nat) \<and> (of_char c :: nat) \<le> 57"

definition digit_val :: "char \<Rightarrow> nat" where
  "digit_val c = of_char c - 48"

fun nat_digits :: "nat \<Rightarrow> string" where
  "nat_digits n = (if n < 10 then [digit_char n] else nat_digits (n div 10) @ [digit_char (n mod 10)])"

declare nat_digits.simps [simp del]

fun read_digits :: "nat \<Rightarrow> string \<Rightarrow> nat option" where
  "read_digits acc [] = Some acc"
| "read_digits acc (c # s) = (if is_digit c then read_digits (10 * acc + digit_val c) s else None)"

definition parse_nat :: "string \<Rightarrow> nat option" where
  "parse_nat s = (if s = [] then None else read_digits 0 s)"

definition format_int :: "int \<Rightarrow> string" where
  "format_int i = (if i < 0 then CHR ''-'' # nat_digits (nat (- i)) else nat_digits (nat i))"

text \<open>
  \<open>ParseInt\<close>: an optional sign, then digits only (no underscores in base 10), then the check
  of the two's complement range.
\<close>

definition parse_int :: "string \<Rightarrow> int64 option" where
  "parse_int s =
     (case s of
        [] \<Rightarrow> None
      | c # t \<Rightarrow>
          (let neg = (c = CHR ''-'');
               body = (if c = CHR ''+'' \<or> c = CHR ''-'' then t else s)
           in case parse_nat body of
                None \<Rightarrow> None
              | Some un \<Rightarrow>
                  if \<not> neg \<and> un \<ge> 2 ^ 63 then None
                  else if neg \<and> un > 2 ^ 63 then None
                  else Some (word_of_int (if neg then - int un else int un))))"

lemma of_char_digit: "d < 10 \<Longrightarrow> (of_char (digit_char d) :: nat) = 48 + d"
  by (simp add: digit_char_def)

lemma digit_char_0: "digit_char 0 = CHR ''0''"
  by (simp add: digit_char_def char_of_eq_iff)

lemma is_digit_digit_char [simp]: "d < 10 \<Longrightarrow> is_digit (digit_char d)"
  by (simp add: is_digit_def of_char_digit)

lemma digit_val_digit_char [simp]: "d < 10 \<Longrightarrow> digit_val (digit_char d) = d"
  by (simp add: digit_val_def of_char_digit)

lemma nat_digits_nonempty [simp]: "nat_digits n \<noteq> []"
  by (subst nat_digits.simps) simp

lemma nat_digits_digits: "list_all is_digit (nat_digits n)"
proof (induction n rule: nat_digits.induct)
  case (1 n)
  then show ?case by (subst nat_digits.simps) simp
qed

lemma read_digits_append:
  "read_digits acc (s @ t) = (case read_digits acc s of None \<Rightarrow> None | Some a \<Rightarrow> read_digits a t)"
  by (induction s arbitrary: acc) simp_all

lemma read_nat_digits: "read_digits 0 (nat_digits n) = Some n"
proof (induction n rule: nat_digits.induct)
  case (1 n)
  then show ?case
    by (cases "n < 10") (subst nat_digits.simps, simp add: read_digits_append)+
qed

lemma parse_nat_digits [simp]: "parse_nat (nat_digits n) = Some n"
  by (simp add: parse_nat_def read_nat_digits)

lemma nat_digits_hd: "\<exists>c s. nat_digits n = c # s \<and> is_digit c"
proof (cases "nat_digits n")
  case Nil
  then show ?thesis by simp
next
  case (Cons c s)
  then show ?thesis using nat_digits_digits [of n] by simp
qed

lemma digit_not_sign: "is_digit c \<Longrightarrow> c \<noteq> CHR ''+'' \<and> c \<noteq> CHR ''-''"
  by (auto simp: is_digit_def)

lemma parse_format_int:
  assumes "int64_range i"
  shows "parse_int (format_int i) = Some (word_of_int i)"
proof (cases "i < 0")
  case True
  with assms have "nat (- i) \<le> 2 ^ 63" by (simp add: int64_range_def)
  with True show ?thesis by (simp add: parse_int_def format_int_def)
next
  case False
  obtain c s where d: "nat_digits (nat i) = c # s" "is_digit c" using nat_digits_hd by blast
  with digit_not_sign have "c \<noteq> CHR ''+''" "c \<noteq> CHR ''-''" by auto
  moreover from False assms have "nat i < 2 ^ 63" by (simp add: int64_range_def nat_less_iff)
  moreover have "parse_nat (c # s) = Some (nat i)" using parse_nat_digits [of "nat i"] d by simp
  ultimately show ?thesis using False d by (simp add: parse_int_def format_int_def)
qed

lemma parse_format_int64 [simp]: "parse_int (format_int (sint w)) = Some w"
  by (simp add: parse_format_int)

section \<open>Floating-point text\<close>

text \<open>
  \<open>ft_json\<close> is the number text \<open>encoding/json\<close> writes for a finite value, \<open>ft_g\<close> is
  \<open>fmt\<close>'s \<open>%g\<close>, \<open>ft_parse\<close> is \<open>strconv.ParseFloat(s, 64)\<close> (\<open>None\<close> for its error).
  \<open>float_text_ok\<close> is what the standard library documents: the text written for a finite
  value is a JSON number literal that reads back as the same value.
\<close>

record float_text =
  ft_json :: "float64 \<Rightarrow> string"
  ft_g :: "float64 \<Rightarrow> string"
  ft_parse :: "string \<Rightarrow> float64 option"

text \<open>The JSON number grammar, as the scanner of \<open>encoding/json\<close> accepts it.\<close>

definition scan_digits :: "string \<Rightarrow> string \<times> string" where
  "scan_digits s = (takeWhile is_digit s, dropWhile is_digit s)"

definition scan_int :: "string \<Rightarrow> (string \<times> string) option" where
  "scan_int s =
     (case s of
        [] \<Rightarrow> None
      | c # t \<Rightarrow>
          if c = CHR ''0'' then Some ([c], t)
          else if is_digit c then Some (c # takeWhile is_digit t, dropWhile is_digit t)
          else None)"

definition scan_frac :: "string \<Rightarrow> (string \<times> string) option" where
  "scan_frac s =
     (case s of
        [] \<Rightarrow> Some ([], [])
      | c # t \<Rightarrow>
          if c = CHR ''.'' then
            (if takeWhile is_digit t = [] then None
             else Some (c # takeWhile is_digit t, dropWhile is_digit t))
          else Some ([], s))"

definition scan_sign :: "string \<Rightarrow> string \<times> string" where
  "scan_sign s =
     (case s of
        [] \<Rightarrow> ([], [])
      | c # t \<Rightarrow> if c = CHR ''+'' \<or> c = CHR ''-'' then ([c], t) else ([], s))"

definition scan_exp :: "string \<Rightarrow> (string \<times> string) option" where
  "scan_exp s =
     (case s of
        [] \<Rightarrow> Some ([], [])
      | c # t \<Rightarrow>
          if c = CHR ''e'' \<or> c = CHR ''E'' then
            (case scan_sign t of (sg, u) \<Rightarrow>
               if takeWhile is_digit u = [] then None
               else Some (c # sg @ takeWhile is_digit u, dropWhile is_digit u))
          else Some ([], s))"

definition scan_minus :: "string \<Rightarrow> string \<times> string" where
  "scan_minus s =
     (case s of [] \<Rightarrow> ([], []) | c # t \<Rightarrow> if c = CHR ''-'' then ([c], t) else ([], s))"

definition scan_number :: "string \<Rightarrow> (string \<times> string) option" where
  "scan_number s =
     (case scan_minus s of (sg, s1) \<Rightarrow>
        case scan_int s1 of
           None \<Rightarrow> None
         | Some (i, s2) \<Rightarrow>
             (case scan_frac s2 of
                None \<Rightarrow> None
              | Some (f, s3) \<Rightarrow>
                  (case scan_exp s3 of
                     None \<Rightarrow> None
                   | Some (e, s4) \<Rightarrow> Some (sg @ i @ f @ e, s4))))"

definition number_lit :: "string \<Rightarrow> bool" where
  "number_lit s \<longleftrightarrow> scan_number s = Some (s, [])"

definition float_text_ok :: "float_text \<Rightarrow> bool" where
  "float_text_ok ft \<longleftrightarrow>
     (\<forall>f. float_finite f \<longrightarrow> number_lit (ft_json ft f) \<and> ft_parse ft (ft_json ft f) = Some f)"

text \<open>A character after a number that ends it: no digit, dot, exponent or sign.\<close>

definition number_end :: "string \<Rightarrow> bool" where
  "number_end s \<longleftrightarrow> (case s of [] \<Rightarrow> True | c # _ \<Rightarrow> c \<in> {CHR '','', CHR '']'', CHR ''}''})"

lemma number_end_simps [simp]:
  "number_end []" "number_end (CHR '','' # s)" "number_end (CHR '']'' # s)" "number_end (CHR ''}'' # s)"
  by (simp_all add: number_end_def)

lemma number_endE:
  assumes "number_end r"
  obtains "r = []" | c t where "r = c # t" "\<not> is_digit c" "c \<noteq> CHR ''.''" "c \<noteq> CHR ''e''"
    "c \<noteq> CHR ''E''" "c \<noteq> CHR ''+''" "c \<noteq> CHR ''-''"
  using assms by (cases r) (auto simp: number_end_def is_digit_def)

lemma takeWhile_end [simp]:
  assumes "number_end r"
  shows "takeWhile is_digit (s @ r) = takeWhile is_digit s"
    "dropWhile is_digit (s @ r) = dropWhile is_digit s @ r"
  using assms by (induction s; cases rule: number_endE; simp)+

lemma scan_int_end: "number_end r \<Longrightarrow> scan_int s = Some (i, t) \<Longrightarrow> scan_int (s @ r) = Some (i, t @ r)"
  by (cases s) (auto simp: scan_int_def split: if_splits)

lemma scan_frac_end: "number_end r \<Longrightarrow> scan_frac s = Some (f, t) \<Longrightarrow> scan_frac (s @ r) = Some (f, t @ r)"
  by (cases s; cases r) (auto simp: scan_frac_def number_end_def split: if_splits)

lemma scan_exp_end:
  assumes "number_end r" "scan_exp s = Some (e, t)"
  shows "scan_exp (s @ r) = Some (e, t @ r)"
proof (cases s)
  case Nil
  with assms show ?thesis by (cases r) (auto simp: scan_exp_def number_end_def)
next
  case (Cons c u)
  show ?thesis
  proof (cases u)
    case Nil
    with Cons assms show ?thesis by (auto simp: scan_exp_def scan_sign_def split: if_splits)
  next
    case (Cons d v)
    with \<open>s = c # u\<close> assms show ?thesis
      by (auto simp: scan_exp_def scan_sign_def split: if_splits)
  qed
qed

text \<open>A number literal is scanned whole when a delimiter follows it.\<close>

lemma scan_number_end:
  assumes "number_lit s" "number_end r"
  shows "scan_number (s @ r) = Some (s, r)"
proof -
  obtain sg s1 where sg: "scan_minus s = (sg, s1)" by (cases "scan_minus s")
  from assms(1) sg obtain i s2 f s3 e where
    p: "scan_int s1 = Some (i, s2)" "scan_frac s2 = Some (f, s3)" "scan_exp s3 = Some (e, [])"
    and s: "s = sg @ i @ f @ e"
    by (auto simp: number_lit_def scan_number_def split: option.splits)
  from p(1) have "s1 \<noteq> []" by (auto simp: scan_int_def)
  with sg have "scan_minus (s @ r) = (sg, s1 @ r)"
    by (cases s) (auto simp: scan_minus_def split: if_splits)
  moreover have "scan_int (s1 @ r) = Some (i, s2 @ r)" "scan_frac (s2 @ r) = Some (f, s3 @ r)"
    "scan_exp (s3 @ r) = Some (e, r)"
    using p assms(2) by (simp_all add: scan_int_end scan_frac_end scan_exp_end [of r s3 e "[]", simplified])
  ultimately show ?thesis by (simp add: scan_number_def s)
qed

lemma number_lit_hd: "number_lit s \<Longrightarrow> \<exists>c t. s = c # t \<and> (is_digit c \<or> c = CHR ''-'')"
  by (cases s) (auto simp: number_lit_def scan_number_def scan_minus_def scan_int_def is_digit_def
      split: option.splits if_splits list.splits)

text \<open>The integers the program prints are number literals.\<close>

lemma nat_digits_no_zero: "0 < n \<Longrightarrow> hd (nat_digits n) \<noteq> CHR ''0''"
proof (induction n rule: nat_digits.induct)
  case (1 n)
  show ?case
  proof (cases "n < 10")
    case True
    then have "(of_char (digit_char n) :: nat) \<noteq> of_char (CHR ''0'')"
      using "1.prems" by (simp add: of_char_digit)
    then have "digit_char n \<noteq> CHR ''0''" by metis
    with True show ?thesis by (subst nat_digits.simps) simp
  next
    case False
    with "1.IH" show ?thesis by (subst nat_digits.simps) (simp add: div_greater_zero_iff)
  qed
qed

lemma takeWhile_all: "list_all P xs \<Longrightarrow> takeWhile P xs = xs \<and> dropWhile P xs = []"
  by (simp add: list_all_iff takeWhile_eq_all_conv dropWhile_eq_Nil_conv)

lemma scan_int_nat: "scan_int (nat_digits n) = Some (nat_digits n, [])"
proof (cases "n = 0")
  case True
  then show ?thesis by (simp add: nat_digits.simps [of 0] scan_int_def digit_char_0)
next
  case False
  obtain c s where d: "nat_digits n = c # s" by (cases "nat_digits n") auto
  with False nat_digits_no_zero [of n] nat_digits_digits [of n] takeWhile_all [of is_digit s]
  show ?thesis by (simp add: scan_int_def)
qed

lemma format_int_number_lit: "number_lit (format_int i)"
proof -
  have "scan_minus (nat_digits n) = ([], nat_digits n)" for n
    using nat_digits_hd [of n] digit_not_sign by (auto simp: scan_minus_def)
  moreover have "scan_minus (CHR ''-'' # nat_digits n) = (''-'', nat_digits n)" for n
    by (simp add: scan_minus_def)
  ultimately show ?thesis
    by (simp add: number_lit_def scan_number_def format_int_def scan_int_nat scan_frac_def
        scan_exp_def)
qed

text \<open>
  A concrete \<open>float_text\<close> that satisfies the documented law: the bit pattern in decimal. It
  shows that the hypothesis can hold; the development never uses it as Go's formatting.
\<close>

definition bits_text :: float_text where
  "bits_text = \<lparr>ft_json = (\<lambda>f. format_int (sint (float_bits f))),
     ft_g = (\<lambda>f. format_int (sint (float_bits f))),
     ft_parse = (\<lambda>s. if s = ''NaN'' then Some float_nan else map_option Float64 (parse_int s))\<rparr>"

lemma NaN_not_int: "format_int i \<noteq> ''NaN''"
  using number_lit_hd [OF format_int_number_lit, of i] by (auto simp: is_digit_def)

lemma bits_text_ok: "float_text_ok bits_text"
  by (simp add: float_text_ok_def bits_text_def format_int_number_lit NaN_not_int)

end
