(* ===== verification/Json_String.thy ===== *)
theory Json_String
  imports Strconv
begin

text \<open>
  String literals of \<open>encoding/json\<close>: the encoder escapes control characters, the HTML
  characters and the two JavaScript line separators, and replaces invalid UTF-8 by the escaped
  replacement character; the decoder undoes escapes, surrogate pairs included. The result is
  the round trip on valid UTF-8 strings, which the persistence and transport theorems use.
\<close>

section \<open>UTF-8\<close>

definition byte_in :: "nat \<Rightarrow> nat \<Rightarrow> char \<Rightarrow> bool" where
  "byte_in lo hi c \<longleftrightarrow> lo \<le> of_char c \<and> of_char c \<le> hi"

text \<open>
  What the first byte announces: the length and the range of the second byte (the tables
  \<open>first\<close> and \<open>acceptRanges\<close> of \<open>unicode/utf8\<close>); all later bytes lie in 0x80..0xBF.
\<close>

definition utf8_lead :: "char \<Rightarrow> (nat \<times> nat \<times> nat) option" where
  "utf8_lead c =
     (if byte_in 0 0x7F c then Some (1, 0, 0)
      else if byte_in 0xC2 0xDF c then Some (2, 0x80, 0xBF)
      else if c = CHR 0xE0 then Some (3, 0xA0, 0xBF)
      else if c = CHR 0xED then Some (3, 0x80, 0x9F)
      else if byte_in 0xE1 0xEF c then Some (3, 0x80, 0xBF)
      else if c = CHR 0xF0 then Some (4, 0x90, 0xBF)
      else if c = CHR 0xF4 then Some (4, 0x80, 0x8F)
      else if byte_in 0xF1 0xF3 c then Some (4, 0x80, 0xBF)
      else None)"

definition utf8_tail :: "nat \<Rightarrow> nat \<Rightarrow> nat \<Rightarrow> string \<Rightarrow> bool" where
  "utf8_tail k lo hi bs \<longleftrightarrow> length bs = k \<and>
     (case bs of [] \<Rightarrow> True | b # bs' \<Rightarrow> byte_in lo hi b \<and> list_all (byte_in 0x80 0xBF) bs')"

text \<open>
  The length of the well-formed encoding at the head of a string (\<open>utf8.DecodeRune\<close>
  without the rune): \<open>None\<close> for an invalid or truncated one and for the empty string.
\<close>

definition utf8_len :: "string \<Rightarrow> nat option" where
  "utf8_len s =
     (case s of
        [] \<Rightarrow> None
      | c # t \<Rightarrow>
          (case utf8_lead c of
             None \<Rightarrow> None
           | Some (n, lo, hi) \<Rightarrow>
               if utf8_tail (n - 1) lo hi (take (n - 1) t) then Some n else None))"

lemma utf8_lead_pos: "utf8_lead c = Some (n, lo, hi) \<Longrightarrow> 0 < n"
  by (auto simp: utf8_lead_def split: if_splits)

lemma utf8_len_bounds: "utf8_len s = Some n \<Longrightarrow> 0 < n \<and> n \<le> length s"
  by (auto simp: utf8_len_def utf8_tail_def dest: utf8_lead_pos
      split: list.splits option.splits if_splits)

lemma utf8_len_take: "utf8_len s = Some n \<Longrightarrow> utf8_len (take n s @ r) = Some n"
  by (cases s; cases n)
    (auto simp: utf8_len_def utf8_tail_def dest: utf8_lead_pos split: option.splits if_splits)

lemma utf8_len_ascii: "byte_in 0 0x7F c \<Longrightarrow> utf8_len (c # t) = Some 1"
  by (simp add: utf8_len_def utf8_lead_def utf8_tail_def)

lemma utf8_len_multi_lead: "utf8_len (c # t) = Some n \<Longrightarrow> \<exists>lo hi. utf8_lead c = Some (n, lo, hi)"
  by (auto simp: utf8_len_def split: option.splits if_splits)

function valid_utf8 :: "string \<Rightarrow> bool" where
  "valid_utf8 s =
     (s = [] \<or> (case utf8_len s of None \<Rightarrow> False | Some n \<Rightarrow> valid_utf8 (drop n s)))"
  by pat_completeness auto
termination
  by (relation "measure length") (auto dest: utf8_len_bounds)

declare valid_utf8.simps [simp del]

lemma valid_utf8_Nil [simp]: "valid_utf8 []"
  by (simp add: valid_utf8.simps)

lemma valid_utf8_Cons:
  "valid_utf8 (c # t) \<longleftrightarrow> (\<exists>n. utf8_len (c # t) = Some n \<and> valid_utf8 (drop n (c # t)))"
  by (subst valid_utf8.simps) (simp split: option.splits)

lemma valid_utf8_ascii: "list_all (byte_in 0 0x7F) s \<Longrightarrow> valid_utf8 s"
  by (induction s) (simp_all add: valid_utf8_Cons utf8_len_ascii)

text \<open>\<open>utf8.EncodeRune\<close>; surrogates and out-of-range runes become U+FFFD.\<close>

definition encode_rune :: "nat \<Rightarrow> string" where
  "encode_rune r =
     (if r < 0x80 then [char_of r]
      else if r < 0x800 then [char_of (0xC0 + r div 64), char_of (0x80 + r mod 64)]
      else if (0xD800 \<le> r \<and> r < 0xE000) \<or> r > 0x10FFFF then [CHR 0xEF, CHR 0xBF, CHR 0xBD]
      else if r < 0x10000 then
        [char_of (0xE0 + r div 4096), char_of (0x80 + r div 64 mod 64), char_of (0x80 + r mod 64)]
      else
        [char_of (0xF0 + r div 262144), char_of (0x80 + r div 4096 mod 64),
         char_of (0x80 + r div 64 mod 64), char_of (0x80 + r mod 64)])"

section \<open>The encoder\<close>

definition hex_char :: "nat \<Rightarrow> char" where
  "hex_char d = (if d < 10 then char_of (48 + d) else char_of (87 + d))"

definition json_safe :: "char \<Rightarrow> bool" where
  "json_safe c \<longleftrightarrow> byte_in 0x20 0x7F c \<and> c \<notin> {CHR 0x22, CHR 0x5C, CHR ''<'', CHR ''>'', CHR ''&''}"

definition escape_ascii :: "char \<Rightarrow> string" where
  "escape_ascii c =
     (if json_safe c then [c]
      else if c = CHR 0x22 \<or> c = CHR 0x5C then [CHR 0x5C, c]
      else if c = CHR 0x08 then [CHR 0x5C, CHR ''b'']
      else if c = CHR 0x0C then [CHR 0x5C, CHR ''f'']
      else if c = CHR 0x0A then [CHR 0x5C, CHR ''n'']
      else if c = CHR 0x0D then [CHR 0x5C, CHR ''r'']
      else if c = CHR 0x09 then [CHR 0x5C, CHR ''t'']
      else [CHR 0x5C, CHR ''u'', CHR ''0'', CHR ''0'',
            hex_char (of_char c div 16), hex_char (of_char c mod 16)])"

definition escape_multi :: "string \<Rightarrow> string" where
  "escape_multi u =
     (if u = [CHR 0xE2, CHR 0x80, CHR 0xA8] then CHR 0x5C # ''u2028''
      else if u = [CHR 0xE2, CHR 0x80, CHR 0xA9] then CHR 0x5C # ''u2029''
      else u)"

function quote_body :: "string \<Rightarrow> string" where
  "quote_body s =
     (case s of
        [] \<Rightarrow> []
      | c # t \<Rightarrow>
          if byte_in 0 0x7F c then escape_ascii c @ quote_body t
          else (case utf8_len s of
                  None \<Rightarrow> CHR 0x5C # ''ufffd'' @ quote_body t
                | Some n \<Rightarrow> escape_multi (take n s) @ quote_body (drop n s)))"
  by pat_completeness auto
termination
  by (relation "measure length") (auto dest: utf8_len_bounds)

declare quote_body.simps [simp del]

definition json_quote :: "string \<Rightarrow> string" where
  "json_quote s = CHR 0x22 # quote_body s @ [CHR 0x22]"

lemma quote_body_Nil [simp]: "quote_body [] = []"
  by (simp add: quote_body.simps)

lemma quote_body_ascii: "byte_in 0 0x7F c \<Longrightarrow> quote_body (c # t) = escape_ascii c @ quote_body t"
  by (subst quote_body.simps) simp

lemma quote_body_multi:
  "\<not> byte_in 0 0x7F c \<Longrightarrow> utf8_len (c # t) = Some n \<Longrightarrow>
   quote_body (c # t) = escape_multi (take n (c # t)) @ quote_body (drop n (c # t))"
  by (subst quote_body.simps) simp

section \<open>The decoder\<close>

definition hex_val :: "char \<Rightarrow> nat option" where
  "hex_val c =
     (if is_digit c then Some (of_char c - 48)
      else if byte_in 97 102 c then Some (of_char c - 87)
      else if byte_in 65 70 c then Some (of_char c - 55)
      else None)"

definition hex4 :: "string \<Rightarrow> nat option" where
  "hex4 s =
     (case s of
        a # b # c # d # _ \<Rightarrow>
          (case (hex_val a, hex_val b, hex_val c, hex_val d) of
             (Some w, Some x, Some y, Some z) \<Rightarrow> Some (4096 * w + 256 * x + 16 * y + z)
           | _ \<Rightarrow> None)
      | _ \<Rightarrow> None)"

definition simple_escape :: "char \<Rightarrow> char option" where
  "simple_escape e =
     (if e = CHR 0x22 \<or> e = CHR 0x5C \<or> e = CHR ''/'' then Some e
      else if e = CHR ''b'' then Some (CHR 0x08)
      else if e = CHR ''f'' then Some (CHR 0x0C)
      else if e = CHR ''n'' then Some (CHR 0x0A)
      else if e = CHR ''r'' then Some (CHR 0x0D)
      else if e = CHR ''t'' then Some (CHR 0x09)
      else None)"

text \<open>The low half of a surrogate pair after a high one, with \<open>utf16.DecodeRune\<close>.\<close>

definition low_surrogate :: "nat \<Rightarrow> string \<Rightarrow> nat option" where
  "low_surrogate hi s =
     (case s of
        b # u # t \<Rightarrow>
          if b = CHR 0x5C \<and> u = CHR ''u'' then
            (case hex4 t of
               None \<Rightarrow> None
             | Some lo \<Rightarrow>
                 if 0xD800 \<le> hi \<and> hi < 0xDC00 \<and> 0xDC00 \<le> lo \<and> lo < 0xE000
                 then Some (0x10000 + (hi - 0xD800) * 1024 + (lo - 0xDC00)) else None)
          else None
      | _ \<Rightarrow> None)"

definition cons_str :: "string \<Rightarrow> (string \<times> string) option \<Rightarrow> (string \<times> string) option" where
  "cons_str u r = (case r of None \<Rightarrow> None | Some (s, t) \<Rightarrow> Some (u @ s, t))"

text \<open>The text after the opening quote: the decoded string and the text after the closing one.\<close>

function parse_str :: "string \<Rightarrow> (string \<times> string) option" where
  "parse_str s =
     (case s of
        [] \<Rightarrow> None
      | c # t \<Rightarrow>
          if c = CHR 0x22 then Some ([], t)
          else if c = CHR 0x5C then
            (case t of
               [] \<Rightarrow> None
             | e # t' \<Rightarrow>
                 if e = CHR ''u'' then
                   (case hex4 t' of
                      None \<Rightarrow> None
                    | Some r \<Rightarrow>
                        if 0xD800 \<le> r \<and> r < 0xE000 then
                          (case low_surrogate r (drop 4 t') of
                             Some rr \<Rightarrow> cons_str (encode_rune rr) (parse_str (drop 10 t'))
                           | None \<Rightarrow> cons_str (encode_rune 0xFFFD) (parse_str (drop 4 t')))
                        else cons_str (encode_rune r) (parse_str (drop 4 t')))
                 else (case simple_escape e of
                         None \<Rightarrow> None
                       | Some d \<Rightarrow> cons_str [d] (parse_str t')))
          else if byte_in 0 0x1F c then None
          else if byte_in 0 0x7F c then cons_str [c] (parse_str t)
          else (case utf8_len s of
                  None \<Rightarrow> cons_str (encode_rune 0xFFFD) (parse_str t)
                | Some n \<Rightarrow> cons_str (take n s) (parse_str (drop n s))))"
  by pat_completeness auto
termination
  by (relation "measure length") (auto dest: utf8_len_bounds)

declare parse_str.simps [simp del]

section \<open>The round trip\<close>

lemma hex_val_hex_char: "d < 16 \<Longrightarrow> hex_val (hex_char d) = Some d"
  by (auto simp: hex_val_def hex_char_def is_digit_def byte_in_def)

lemma hex4_byte:
  "n < 256 \<Longrightarrow> hex4 (CHR ''0'' # CHR ''0'' # hex_char (n div 16) # hex_char (n mod 16) # r) = Some n"
proof -
  assume "n < 256"
  then have "hex_val (hex_char (n div 16)) = Some (n div 16)" "hex_val (hex_char (n mod 16)) = Some (n mod 16)"
    by (simp_all add: hex_val_hex_char)
  moreover have "hex_val (CHR ''0'') = Some 0" by (simp add: hex_val_def is_digit_def)
  ultimately show ?thesis by (simp add: hex4_def)
qed

lemma parse_str_escape:
  "simple_escape e = Some d \<Longrightarrow> e \<noteq> CHR ''u'' \<Longrightarrow>
   parse_str (CHR 0x5C # e # r) = cons_str [d] (parse_str r)"
  by (subst parse_str.simps) simp

lemma parse_str_u:
  "hex4 (u @ r) = Some v \<Longrightarrow> length u = 4 \<Longrightarrow> \<not> (0xD800 \<le> v \<and> v < 0xE000) \<Longrightarrow>
   parse_str (CHR 0x5C # CHR ''u'' # u @ r) = cons_str (encode_rune v) (parse_str r)"
  by (subst parse_str.simps) auto

lemma parse_str_plain:
  "c \<notin> {CHR 0x22, CHR 0x5C} \<Longrightarrow> byte_in 0x20 0x7F c \<Longrightarrow>
   parse_str (c # r) = cons_str [c] (parse_str r)"
  by (subst parse_str.simps) (auto simp: byte_in_def)

lemma parse_str_ascii:
  assumes "byte_in 0 0x7F c"
  shows "parse_str (escape_ascii c @ r) = cons_str [c] (parse_str r)"
proof -
  let ?n = "of_char c :: nat"
  have e: "encode_rune ?n = [c]" using assms by (simp add: encode_rune_def byte_in_def)
  have h: "hex4 ([CHR ''0'', CHR ''0'', hex_char (?n div 16), hex_char (?n mod 16)] @ r) = Some ?n"
    using hex4_byte [of ?n r] by simp
  have v: "\<not> (0xD800 \<le> ?n \<and> ?n < 0xE000)" using nat_of_char_less_256 [of c] by linarith
  have u: "parse_str (CHR 0x5C # CHR ''u'' # [CHR ''0'', CHR ''0'', hex_char (?n div 16), hex_char (?n mod 16)] @ r)
      = cons_str [c] (parse_str r)"
    using parse_str_u [OF h _ v] e by simp
  show ?thesis
    using u by (auto simp: escape_ascii_def json_safe_def simple_escape_def
        parse_str_escape parse_str_plain)
qed

lemma parse_str_multi:
  assumes "\<not> byte_in 0 0x7F c" "utf8_len (c # t) = Some n"
  shows "parse_str (escape_multi (take n (c # t)) @ r) = cons_str (take n (c # t)) (parse_str r)"
proof -
  let ?u = "take n (c # t)"
  have "n \<noteq> 0" "n \<le> Suc (length t)" using utf8_len_bounds [OF assms(2)] by auto
  then obtain u' where u': "?u = c # u'" "length ?u = n" by (cases n) auto
  have "utf8_len (?u @ r) = Some n" by (rule utf8_len_take [OF assms(2)])
  then have raw: "parse_str (?u @ r) = cons_str ?u (parse_str r)"
    using assms(1) u' by (subst parse_str.simps) (auto simp: byte_in_def)
  have sep: "parse_str (CHR 0x5C # CHR ''u'' # v @ r) = cons_str (encode_rune x) (parse_str r)"
    if "hex4 v = Some x" "length v = 4" "x < 0xD800" for v x
    using that parse_str_u [of v r x] by (auto simp: hex4_def split: list.splits)
  have x: "hex4 ''2028'' = Some 0x2028" "hex4 ''2029'' = Some 0x2029"
    by (simp_all add: hex4_def hex_val_def is_digit_def)
  have rr: "encode_rune 0x2028 = [CHR 0xE2, CHR 0x80, CHR 0xA8]"
    "encode_rune 0x2029 = [CHR 0xE2, CHR 0x80, CHR 0xA9]"
    by (simp_all add: encode_rune_def char_of_eq_iff)
  show ?thesis
    using raw sep [OF x(1)] sep [OF x(2)] by (auto simp: escape_multi_def rr)
qed

lemma parse_str_quote:
  "valid_utf8 s \<Longrightarrow> parse_str (quote_body s @ CHR 0x22 # r) = Some (s, r)"
proof (induction "length s" arbitrary: s rule: less_induct)
  case less
  show ?case
  proof (cases s)
    case Nil
    then show ?thesis by (subst parse_str.simps) simp
  next
    case (Cons c t)
    with less.prems obtain n where n: "utf8_len s = Some n" and v: "valid_utf8 (drop n s)"
      by (auto simp: valid_utf8_Cons)
    then have "length (drop n s) < length s" using utf8_len_bounds [OF n] Cons by simp
    then have IH: "parse_str (quote_body (drop n s) @ CHR 0x22 # r) = Some (drop n s, r)"
      using less.hyps v by blast
    show ?thesis
    proof (cases "byte_in 0 0x7F c")
      case True
      then have "n = 1" using n Cons by (simp add: utf8_len_ascii)
      with True Cons IH show ?thesis
        by (simp add: quote_body_ascii parse_str_ascii cons_str_def)
    next
      case False
      have q: "quote_body s = escape_multi (take n s) @ quote_body (drop n s)"
        using quote_body_multi [OF False] n Cons by simp
      have "parse_str (quote_body s @ CHR 0x22 # r)
          = cons_str (take n s) (parse_str (quote_body (drop n s) @ CHR 0x22 # r))"
        using parse_str_multi [OF False] n Cons unfolding q by simp
      then show ?thesis by (simp add: IH cons_str_def)
    qed
  qed
qed

lemma parse_str_shorter: "parse_str s = Some (u, r) \<Longrightarrow> length r < length s"
proof (induction s arbitrary: u r rule: parse_str.induct)
  case (1 s)
  show ?case
  proof (cases s)
    case Nil
    with "1.prems" show ?thesis by (simp add: parse_str.simps)
  next
    case (Cons c t)
    show ?thesis
      using "1.prems" "1.IH" unfolding Cons
      by (subst (asm) (1) parse_str.simps)
        (fastforce simp: cons_str_def split: if_splits list.splits option.splits)
  qed
qed

end
