(* ===== verification/Json_Text.thy ===== *)
theory Json_Text
  imports Json_String
begin

text \<open>
  JSON documents: the compact printer of \<open>json.Marshal\<close> and the reader behind
  \<open>json.Unmarshal\<close> and \<open>json.Decoder\<close> (the nesting limit of 10000 is not modelled). Number
  literals stay text, because Go decodes them by the type of the target. The reader takes fuel;
  \<open>parse_val_fuel\<close> shows that the amount the entry points pass is always enough, and
  \<open>unmarshal_render\<close> is the round trip.
\<close>

datatype json =
    JNull
  | JBool bool
  | JNum string
  | JStr string
  | JArr "json list"
  | JObj "(string \<times> json) list"

section \<open>Printing\<close>

fun json_render :: "json \<Rightarrow> string"
  and render_elems :: "json list \<Rightarrow> string"
  and render_members :: "(string \<times> json) list \<Rightarrow> string" where
  "json_render JNull = ''null''"
| "json_render (JBool b) = (if b then ''true'' else ''false'')"
| "json_render (JNum l) = l"
| "json_render (JStr s) = json_quote s"
| "json_render (JArr js) = CHR ''['' # render_elems js @ '']''"
| "json_render (JObj ms) = CHR ''{'' # render_members ms @ ''}''"
| "render_elems [] = []"
| "render_elems (j # js) = json_render j @ (if js = [] then [] else CHR '','' # render_elems js)"
| "render_members [] = []"
| "render_members ((k, j) # ms) =
     json_quote k @ CHR '':'' # json_render j
     @ (if ms = [] then [] else CHR '','' # render_members ms)"

text \<open>The documents the printer is fed: number literals and valid UTF-8 strings.\<close>

fun wf_json :: "json \<Rightarrow> bool"
  and wf_elems :: "json list \<Rightarrow> bool"
  and wf_members :: "(string \<times> json) list \<Rightarrow> bool" where
  "wf_json JNull = True"
| "wf_json (JBool b) = True"
| "wf_json (JNum l) = number_lit l"
| "wf_json (JStr s) = valid_utf8 s"
| "wf_json (JArr js) = wf_elems js"
| "wf_json (JObj ms) = wf_members ms"
| "wf_elems [] = True"
| "wf_elems (j # js) = (wf_json j \<and> wf_elems js)"
| "wf_members [] = True"
| "wf_members ((k, j) # ms) = (valid_utf8 k \<and> wf_json j \<and> wf_members ms)"

section \<open>Reading\<close>

definition is_ws :: "char \<Rightarrow> bool" where
  "is_ws c \<longleftrightarrow> c \<in> {CHR '' '', CHR 0x09, CHR 0x0A, CHR 0x0D}"

definition skip_ws :: "string \<Rightarrow> string" where
  "skip_ws s = dropWhile is_ws s"

definition parse_literal :: "string \<Rightarrow> (json \<times> string) option" where
  "parse_literal s =
     (if has_prefix s ''null'' then Some (JNull, drop 4 s)
      else if has_prefix s ''true'' then Some (JBool True, drop 4 s)
      else if has_prefix s ''false'' then Some (JBool False, drop 5 s)
      else (case scan_number s of None \<Rightarrow> None | Some (l, r) \<Rightarrow> Some (JNum l, r)))"

text \<open>What follows an element: a comma and more of them, or the closing bracket.\<close>

datatype sep = More string | Close string | Bad

definition read_sep :: "char \<Rightarrow> string \<Rightarrow> sep" where
  "read_sep close s =
     (case skip_ws s of
        [] \<Rightarrow> Bad
      | c # t \<Rightarrow> if c = CHR '','' then More t else if c = close then Close t else Bad)"

definition read_char :: "char \<Rightarrow> string \<Rightarrow> string option" where
  "read_char want s =
     (case skip_ws s of [] \<Rightarrow> None | c # t \<Rightarrow> if c = want then Some t else None)"

definition parse_key :: "string \<Rightarrow> (string \<times> string) option" where
  "parse_key s =
     (case read_char (CHR 0x22) s of
        None \<Rightarrow> None
      | Some t \<Rightarrow>
          (case parse_str t of
             None \<Rightarrow> None
           | Some (k, r) \<Rightarrow>
               (case read_char (CHR '':'') r of None \<Rightarrow> None | Some r' \<Rightarrow> Some (k, r'))))"

fun parse_val :: "nat \<Rightarrow> string \<Rightarrow> (json \<times> string) option"
  and parse_elems :: "nat \<Rightarrow> string \<Rightarrow> (json list \<times> string) option"
  and parse_members :: "nat \<Rightarrow> string \<Rightarrow> ((string \<times> json) list \<times> string) option" where
  "parse_val 0 s = None"
| "parse_val (Suc f) s =
     (case skip_ws s of
        [] \<Rightarrow> None
      | c # t \<Rightarrow>
          if c = CHR 0x22 then
            (case parse_str t of None \<Rightarrow> None | Some (u, r) \<Rightarrow> Some (JStr u, r))
          else if c = CHR ''['' then
            (case read_char (CHR '']'') t of
               Some r \<Rightarrow> Some (JArr [], r)
             | None \<Rightarrow> (case parse_elems f t of None \<Rightarrow> None | Some (js, r) \<Rightarrow> Some (JArr js, r)))
          else if c = CHR ''{'' then
            (case read_char (CHR ''}'') t of
               Some r \<Rightarrow> Some (JObj [], r)
             | None \<Rightarrow> (case parse_members f t of None \<Rightarrow> None | Some (ms, r) \<Rightarrow> Some (JObj ms, r)))
          else parse_literal (c # t))"
| "parse_elems 0 s = None"
| "parse_elems (Suc f) s =
     (case parse_val f s of
        None \<Rightarrow> None
      | Some (j, r) \<Rightarrow>
          (case read_sep (CHR '']'') r of
             Bad \<Rightarrow> None
           | Close r' \<Rightarrow> Some ([j], r')
           | More r' \<Rightarrow>
               (case parse_elems f r' of None \<Rightarrow> None | Some (js, q) \<Rightarrow> Some (j # js, q))))"
| "parse_members 0 s = None"
| "parse_members (Suc f) s =
     (case parse_key s of
        None \<Rightarrow> None
      | Some (k, r) \<Rightarrow>
          (case parse_val f r of
             None \<Rightarrow> None
           | Some (j, r') \<Rightarrow>
               (case read_sep (CHR ''}'') r' of
                  Bad \<Rightarrow> None
                | Close q \<Rightarrow> Some ([(k, j)], q)
                | More q \<Rightarrow>
                    (case parse_members f q of
                       None \<Rightarrow> None | Some (ms, p) \<Rightarrow> Some ((k, j) # ms, p)))))"

definition json_fuel :: "string \<Rightarrow> nat" where
  "json_fuel s = 2 * length s + 2"

text \<open>\<open>json.Unmarshal\<close>: one value and nothing but white space after it.\<close>

definition json_unmarshal :: "bytes \<Rightarrow> json option" where
  "json_unmarshal s =
     (case parse_val (json_fuel s) s of
        None \<Rightarrow> None | Some (j, r) \<Rightarrow> if skip_ws r = [] then Some j else None)"

text \<open>
  \<open>json.NewDecoder(r).Decode\<close>: the first value only. An object or array ends at its bracket,
  whatever follows; a scalar must be followed by white space or the end of the input.
\<close>

definition json_decode :: "bytes \<Rightarrow> json option" where
  "json_decode s =
     (case parse_val (json_fuel s) s of
        None \<Rightarrow> None
      | Some (j, r) \<Rightarrow>
          (case j of
             JArr _ \<Rightarrow> Some j
           | JObj _ \<Rightarrow> Some j
           | _ \<Rightarrow> if r = [] \<or> is_ws (hd r) then Some j else None))"

section \<open>Fuel\<close>

lemma skip_ws_length: "length (skip_ws s) \<le> length s"
  by (simp add: skip_ws_def length_dropWhile_le)

lemma read_char_shorter: "read_char c s = Some t \<Longrightarrow> length t < length s"
  using skip_ws_length [of s] by (auto simp: read_char_def split: list.splits if_splits)

lemma read_sep_shorter: "read_sep c s = More t \<or> read_sep c s = Close t \<Longrightarrow> length t < length s"
  using skip_ws_length [of s] by (auto simp: read_sep_def split: list.splits if_splits)

lemma parse_key_shorter: "parse_key s = Some (k, r) \<Longrightarrow> length r < length s"
  by (force simp: parse_key_def split: option.splits dest: read_char_shorter parse_str_shorter)

lemma scan_number_shorter: "scan_number s = Some (l, r) \<Longrightarrow> length r < length s"
proof -
  have dw: "length (dropWhile is_digit t) \<le> length t" for t by (rule length_dropWhile_le)
  have i: "scan_int t = Some (a, u) \<Longrightarrow> length u < length t" for t a u
    using dw by (cases t) (auto simp: scan_int_def less_Suc_eq_le split: if_splits)
  have fr: "scan_frac t = Some (a, u) \<Longrightarrow> length u \<le> length t" for t a u
    using dw by (cases t) (auto simp: scan_frac_def le_SucI split: if_splits)
  have sg: "length (snd (scan_sign t)) \<le> length t" for t
    by (cases t) (auto simp: scan_sign_def)
  have ex: "scan_exp t = Some (a, u) \<Longrightarrow> length u \<le> length t" for t a u
    using sg [of "tl t"] dw [of "snd (scan_sign (tl t))"]
    by (cases t) (auto simp: scan_exp_def split: if_splits prod.splits)
  have mi: "scan_minus t = (a, u) \<Longrightarrow> length u \<le> length t" for t a u
    by (cases t) (auto simp: scan_minus_def split: if_splits)
  show "scan_number s = Some (l, r) \<Longrightarrow> length r < length s"
    by (auto simp: scan_number_def split: prod.splits option.splits)
      (meson ex fr i le_trans less_le_trans mi not_less)
qed

lemma parse_literal_shorter: "parse_literal s = Some (j, r) \<Longrightarrow> length r < length s"
  by (cases s) (auto simp: parse_literal_def has_prefix_iff split: if_splits option.splits
      dest: scan_number_shorter)

lemmas reader_shorter =
  read_char_shorter read_sep_shorter parse_key_shorter parse_literal_shorter parse_str_shorter

lemma parse_shorter:
  "parse_val f s = Some (j, r) \<Longrightarrow> length r < length s"
  "parse_elems f s = Some (js, r) \<Longrightarrow> length r < length s"
  "parse_members f s = Some (ms, r) \<Longrightarrow> length r < length s"
proof (induction f s and f s and f s arbitrary: j r and js r and ms r
    rule: parse_val_parse_elems_parse_members.induct)
  case (2 f s)
  show ?case
  proof (cases "skip_ws s")
    case Nil
    with "2.prems" show ?thesis by simp
  next
    case (Cons c t)
    then have t: "Suc (length t) \<le> length s" using skip_ws_length [of s] by simp
    have "length r < Suc (length t)"
      using "2.prems" "2.IH" [OF Cons] Cons
      by (auto split: if_splits option.splits dest!: reader_shorter)
    with t show ?thesis by simp
  qed
next
  case (4 f s)
  then show ?case
    by (auto split: option.splits sep.splits) (metis less_trans read_sep_shorter)+
next
  case (6 f s)
  then show ?case
    by (auto split: option.splits sep.splits)
      (metis less_trans read_sep_shorter parse_key_shorter)+
qed simp_all

text \<open>
  Enough fuel: beyond twice the length of the input (plus one, plus two for the list readers)
  the result does not depend on it, so the entry points never fail for lack of fuel.
\<close>

definition fuel_free :: "string \<Rightarrow> bool" where
  "fuel_free s \<longleftrightarrow>
     (\<forall>f g. 2 * length s + 1 \<le> f \<longrightarrow> 2 * length s + 1 \<le> g \<longrightarrow> parse_val f s = parse_val g s)
   \<and> (\<forall>f g. 2 * length s + 2 \<le> f \<longrightarrow> 2 * length s + 2 \<le> g \<longrightarrow>
        parse_elems f s = parse_elems g s \<and> parse_members f s = parse_members g s)"

lemma fuel_freeD:
  assumes "fuel_free s"
  shows "2 * length s + 1 \<le> f \<Longrightarrow> 2 * length s + 1 \<le> g \<Longrightarrow> parse_val f s = parse_val g s"
    "2 * length s + 2 \<le> f \<Longrightarrow> 2 * length s + 2 \<le> g \<Longrightarrow> parse_elems f s = parse_elems g s"
    "2 * length s + 2 \<le> f \<Longrightarrow> 2 * length s + 2 \<le> g \<Longrightarrow> parse_members f s = parse_members g s"
  using assms unfolding fuel_free_def by blast+

lemma fuel_free_val:
  assumes sub: "\<And>t. length t < length s \<Longrightarrow> fuel_free t"
    and f: "2 * length s + 1 \<le> f" and g: "2 * length s + 1 \<le> g"
  shows "parse_val f s = parse_val g s"
proof -
  from f g obtain f' g' where F: "f = Suc f'" "g = Suc g'" by (cases f; cases g) auto
  show ?thesis
  proof (cases "skip_ws s")
    case Nil
    then show ?thesis by (simp add: F)
  next
    case (Cons c t)
    then have t: "length t < length s" using skip_ws_length [of s] by simp
    with f g F have "2 * length t + 2 \<le> f'" "2 * length t + 2 \<le> g'" by simp_all
    with sub [OF t] have "parse_elems f' t = parse_elems g' t" "parse_members f' t = parse_members g' t"
      by (blast intro: fuel_freeD)+
    with Cons show ?thesis by (simp add: F split: option.split)
  qed
qed

lemma fuel_free_elems:
  assumes sub: "\<And>t. length t < length s \<Longrightarrow> fuel_free t"
    and f: "2 * length s + 2 \<le> f" and g: "2 * length s + 2 \<le> g"
  shows "parse_elems f s = parse_elems g s"
proof -
  from f g obtain f' g' where F: "f = Suc f'" "g = Suc g'" by (cases f; cases g) auto
  have v: "parse_val f' s = parse_val g' s"
    by (rule fuel_free_val [OF sub]) (use f g F in simp_all)
  have "parse_elems f' q = parse_elems g' q"
    if "parse_val g' s = Some (j, r)" "read_sep (CHR '']'') r = More q" for j r q
  proof -
    from that have q: "length q < length s" using parse_shorter(1) read_sep_shorter by (metis less_trans)
    with f g F have "2 * length q + 2 \<le> f'" "2 * length q + 2 \<le> g'" by simp_all
    with sub [OF q] show ?thesis by (blast intro: fuel_freeD)
  qed
  then show ?thesis
    unfolding F parse_elems.simps v by (auto split: option.split sep.split)
qed

lemma fuel_free_members:
  assumes sub: "\<And>t. length t < length s \<Longrightarrow> fuel_free t"
    and f: "2 * length s + 2 \<le> f" and g: "2 * length s + 2 \<le> g"
  shows "parse_members f s = parse_members g s"
proof -
  from f g obtain f' g' where F: "f = Suc f'" "g = Suc g'" by (cases f; cases g) auto
  have v: "parse_val f' r = parse_val g' r" if "parse_key s = Some (k, r)" for k r
  proof -
    have r: "length r < length s" using that by (rule parse_key_shorter)
    with f g F have "2 * length r + 1 \<le> f'" "2 * length r + 1 \<le> g'" by simp_all
    with sub [OF r] show ?thesis by (blast intro: fuel_freeD)
  qed
  have "parse_members f' q = parse_members g' q"
    if "parse_key s = Some (k, r)" "parse_val g' r = Some (j, r')" "read_sep (CHR ''}'') r' = More q"
    for k r j r' q
  proof -
    from that have q: "length q < length s"
      using parse_shorter(1) read_sep_shorter parse_key_shorter by (metis less_trans)
    with f g F have "2 * length q + 2 \<le> f'" "2 * length q + 2 \<le> g'" by simp_all
    with sub [OF q] show ?thesis by (blast intro: fuel_freeD)
  qed
  with v show ?thesis
    unfolding F parse_members.simps by (auto split: option.split sep.split)
qed

lemma parse_fuel_free: "fuel_free s"
proof (induction "length s" arbitrary: s rule: less_induct)
  case less
  show ?case
    unfolding fuel_free_def
    using fuel_free_val [OF less.hyps] fuel_free_elems [OF less.hyps] fuel_free_members [OF less.hyps]
    by blast
qed

lemma parse_val_fuel: "2 * length s + 1 \<le> f \<Longrightarrow> parse_val f s = parse_val (json_fuel s) s"
  by (rule fuel_freeD(1) [OF parse_fuel_free]) (simp_all add: json_fuel_def)

section \<open>The round trip\<close>

lemma skip_ws_id: "\<not> is_ws c \<Longrightarrow> skip_ws (c # t) = c # t"
  by (simp add: skip_ws_def)

lemma read_sep_more [simp]: "read_sep close (CHR '','' # t) = More t"
  by (simp add: read_sep_def skip_ws_def is_ws_def)

lemma read_sep_close [simp]:
  "read_sep (CHR '']'') (CHR '']'' # t) = Close t" "read_sep (CHR ''}'') (CHR ''}'' # t) = Close t"
  by (simp_all add: read_sep_def skip_ws_def is_ws_def)

lemma parse_key_quote:
  "valid_utf8 k \<Longrightarrow> parse_key (json_quote k @ CHR '':'' # r) = Some (k, r)"
  using parse_str_quote [of k "CHR '':'' # r"]
  by (simp add: parse_key_def json_quote_def read_char_def skip_ws_def is_ws_def)

definition value_start :: "char \<Rightarrow> bool" where
  "value_start c \<longleftrightarrow> c \<in> {CHR ''n'', CHR ''t'', CHR ''f'', CHR 0x22, CHR ''['', CHR ''{'', CHR ''-''} \<or> is_digit c"

lemma value_start_hd: "wf_json j \<Longrightarrow> \<exists>c t. json_render j = c # t \<and> value_start c"
  by (cases j) (auto simp: value_start_def json_quote_def dest: number_lit_hd)

lemma value_start_not: "value_start c \<Longrightarrow> \<not> is_ws c \<and> c \<noteq> CHR '']'' \<and> c \<noteq> CHR ''}''"
  by (auto simp: value_start_def is_ws_def is_digit_def)

lemma read_char_value:
  assumes "wf_json j" "want \<in> {CHR '']'', CHR ''}''}"
  shows "read_char want (json_render j @ r) = None"
  using value_start_hd [OF assms(1)] assms(2)
  by (auto simp: read_char_def skip_ws_id dest: value_start_not)

lemma parse_literal_number:
  assumes "number_lit l" "number_end r"
  shows "parse_literal (l @ r) = Some (JNum l, r)"
proof -
  obtain c t where "l = c # t" "is_digit c \<or> c = CHR ''-''" using number_lit_hd [OF assms(1)] by blast
  then have "\<not> has_prefix (l @ r) ''null''" "\<not> has_prefix (l @ r) ''true''" "\<not> has_prefix (l @ r) ''false''"
    by (auto simp: has_prefix_def is_digit_def)
  then show ?thesis by (simp add: parse_literal_def scan_number_end [OF assms])
qed

lemma parse_val_number:
  assumes "number_lit l" "number_end r"
  shows "parse_val (Suc f) (l @ r) = Some (JNum l, r)"
proof -
  obtain c t where c: "l = c # t" "is_digit c \<or> c = CHR ''-''" using number_lit_hd [OF assms(1)] by blast
  then have "\<not> is_ws c" "c \<notin> {CHR 0x22, CHR ''['', CHR ''{''}" by (auto simp: is_ws_def is_digit_def)
  with c parse_literal_number [OF assms] show ?thesis by (simp add: skip_ws_id)
qed

lemma parse_render:
  "wf_json j \<Longrightarrow> number_end r \<Longrightarrow> 2 * length (json_render j) < f \<Longrightarrow>
     parse_val f (json_render j @ r) = Some (j, r)"
  "wf_elems js \<Longrightarrow> js \<noteq> [] \<Longrightarrow> 2 * length (render_elems js) + 1 < f \<Longrightarrow>
     parse_elems f (render_elems js @ CHR '']'' # r) = Some (js, r)"
  "wf_members ms \<Longrightarrow> ms \<noteq> [] \<Longrightarrow> 2 * length (render_members ms) + 1 < f \<Longrightarrow>
     parse_members f (render_members ms @ CHR ''}'' # r) = Some (ms, r)"
proof (induction j and js and ms arbitrary: r f and r f and r f
    rule: json_render_render_elems_render_members.induct)
  case (3 l)
  then show ?case by (cases f) (simp_all add: parse_val_number del: parse_val.simps)
next
  case (4 s)
  then show ?case
    using parse_str_quote [of s r] by (cases f) (simp_all add: json_quote_def skip_ws_id is_ws_def)
next
  case (5 js)
  show ?case
  proof (cases js)
    case Nil
    with "5.prems" show ?thesis
      by (cases f) (simp_all add: skip_ws_id is_ws_def read_char_def)
  next
    case (Cons j js')
    with "5.prems" have "read_char (CHR '']'') (render_elems js @ CHR '']'' # r) = None"
      by (simp add: read_char_value)
    then show ?thesis
      using "5.prems" "5.IH" [of "f - 1" r] Cons by (cases f) (simp_all add: skip_ws_id is_ws_def)
  qed
next
  case (6 ms)
  show ?case
  proof (cases ms)
    case Nil
    with "6.prems" show ?thesis
      by (cases f) (simp_all add: skip_ws_id is_ws_def read_char_def)
  next
    case (Cons m ms')
    then have "read_char (CHR ''}'') (render_members ms @ CHR ''}'' # r) = None"
      by (cases m) (simp add: json_quote_def read_char_def skip_ws_id is_ws_def)
    then show ?thesis
      using "6.prems" "6.IH" [of "f - 1" r] Cons by (cases f) (simp_all add: skip_ws_id is_ws_def)
  qed
next
  case (8 j js)
  then show ?case by (cases f; cases js) simp_all
next
  case (10 k j ms)
  then show ?case by (cases f; cases ms) (simp_all add: parse_key_quote)
next
  case 1
  then show ?case by (cases f) (simp_all add: skip_ws_id is_ws_def parse_literal_def has_prefix_def)
next
  case (2 b)
  then show ?case by (cases f) (simp_all add: skip_ws_id is_ws_def parse_literal_def has_prefix_def)
qed simp_all

lemma unmarshal_render: "wf_json j \<Longrightarrow> json_unmarshal (json_render j) = Some j"
  using parse_render(1) [of j "[]" "json_fuel (json_render j)"]
  by (simp add: json_unmarshal_def json_fuel_def skip_ws_def)

lemma decode_render: "wf_json j \<Longrightarrow> json_decode (json_render j) = Some j"
  using parse_render(1) [of j "[]" "json_fuel (json_render j)"]
  by (simp add: json_decode_def json_fuel_def split: json.split)

end
