(* ===== verification/Metrics_Json.thy ===== *)
theory Metrics_Json
  imports Metrics_Model Json_Text
begin

text \<open>
  The JSON form of \<open>model.Metrics\<close>, as \<open>encoding/json\<close> derives it from the struct tags of
  \<open>internal/model/metrics.go\<close>: \<open>id\<close> and \<open>type\<close> are always written, nil pointers and an empty
  hash are omitted, NaN and the infinities make the whole document fail. Decoding follows the
  library: keys match a field up to case folding, unknown keys are skipped, null leaves a string
  as it is and sets a pointer to nil, a later duplicate wins, a value of the wrong kind fails.
\<close>

section \<open>Encoding\<close>

definition value_member :: "float_text \<Rightarrow> metrics \<Rightarrow> (string \<times> json) list option" where
  "value_member ft m =
     (case Value m of
        None \<Rightarrow> Some []
      | Some v \<Rightarrow> if float_finite v then Some [(''value'', JNum (ft_json ft v))] else None)"

definition metrics_to_json :: "float_text \<Rightarrow> metrics \<Rightarrow> json option" where
  "metrics_to_json ft m =
     (case value_member ft m of
        None \<Rightarrow> None
      | Some vm \<Rightarrow> Some (JObj
          ([(''id'', JStr (ID m)), (''type'', JStr (MType m))]
           @ (case Delta m of None \<Rightarrow> [] | Some d \<Rightarrow> [(''delta'', JNum (format_int (sint d)))])
           @ vm
           @ (if Hash m = '''' then [] else [(''hash'', JStr (Hash m))]))))"

fun list_to_json :: "float_text \<Rightarrow> metrics list \<Rightarrow> json list option" where
  "list_to_json ft [] = Some []"
| "list_to_json ft (m # ms) =
     (case metrics_to_json ft m of
        None \<Rightarrow> None
      | Some j \<Rightarrow> (case list_to_json ft ms of None \<Rightarrow> None | Some js \<Rightarrow> Some (j # js)))"

text \<open>\<open>json.Marshal\<close> of one metric and of a non-nil slice.\<close>

definition marshal_metric :: "float_text \<Rightarrow> metrics \<Rightarrow> bytes option" where
  "marshal_metric ft m = map_option json_render (metrics_to_json ft m)"

definition marshal_list :: "float_text \<Rightarrow> metrics list \<Rightarrow> bytes option" where
  "marshal_list ft ms = map_option (\<lambda>js. json_render (JArr js)) (list_to_json ft ms)"

section \<open>Decoding\<close>

text \<open>
  The folded form of a key: letters in upper case, and the two non-ASCII runes that fold to an
  ASCII letter (the long s and the Kelvin sign).
\<close>

fun fold_name :: "string \<Rightarrow> string" where
  "fold_name [] = []"
| "fold_name (c # t) =
     (if c = CHR 0xC5 \<and> take 1 t = [CHR 0xBF] then CHR ''S'' # fold_name (drop 1 t)
      else if c = CHR 0xE2 \<and> take 2 t = [CHR 0x84, CHR 0xAA] then CHR ''K'' # fold_name (drop 2 t)
      else (if byte_in 97 122 c then char_of (of_char c - (32::nat)) else c) # fold_name t)"

definition json_string_into :: "json \<Rightarrow> string \<Rightarrow> string option" where
  "json_string_into j old = (case j of JStr s \<Rightarrow> Some s | JNull \<Rightarrow> Some old | _ \<Rightarrow> None)"

definition json_int_pointer :: "json \<Rightarrow> int64 option option" where
  "json_int_pointer j =
     (case j of
        JNull \<Rightarrow> Some None
      | JNum l \<Rightarrow> (case parse_int l of None \<Rightarrow> None | Some d \<Rightarrow> Some (Some d))
      | _ \<Rightarrow> None)"

definition json_float_pointer :: "float_text \<Rightarrow> json \<Rightarrow> float64 option option" where
  "json_float_pointer ft j =
     (case j of
        JNull \<Rightarrow> Some None
      | JNum l \<Rightarrow> (case ft_parse ft l of None \<Rightarrow> None | Some v \<Rightarrow> Some (Some v))
      | _ \<Rightarrow> None)"

definition set_field :: "float_text \<Rightarrow> string \<Rightarrow> json \<Rightarrow> metrics \<Rightarrow> metrics option" where
  "set_field ft k j m =
     (let f = fold_name k in
      if f = ''ID'' then map_option (\<lambda>s. m\<lparr>ID := s\<rparr>) (json_string_into j (ID m))
      else if f = ''TYPE'' then map_option (\<lambda>s. m\<lparr>MType := s\<rparr>) (json_string_into j (MType m))
      else if f = ''DELTA'' then map_option (\<lambda>d. m\<lparr>Delta := d\<rparr>) (json_int_pointer j)
      else if f = ''VALUE'' then map_option (\<lambda>v. m\<lparr>Value := v\<rparr>) (json_float_pointer ft j)
      else if f = ''HASH'' then map_option (\<lambda>s. m\<lparr>Hash := s\<rparr>) (json_string_into j (Hash m))
      else Some m)"

fun set_fields :: "float_text \<Rightarrow> (string \<times> json) list \<Rightarrow> metrics \<Rightarrow> metrics option" where
  "set_fields ft [] m = Some m"
| "set_fields ft ((k, j) # kvs) m =
     (case set_field ft k j m of None \<Rightarrow> None | Some m' \<Rightarrow> set_fields ft kvs m')"

definition json_to_metrics :: "float_text \<Rightarrow> json \<Rightarrow> metrics option" where
  "json_to_metrics ft j =
     (case j of
        JNull \<Rightarrow> Some zero_metrics
      | JObj kvs \<Rightarrow> set_fields ft kvs zero_metrics
      | _ \<Rightarrow> None)"

fun json_to_elems :: "float_text \<Rightarrow> json list \<Rightarrow> metrics list option" where
  "json_to_elems ft [] = Some []"
| "json_to_elems ft (j # js) =
     (case json_to_metrics ft j of
        None \<Rightarrow> None
      | Some m \<Rightarrow> (case json_to_elems ft js of None \<Rightarrow> None | Some ms \<Rightarrow> Some (m # ms)))"

definition json_to_list :: "float_text \<Rightarrow> json \<Rightarrow> metrics list option" where
  "json_to_list ft j =
     (case j of JNull \<Rightarrow> Some [] | JArr js \<Rightarrow> json_to_elems ft js | _ \<Rightarrow> None)"

text \<open>\<open>json.NewDecoder(r).Decode(&metric)\<close>, \<open>Decode(&metrics)\<close> and \<open>json.Unmarshal(data, &metrics)\<close>.\<close>

definition decode_metric :: "float_text \<Rightarrow> bytes \<Rightarrow> metrics option" where
  "decode_metric ft b = Option.bind (json_decode b) (json_to_metrics ft)"

definition decode_list :: "float_text \<Rightarrow> bytes \<Rightarrow> metrics list option" where
  "decode_list ft b = Option.bind (json_decode b) (json_to_list ft)"

definition unmarshal_list :: "float_text \<Rightarrow> bytes \<Rightarrow> metrics list option" where
  "unmarshal_list ft b = Option.bind (json_unmarshal b) (json_to_list ft)"

section \<open>The round trip\<close>

text \<open>What survives the wire: valid UTF-8 strings and finite values.\<close>

definition wire_ok :: "metrics \<Rightarrow> bool" where
  "wire_ok m \<longleftrightarrow> valid_utf8 (ID m) \<and> valid_utf8 (MType m) \<and> valid_utf8 (Hash m)
     \<and> (case Value m of None \<Rightarrow> True | Some v \<Rightarrow> float_finite v)"

lemma fold_names [simp]:
  "fold_name ''id'' = ''ID''" "fold_name ''type'' = ''TYPE''" "fold_name ''delta'' = ''DELTA''"
  "fold_name ''value'' = ''VALUE''" "fold_name ''hash'' = ''HASH''"
  by (simp_all add: byte_in_def char_of_eq_iff)

lemma key_names_valid [simp]:
  "valid_utf8 ''id''" "valid_utf8 ''type''" "valid_utf8 ''delta''" "valid_utf8 ''value''"
  "valid_utf8 ''hash''"
  by (simp_all add: valid_utf8_ascii byte_in_def)

lemma type_names_valid [simp]: "valid_utf8 TypeGauge" "valid_utf8 TypeCounter"
  by (simp_all add: TypeGauge_def TypeCounter_def valid_utf8_ascii byte_in_def)

lemma metrics_json_none: "metrics_to_json ft m = None \<longleftrightarrow> (\<exists>v. Value m = Some v \<and> \<not> float_finite v)"
  by (auto simp: metrics_to_json_def value_member_def split: option.splits)

lemma list_json_none:
  "list_to_json ft ms = None \<longleftrightarrow> (\<exists>m \<in> set ms. \<exists>v. Value m = Some v \<and> \<not> float_finite v)"
proof (induction ms)
  case (Cons m ms)
  show ?case
    using Cons.IH metrics_json_none [of ft m]
    by (cases "metrics_to_json ft m"; cases "list_to_json ft ms") auto
qed simp

lemma metrics_json_roundtrip:
  assumes "float_text_ok ft" "wire_ok m"
  shows "\<exists>j. metrics_to_json ft m = Some j \<and> wf_json j \<and> json_to_metrics ft j = Some m"
  using assms
  by (cases m; cases "Delta m"; cases "Value m")
    (auto simp: metrics_to_json_def value_member_def json_to_metrics_def set_field_def Let_def
      json_string_into_def json_int_pointer_def json_float_pointer_def float_text_ok_def
      wire_ok_def format_int_number_lit zero_metrics_def simp del: fold_name.simps)

lemma list_json_roundtrip:
  assumes "float_text_ok ft" "list_all wire_ok ms"
  shows "\<exists>js. list_to_json ft ms = Some js \<and> wf_elems js \<and> json_to_elems ft js = Some ms"
  using assms(2)
proof (induction ms)
  case (Cons m ms)
  then show ?case using metrics_json_roundtrip [OF assms(1), of m] by auto
qed simp

lemma marshal_list_roundtrip:
  assumes "float_text_ok ft" "list_all wire_ok ms"
  shows "\<exists>b. marshal_list ft ms = Some b \<and> unmarshal_list ft b = Some ms \<and> decode_list ft b = Some ms"
proof -
  obtain js where js: "list_to_json ft ms = Some js" "wf_elems js" "json_to_elems ft js = Some ms"
    using list_json_roundtrip [OF assms] by blast
  then have "wf_json (JArr js)" by simp
  then show ?thesis
    using js unmarshal_render [of "JArr js"] decode_render [of "JArr js"]
    by (simp add: marshal_list_def unmarshal_list_def decode_list_def json_to_list_def
        del: json_render.simps)
qed

lemma marshal_metric_decode:
  assumes "float_text_ok ft" "wire_ok m"
  shows "\<exists>b. marshal_metric ft m = Some b \<and> decode_metric ft b = Some m"
proof -
  obtain j where "metrics_to_json ft m = Some j" "wf_json j" "json_to_metrics ft j = Some m"
    using metrics_json_roundtrip [OF assms] by blast
  then show ?thesis by (simp add: marshal_metric_def decode_metric_def decode_render)
qed

lemma marshal_list_none:
  "marshal_list ft ms = None \<longleftrightarrow> (\<exists>m \<in> set ms. \<exists>v. Value m = Some v \<and> \<not> float_finite v)"
  by (simp add: marshal_list_def list_json_none)

lemma marshal_list_empty [simp]: "marshal_list ft [] = Some ''[]''"
  by (simp add: marshal_list_def)

text \<open>C25: A metric with valid UTF-8 strings and a finite (or absent) value, marshalled to JSON text
  and decoded again, is the same metric: nil pointers stay nil, present zeros stay present.\<close>
theorem metric_json_roundtrip:
  assumes "float_text_ok ft" and "wire_ok m"
  shows "\<exists>b. marshal_metric ft m = Some b \<and> decode_metric ft b = Some m"
  by (rule marshal_metric_decode) (rule assms)+

theorem metric_json_roundtrip_witness:
  "\<exists>b. marshal_metric bits_text (gauge_metric ''Alloc'' 0) = Some b
     \<and> decode_metric bits_text b = Some (gauge_metric ''Alloc'' 0)"
  by (rule metric_json_roundtrip [OF bits_text_ok])
    (simp add: wire_ok_def valid_utf8_ascii byte_in_def)

end
