(* ===== verification/Http.thy ===== *)
theory Http
  imports Json_String
begin

text \<open>
  The part of \<open>net/http\<close> the program is written against: a request with its header and body
  stream, and what a handler does to its response writer, as the sequence of calls it makes. The
  server's own writer turns the calls into a response: the first \<open>WriteHeader\<close> (or the first
  \<open>Write\<close>) fixes the status and the header, later header changes are lost. Headers that
  \<open>net/http\<close> adds itself (Date, Content-Length) are not part of the model.
\<close>

section \<open>Requests\<close>

text \<open>A reader: the bytes it yields, then the end of the stream or an error.\<close>

type_synonym stream = "bytes \<times> go_error option"

definition io_ReadAll :: "stream \<Rightarrow> go_error + bytes" where
  "io_ReadAll s = (case s of (b, None) \<Rightarrow> Inr b | (_, Some e) \<Rightarrow> Inl e)"

text \<open>
  \<open>r_params\<close> are chi's URL parameters, \<open>r_now\<close> the clock at the time the request is handled;
  \<open>r_header\<close> is keyed by canonical names.
\<close>

record request =
  r_method :: string
  r_path :: string
  r_header :: "string \<rightharpoonup> string"
  r_body :: stream
  r_remote :: string
  r_params :: "string \<Rightarrow> string"
  r_now :: int64

lemma same_body: "r_body r = s \<Longrightarrow> r\<lparr>r_body := s\<rparr> = r"
  by (drule sym) simp

definition header_get :: "(string \<rightharpoonup> string) \<Rightarrow> string \<Rightarrow> string" where
  "header_get h k = (case h k of None \<Rightarrow> [] | Some v \<Rightarrow> v)"

abbreviation req_header :: "request \<Rightarrow> string \<Rightarrow> string" where
  "req_header r k \<equiv> header_get (r_header r) k"

section \<open>Responses\<close>

datatype wcall =
    SetHeader string string
  | DelHeader string
  | WriteHeader nat
  | Write bytes

record writer =
  w_header :: "string \<rightharpoonup> string"
  w_committed :: "(nat \<times> (string \<rightharpoonup> string)) option"
  w_out :: bytes

record response =
  resp_status :: nat
  resp_header :: "string \<rightharpoonup> string"
  resp_body :: bytes

fun header_step :: "wcall \<Rightarrow> (string \<rightharpoonup> string) \<Rightarrow> (string \<rightharpoonup> string)" where
  "header_step (SetHeader k v) h = h(k \<mapsto> v)"
| "header_step (DelHeader k) h = h(k := None)"
| "header_step _ h = h"

definition commit :: "nat \<Rightarrow> writer \<Rightarrow> writer" where
  "commit code w = (case w_committed w of
     None \<Rightarrow> w\<lparr>w_committed := Some (code, w_header w)\<rparr> | Some _ \<Rightarrow> w)"

fun write_step :: "wcall \<Rightarrow> writer \<Rightarrow> writer" where
  "write_step (WriteHeader code) w = commit code w"
| "write_step (Write b) w = (commit 200 w)\<lparr>w_out := w_out w @ b\<rparr>"
| "write_step c w = w\<lparr>w_header := header_step c (w_header w)\<rparr>"

definition fresh_writer :: writer where
  "fresh_writer = \<lparr>w_header = Map.empty, w_committed = None, w_out = []\<rparr>"

definition finish :: "writer \<Rightarrow> response" where
  "finish w = (case w_committed (commit 200 w) of
     Some (code, h) \<Rightarrow> \<lparr>resp_status = code, resp_header = h, resp_body = w_out w\<rparr>
   | None \<Rightarrow> \<lparr>resp_status = 200, resp_header = Map.empty, resp_body = []\<rparr>)"

definition respond :: "wcall list \<Rightarrow> response" where
  "respond calls = finish (fold write_step calls fresh_writer)"

type_synonym 'w handler = "request \<Rightarrow> 'w \<Rightarrow> wcall list \<times> 'w"

text \<open>\<open>http.Error\<close>.\<close>

definition http_Error :: "string \<Rightarrow> nat \<Rightarrow> wcall list" where
  "http_Error msg code =
     [DelHeader ''Content-Length'', SetHeader ''Content-Type'' ''text/plain; charset=utf-8'',
      SetHeader ''X-Content-Type-Options'' ''nosniff'', WriteHeader code, Write (msg @ [CHR 0x0A])]"

section \<open>Calls in the usual order\<close>

text \<open>
  A handler that sets headers, then perhaps writes a status, then writes: every handler of the
  program has this shape, and for it the response can be read off.
\<close>

fun header_op :: "wcall \<Rightarrow> bool" where
  "header_op (SetHeader _ _) = True"
| "header_op (DelHeader _) = True"
| "header_op _ = False"

definition in_order :: "wcall list \<Rightarrow> nat option \<Rightarrow> bytes list \<Rightarrow> wcall list" where
  "in_order hs code bs = hs @ (case code of None \<Rightarrow> [] | Some c \<Rightarrow> [WriteHeader c]) @ map Write bs"

definition ordered :: "wcall list \<Rightarrow> bool" where
  "ordered calls \<longleftrightarrow> (\<exists>hs code bs. list_all header_op hs \<and> calls = in_order hs code bs)"

definition header_after :: "wcall list \<Rightarrow> (string \<rightharpoonup> string)" where
  "header_after hs = fold header_step hs Map.empty"

lemma fold_header_ops:
  "list_all header_op hs \<Longrightarrow> fold write_step hs w = w\<lparr>w_header := fold header_step hs (w_header w)\<rparr>"
proof (induction hs arbitrary: w)
  case (Cons c hs)
  then show ?case by (cases c) simp_all
qed simp

lemma fold_writes:
  "w_committed w = Some x \<Longrightarrow> fold write_step (map Write bs) w = w\<lparr>w_out := w_out w @ concat bs\<rparr>"
proof (induction bs arbitrary: w)
  case (Cons b bs)
  have c: "commit 200 w = w" using Cons.prems by (simp add: commit_def)
  show ?case using Cons.IH [of "w\<lparr>w_out := w_out w @ b\<rparr>"] Cons.prems by (simp add: c)
qed simp

lemma respond_in_order [http_simps]:
  assumes "list_all header_op hs"
  shows "respond (in_order hs code bs)
    = \<lparr>resp_status = (case code of None \<Rightarrow> 200 | Some c \<Rightarrow> c), resp_header = header_after hs, resp_body = concat bs\<rparr>"
proof -
  let ?w = "\<lparr>w_header = header_after hs, w_committed = None, w_out = []\<rparr>"
  have h: "fold write_step hs fresh_writer = ?w"
    using fold_header_ops [OF assms, of fresh_writer] by (simp add: fresh_writer_def header_after_def)
  show ?thesis
  proof (cases code)
    case (Some c)
    have "fold write_step (map Write bs) (commit c ?w)
        = (commit c ?w)\<lparr>w_out := concat bs\<rparr>"
      using fold_writes [of "commit c ?w" "(c, header_after hs)" bs] by (simp add: commit_def)
    with Some h show ?thesis by (simp add: respond_def in_order_def finish_def commit_def)
  next
    case None
    show ?thesis
    proof (cases bs)
      case Nil
      with None h show ?thesis by (simp add: respond_def in_order_def finish_def commit_def)
    next
      case (Cons b bs')
      have "fold write_step (map Write bs') ((commit 200 ?w)\<lparr>w_out := b\<rparr>)
          = (commit 200 ?w)\<lparr>w_out := concat bs\<rparr>"
        using fold_writes [of "(commit 200 ?w)\<lparr>w_out := b\<rparr>" "(200, header_after hs)" bs'] Cons
        by (simp add: commit_def)
      with None Cons h show ?thesis by (simp add: respond_def in_order_def finish_def commit_def)
    qed
  qed
qed

lemma orderedI: "list_all header_op hs \<Longrightarrow> ordered (in_order hs code bs)"
  unfolding ordered_def by blast

lemma http_Error_in_order:
  "http_Error msg code = in_order [DelHeader ''Content-Length'',
      SetHeader ''Content-Type'' ''text/plain; charset=utf-8'',
      SetHeader ''X-Content-Type-Options'' ''nosniff''] (Some code) [msg @ [CHR 0x0A]]"
  by (simp add: http_Error_def in_order_def)

lemma in_order_header:
  "header_op c \<Longrightarrow> c # in_order hs code bs = in_order (c # hs) code bs"
  by (simp add: in_order_def)

lemma ordered_Cons: "header_op c \<Longrightarrow> ordered calls \<Longrightarrow> ordered (c # calls)"
  unfolding ordered_def using in_order_header by (metis list.pred_inject(2))

lemma ordered_http_Error [simp]: "ordered (http_Error msg code)"
  unfolding http_Error_in_order by (rule orderedI) simp

lemma ordered_simple [simp]:
  "ordered []" "ordered [WriteHeader c]" "ordered (map Write bs)" "ordered [Write b]"
  "ordered [WriteHeader c, Write b]" "ordered (WriteHeader c # map Write bs)"
  using orderedI [of "[]" None "[]"] orderedI [of "[]" "Some c" "[]"] orderedI [of "[]" None bs]
    orderedI [of "[]" None "[b]"] orderedI [of "[]" "Some c" "[b]"] orderedI [of "[]" "Some c" bs]
  by (simp_all add: in_order_def)

lemma ordered_SetHeader [simp]: "ordered calls \<Longrightarrow> ordered (SetHeader k v # calls)"
  by (simp add: ordered_Cons)

lemma status_http_Error [simp]: "resp_status (respond (http_Error msg code)) = code"
  unfolding http_Error_in_order by (simp add: http_simps)

lemma body_http_Error [simp]: "resp_body (respond (http_Error msg code)) = msg @ [CHR 0x0A]"
  unfolding http_Error_in_order by (simp add: http_simps)

lemma status_SetHeader [simp]: "ordered calls \<Longrightarrow> resp_status (respond (SetHeader k v # calls)) = resp_status (respond calls)"
  by (auto simp: ordered_def in_order_header http_simps)

lemma body_SetHeader [simp]: "ordered calls \<Longrightarrow> resp_body (respond (SetHeader k v # calls)) = resp_body (respond calls)"
  by (auto simp: ordered_def in_order_header http_simps)

lemma respond_simple [simp]:
  "respond [WriteHeader c] = \<lparr>resp_status = c, resp_header = Map.empty, resp_body = []\<rparr>"
  "respond [WriteHeader c, Write b] = \<lparr>resp_status = c, resp_header = Map.empty, resp_body = b\<rparr>"
  "respond [Write b] = \<lparr>resp_status = 200, resp_header = Map.empty, resp_body = b\<rparr>"
  "respond (WriteHeader c # map Write bs) = \<lparr>resp_status = c, resp_header = Map.empty, resp_body = concat bs\<rparr>"
  using respond_in_order [of "[]" "Some c" "[]"] respond_in_order [of "[]" "Some c" "[b]"]
    respond_in_order [of "[]" None "[b]"] respond_in_order [of "[]" "Some c" bs]
  by (simp_all add: in_order_def header_after_def)

section \<open>Hexadecimal\<close>

text \<open>\<open>hex.EncodeToString\<close>, and its inverse as the specification of a decoder.\<close>

definition hex_encode :: "bytes \<Rightarrow> string" where
  "hex_encode b = concat (map (\<lambda>c. [hex_char (of_char c div 16), hex_char (of_char c mod 16)]) b)"

lemma hex_char_inj: "m < 16 \<Longrightarrow> n < 16 \<Longrightarrow> hex_char m = hex_char n \<Longrightarrow> m = n"
  by (auto simp: hex_char_def char_of_eq_iff take_bit_eq_mod split: if_splits)

lemma hex_encode_Cons:
  "hex_encode (c # b) = hex_char (of_char c div 16) # hex_char (of_char c mod 16) # hex_encode b"
  by (simp add: hex_encode_def)

lemma hex_encode_inj: "hex_encode a = hex_encode b \<longleftrightarrow> a = b"
proof
  show "hex_encode a = hex_encode b \<Longrightarrow> a = b"
  proof (induction a arbitrary: b)
    case Nil
    then show ?case by (cases b) (simp_all add: hex_encode_def)
  next
    case (Cons c a)
    then obtain d b' where b: "b = d # b'" by (cases b) (auto simp: hex_encode_def)
    have lt: "of_char x div 16 < (16 :: nat)" for x :: char
    proof -
      have "(of_char x :: nat) < 256" by (metis of_char_mod_256 mod_less_divisor zero_less_numeral)
      then show ?thesis by (simp add: less_mult_imp_div_less)
    qed
    have "of_char c div 16 = (of_char d div 16 :: nat)" "of_char c mod 16 = (of_char d mod 16 :: nat)"
      using Cons.prems hex_char_inj lt by (simp_all add: b hex_encode_Cons)
    then have "(of_char c :: nat) = of_char d" by (metis div_mult_mod_eq)
    with Cons b show ?case by (simp add: hex_encode_Cons)
  qed
qed simp

end
