(* ===== verification/Crypto.thy ===== *)
theory Crypto
  imports Go_Prelude
begin

text \<open>
  \<open>internal/crypto/crypto.go\<close>: loading the keys and the wire format of the hybrid encryption. The
  primitives (PEM, x509, RSA-OAEP, AES-GCM) are parameters collected in records; a slice
  expression out of range is a panic, so \<open>Decrypt\<close> returns an option of a result and is proved
  never to be \<open>None\<close>.
\<close>

section \<open>Slices and big-endian lengths\<close>

definition go_slice :: "nat \<Rightarrow> nat \<Rightarrow> bytes \<Rightarrow> bytes option" where
  "go_slice lo hi xs = (if lo \<le> hi \<and> hi \<le> length xs then Some (take (hi - lo) (drop lo xs)) else None)"

text \<open>\<open>copy(out[off:], src)\<close>: as many bytes as fit.\<close>

definition copy_at :: "nat \<Rightarrow> bytes \<Rightarrow> bytes \<Rightarrow> bytes" where
  "copy_at off src out = take off out @ take (length out - off) src @ drop (off + length src) out"

definition put_uint16 :: "16 word \<Rightarrow> bytes" where
  "put_uint16 w = [char_of (unat (drop_bit 8 w)), char_of (unat (take_bit 8 w))]"

definition get_uint16 :: "bytes \<Rightarrow> 16 word" where
  "get_uint16 b = push_bit 8 (of_nat (of_char (b ! 0))) OR of_nat (of_char (b ! 1))"

lemma length_put_uint16 [simp]: "length (put_uint16 w) = 2"
  by (simp add: put_uint16_def)

lemma get_put_uint16: "get_uint16 (put_uint16 w @ rest) = w"
proof -
  have d: "unat (drop_bit 8 w) < 256"
    using unsigned_less [of w, where 'a = nat]
    by (simp add: unsigned_drop_bit_eq) (simp add: drop_bit_eq_div take_bit_eq_mod less_mult_imp_div_less)
  have t: "unat (take_bit 8 w) < 256"
    by (simp add: unsigned_take_bit_eq) (simp add: take_bit_eq_mod)
  have "get_uint16 (put_uint16 w @ rest) = push_bit 8 (drop_bit 8 w) OR take_bit 8 w"
    using d t by (simp add: get_uint16_def put_uint16_def of_char_of)
  also have "\<dots> = w"
    by (rule bit_eqI) (auto simp: bit_simps)
  finally show ?thesis .
qed

lemma copy_at_append:
  "length pre = off \<Longrightarrow> length src \<le> length rest \<Longrightarrow>
   copy_at off src (pre @ rest) = pre @ src @ drop (length src) rest"
  by (simp add: copy_at_def)

section \<open>Loading the keys\<close>

record pem_block =
  block_Type :: string
  block_Bytes :: bytes

datatype 'k any_key = RsaKey 'k | OtherKey

record 'k key_library =
  os_ReadFile :: "string \<Rightarrow> go_error + bytes"
  pem_Decode :: "bytes \<Rightarrow> pem_block option"
  parse_PKCS1 :: "bytes \<Rightarrow> go_error + 'k"
  parse_any :: "bytes \<Rightarrow> go_error + 'k any_key"

text \<open>
  \<open>LoadPublicKey\<close> and \<open>LoadPrivateKey\<close> have the same branches with other PEM types, parsers and
  messages.
\<close>

definition LoadPublicKey :: "'k key_library \<Rightarrow> string \<Rightarrow> go_error + 'k" where
  "LoadPublicKey lib path =
     (case os_ReadFile lib path of
        Inl err \<Rightarrow> Inl (ErrWrap ''crypto: read public key'' err)
      | Inr data \<Rightarrow>
          (case pem_Decode lib data of
             None \<Rightarrow> Inl (ErrOther ''crypto: no PEM block'')
           | Some block \<Rightarrow>
               if block_Type block = ''RSA PUBLIC KEY'' then
                 (case parse_PKCS1 lib (block_Bytes block) of
                    Inl err \<Rightarrow> Inl (ErrWrap ''crypto: parse PKCS1 public key'' err)
                  | Inr key \<Rightarrow> Inr key)
               else if block_Type block = ''PUBLIC KEY'' then
                 (case parse_any lib (block_Bytes block) of
                    Inl err \<Rightarrow> Inl (ErrWrap ''crypto: parse PKIX public key'' err)
                  | Inr (RsaKey key) \<Rightarrow> Inr key
                  | Inr OtherKey \<Rightarrow> Inl (ErrOther ''crypto: key is not RSA''))
               else Inl (ErrOther ''crypto: unexpected PEM type'')))"

definition LoadPrivateKey :: "'k key_library \<Rightarrow> string \<Rightarrow> go_error + 'k" where
  "LoadPrivateKey lib path =
     (case os_ReadFile lib path of
        Inl err \<Rightarrow> Inl (ErrWrap ''crypto: read private key'' err)
      | Inr data \<Rightarrow>
          (case pem_Decode lib data of
             None \<Rightarrow> Inl (ErrOther ''crypto: no PEM block'')
           | Some block \<Rightarrow>
               if block_Type block = ''RSA PRIVATE KEY'' then
                 (case parse_PKCS1 lib (block_Bytes block) of
                    Inl err \<Rightarrow> Inl (ErrWrap ''crypto: parse PKCS1 private key'' err)
                  | Inr key \<Rightarrow> Inr key)
               else if block_Type block = ''PRIVATE KEY'' then
                 (case parse_any lib (block_Bytes block) of
                    Inl err \<Rightarrow> Inl (ErrWrap ''crypto: parse PKCS8 private key'' err)
                  | Inr (RsaKey key) \<Rightarrow> Inr key
                  | Inr OtherKey \<Rightarrow> Inl (ErrOther ''crypto: key is not RSA''))
               else Inl (ErrOther ''crypto: unexpected PEM type'')))"

section \<open>The message format\<close>

record ('pub, 'priv) suite =
  rsa_EncryptOAEP :: "'pub \<Rightarrow> bytes \<Rightarrow> bytes \<Rightarrow> go_error + bytes"
  rsa_DecryptOAEP :: "'priv \<Rightarrow> bytes \<Rightarrow> go_error + bytes"
  gcm_Seal :: "bytes \<Rightarrow> bytes \<Rightarrow> bytes \<Rightarrow> bytes"
  gcm_Open :: "bytes \<Rightarrow> bytes \<Rightarrow> bytes \<Rightarrow> go_error + bytes"

text \<open>What \<open>rand.Reader\<close> gives to one call of \<open>Encrypt\<close>, in the order it is read.\<close>

record entropy =
  key_draw :: "go_error + bytes"
  oaep_seed :: bytes
  nonce_draw :: "go_error + bytes"

text \<open>\<open>aes.NewCipher\<close> takes keys of 16, 24 or 32 bytes; \<open>cipher.NewGCM\<close> accepts every AES cipher.\<close>

definition aes_NewCipher :: "bytes \<Rightarrow> go_error option" where
  "aes_NewCipher key = (if length key \<in> {16, 24, 32} then None else Some (ErrOther ''crypto/aes: invalid key size''))"

definition gcm_NonceSize :: nat where
  "gcm_NonceSize = 12"

definition assemble :: "bytes \<Rightarrow> bytes \<Rightarrow> bytes \<Rightarrow> bytes" where
  "assemble encKey nonce ciphertext =
     (let out = replicate (2 + length encKey + length nonce + length ciphertext) (CHR 0x00);
          out = copy_at 0 (put_uint16 (of_nat (length encKey))) out;
          out = copy_at 2 encKey out;
          out = copy_at (2 + length encKey) nonce out
      in copy_at (2 + length encKey + length nonce) ciphertext out)"

definition Encrypt :: "('pub, 'priv) suite \<Rightarrow> entropy \<Rightarrow> 'pub \<Rightarrow> bytes \<Rightarrow> go_error + bytes" where
  "Encrypt su rnd pub plaintext =
     (case key_draw rnd of
        Inl err \<Rightarrow> Inl (ErrWrap ''crypto: generate AES key'' err)
      | Inr aesKey \<Rightarrow>
          (case rsa_EncryptOAEP su pub (oaep_seed rnd) aesKey of
             Inl err \<Rightarrow> Inl (ErrWrap ''crypto: RSA encrypt'' err)
           | Inr encKey \<Rightarrow>
               (case aes_NewCipher aesKey of
                  Some err \<Rightarrow> Inl (ErrWrap ''crypto: new AES cipher'' err)
                | None \<Rightarrow>
                    (case nonce_draw rnd of
                       Inl err \<Rightarrow> Inl (ErrWrap ''crypto: generate nonce'' err)
                     | Inr nonce \<Rightarrow> Inr (assemble encKey nonce (gcm_Seal su aesKey nonce plaintext))))))"

definition Decrypt :: "('pub, 'priv) suite \<Rightarrow> 'priv \<Rightarrow> bytes \<Rightarrow> (go_error + bytes) option" where
  "Decrypt su priv data =
     (if length data < 2 then Some (Inl (ErrOther ''crypto: ciphertext too short''))
      else
        (let keyLen = unat (get_uint16 (take 2 data)) in
         if length data < 2 + keyLen then Some (Inl (ErrOther ''crypto: ciphertext truncated (key)''))
         else
           (case (go_slice 2 (2 + keyLen) data, go_slice (2 + keyLen) (length data) data) of
              (Some encKey, Some rest) \<Rightarrow>
                (case rsa_DecryptOAEP su priv encKey of
                   Inl err \<Rightarrow> Some (Inl (ErrWrap ''crypto: RSA decrypt'' err))
                 | Inr aesKey \<Rightarrow>
                     (case aes_NewCipher aesKey of
                        Some err \<Rightarrow> Some (Inl (ErrWrap ''crypto: new AES cipher'' err))
                      | None \<Rightarrow>
                          if length rest < gcm_NonceSize
                          then Some (Inl (ErrOther ''crypto: ciphertext truncated (nonce)''))
                          else
                            (case (go_slice 0 gcm_NonceSize rest, go_slice gcm_NonceSize (length rest) rest) of
                               (Some nonce, Some ciphertext) \<Rightarrow>
                                 (case gcm_Open su aesKey nonce ciphertext of
                                    Inl err \<Rightarrow> Some (Inl (ErrWrap ''crypto: AES-GCM decrypt'' err))
                                  | Inr plaintext \<Rightarrow> Some (Inr plaintext))
                             | _ \<Rightarrow> None)))
            | _ \<Rightarrow> None)))"

section \<open>The format read back\<close>

lemma assemble_append:
  "assemble encKey nonce ciphertext = put_uint16 (of_nat (length encKey)) @ encKey @ nonce @ ciphertext"
proof -
  have 1: "copy_at 0 h (y # z # rest) = h @ rest" if "length h = 2" for h rest and y z :: char
    using that by (simp add: copy_at_def)
  have 2: "copy_at (length p) x (p @ replicate (length x + n) z) = p @ x @ replicate n z"
    for p x n and z :: char
    by (simp add: copy_at_append)
  let ?h = "put_uint16 (of_nat (length encKey))"
  have "assemble encKey nonce ciphertext
      = copy_at (2 + length encKey + length nonce) ciphertext
          (copy_at (2 + length encKey) nonce
            (copy_at 2 encKey (?h @ replicate (length encKey + (length nonce + length ciphertext)) (CHR 0x00))))"
    by (simp add: assemble_def Let_def 1 add.assoc)
  also have "\<dots> = copy_at (2 + length encKey + length nonce) ciphertext
          (copy_at (2 + length encKey) nonce
            ((?h @ encKey) @ replicate (length nonce + length ciphertext) (CHR 0x00)))"
    using 2 [of ?h encKey] by simp
  also have "\<dots> = copy_at (2 + length encKey + length nonce) ciphertext
            ((?h @ encKey @ nonce) @ replicate (length ciphertext + 0) (CHR 0x00))"
    using 2 [of "?h @ encKey" nonce "length ciphertext"] by simp
  also have "\<dots> = ?h @ encKey @ nonce @ ciphertext"
    using 2 [of "?h @ encKey @ nonce" ciphertext 0] by (simp add: add.assoc)
  finally show ?thesis .
qed

text \<open>
  What the code relies on: a key pair whose OAEP round trip is the identity with an encrypted key
  shorter than 65536 bytes (RSA moduli below 524288 bits), a GCM that opens what it sealed, and a
  random source that fills its buffers.
\<close>

definition key_pair_ok :: "('pub, 'priv) suite \<Rightarrow> 'pub \<Rightarrow> 'priv \<Rightarrow> bool" where
  "key_pair_ok su pub priv \<longleftrightarrow>
     (\<forall>seed m c. rsa_EncryptOAEP su pub seed m = Inr c \<longrightarrow>
        rsa_DecryptOAEP su priv c = Inr m \<and> length c < 65536)"

definition gcm_ok :: "('pub, 'priv) suite \<Rightarrow> bool" where
  "gcm_ok su \<longleftrightarrow> (\<forall>key nonce p. gcm_Open su key nonce (gcm_Seal su key nonce p) = Inr p)"

definition entropy_ok :: "entropy \<Rightarrow> bool" where
  "entropy_ok rnd \<longleftrightarrow> (\<forall>k. key_draw rnd = Inr k \<longrightarrow> length k = 32)
     \<and> (\<forall>n. nonce_draw rnd = Inr n \<longrightarrow> length n = gcm_NonceSize)"

lemma Decrypt_assembled:
  assumes "length encKey < 65536"
  shows "Decrypt su priv (put_uint16 (of_nat (length encKey)) @ encKey @ rest) =
    (case rsa_DecryptOAEP su priv encKey of
       Inl err \<Rightarrow> Some (Inl (ErrWrap ''crypto: RSA decrypt'' err))
     | Inr aesKey \<Rightarrow>
         (case aes_NewCipher aesKey of
            Some err \<Rightarrow> Some (Inl (ErrWrap ''crypto: new AES cipher'' err))
          | None \<Rightarrow>
              if length rest < gcm_NonceSize
              then Some (Inl (ErrOther ''crypto: ciphertext truncated (nonce)''))
              else (case gcm_Open su aesKey (take gcm_NonceSize rest) (drop gcm_NonceSize rest) of
                      Inl err \<Rightarrow> Some (Inl (ErrWrap ''crypto: AES-GCM decrypt'' err))
                    | Inr plaintext \<Rightarrow> Some (Inr plaintext))))"
proof -
  have "unat (get_uint16 (put_uint16 (of_nat (length encKey)))) = length encKey"
    using get_put_uint16 [of _ "[]"] assms by (simp add: unsigned_of_nat take_bit_eq_mod)
  then show ?thesis
    by (simp add: Decrypt_def go_slice_def split: sum.split option.split)
qed

lemma decrypt_of_encrypt:
  assumes "key_pair_ok su pub priv" and "gcm_ok su" and "entropy_ok rnd"
    and "Encrypt su rnd pub plaintext = Inr data"
  shows "Decrypt su priv data = Some (Inr plaintext)"
proof -
  obtain aesKey encKey nonce where enc: "key_draw rnd = Inr aesKey" "nonce_draw rnd = Inr nonce"
    "rsa_EncryptOAEP su pub (oaep_seed rnd) aesKey = Inr encKey"
    "data = assemble encKey nonce (gcm_Seal su aesKey nonce plaintext)"
    using assms(4) by (auto simp: Encrypt_def split: sum.splits option.splits)
  then have "length encKey < 65536" "rsa_DecryptOAEP su priv encKey = Inr aesKey"
    "length aesKey = 32" "length nonce = gcm_NonceSize"
    using assms(1,3) by (auto simp: key_pair_ok_def entropy_ok_def)
  then show ?thesis
    using assms(2) by (simp add: enc(4) assemble_append Decrypt_assembled aes_NewCipher_def gcm_ok_def)
qed

text \<open>C23: Decrypting what \<open>Encrypt\<close> produced with the matching key gives the plaintext back, for every
  payload and every draw of the random source.\<close>
theorem decrypt_encrypt:
  assumes "key_pair_ok su pub priv" and "gcm_ok su" and "entropy_ok rnd"
    and "Encrypt su rnd pub plaintext = Inr data"
  shows "Decrypt su priv data = Some (Inr plaintext)"
  by (rule decrypt_of_encrypt [OF assms])

text \<open>A suite to evaluate on: the key travels in the clear, a fixed tag authenticates.\<close>

definition plain_suite :: "(unit, unit) suite" where
  "plain_suite = \<lparr>rsa_EncryptOAEP = \<lambda>_ _ m. if length m \<le> 190 then Inr m else Inl (ErrOther ''too long''),
     rsa_DecryptOAEP = \<lambda>_ c. Inr c,
     gcm_Seal = \<lambda>_ _ p. replicate 16 (CHR ''#'') @ p,
     gcm_Open = \<lambda>_ _ c. if has_prefix c (replicate 16 (CHR ''#'')) then Inr (drop 16 c)
                         else Inl (ErrOther ''cipher: message authentication failed'')\<rparr>"

definition fixed_entropy :: entropy where
  "fixed_entropy = \<lparr>key_draw = Inr (replicate 32 (CHR ''k'')), oaep_seed = [],
     nonce_draw = Inr (replicate 12 (CHR ''n''))\<rparr>"

lemma plain_suite_ok [simp]:
  "key_pair_ok plain_suite () ()" "gcm_ok plain_suite" "entropy_ok fixed_entropy"
  by (simp_all add: key_pair_ok_def gcm_ok_def entropy_ok_def plain_suite_def fixed_entropy_def
      gcm_NonceSize_def)

definition plain_message :: "bytes \<Rightarrow> bytes" where
  "plain_message p = assemble (replicate 32 (CHR ''k'')) (replicate 12 (CHR ''n''))
     (replicate 16 (CHR ''#'') @ p)"

lemma Encrypt_plain: "Encrypt plain_suite fixed_entropy () p = Inr (plain_message p)"
  by (simp add: Encrypt_def plain_suite_def fixed_entropy_def aes_NewCipher_def plain_message_def)

theorem decrypt_encrypt_witness:
  "Decrypt plain_suite () (plain_message ''[]'') = Some (Inr ''[]'')"
  by (rule decrypt_encrypt [where rnd = fixed_entropy and pub = "()"]) (simp_all add: Encrypt_plain)

text \<open>Whatever bytes arrive, \<open>Decrypt\<close> returns a plaintext or an error: no slice expression is out of
  range.\<close>
lemma decrypt_never_panics: "Decrypt su priv data \<noteq> None"
  by (simp add: Decrypt_def Let_def go_slice_def split: sum.split option.split)

text \<open>A message cut off before the end of its nonce is rejected with an error, whatever the key.\<close>
lemma decrypt_rejects_truncated:
  assumes "length encKey < 65536" and "n < 2 + length encKey + gcm_NonceSize"
  shows "\<exists>e. Decrypt su priv (take n (assemble encKey nonce ciphertext)) = Some (Inl e)"
proof (cases "n < 2 + length encKey")
  case True
  have "unat (get_uint16 (put_uint16 (of_nat (length encKey)))) = length encKey"
    using get_put_uint16 [of _ "[]"] assms(1) by (simp add: unsigned_of_nat take_bit_eq_mod)
  with True show ?thesis by (auto simp: Decrypt_def assemble_append Let_def)
next
  case False
  then obtain k where k: "n = 2 + length encKey + k" by (metis le_Suc_ex not_less)
  then have "take n (assemble encKey nonce ciphertext)
      = put_uint16 (of_nat (length encKey)) @ encKey @ take k (nonce @ ciphertext)"
    by (simp add: assemble_append)
  moreover have "length (take k (nonce @ ciphertext)) < gcm_NonceSize"
    using assms(2) k by (auto simp: min_def)
  ultimately show ?thesis
    using assms(1) by (simp add: Decrypt_assembled split: sum.split option.split)
qed

lemma decrypt_rejects_truncated_witness:
  "\<exists>e. Decrypt plain_suite () (take 40 (plain_message ''[]'')) = Some (Inl e)"
  unfolding plain_message_def by (rule decrypt_rejects_truncated) (simp_all add: gcm_NonceSize_def)

text \<open>The key loaders accept exactly the two PEM types each documents.\<close>

lemma LoadPublicKey_type:
  "LoadPublicKey lib path = Inr key \<Longrightarrow> os_ReadFile lib path = Inr data \<Longrightarrow>
   \<exists>block. pem_Decode lib data = Some block
     \<and> block_Type block \<in> {''RSA PUBLIC KEY'', ''PUBLIC KEY''}"
  by (auto simp: LoadPublicKey_def split: option.splits if_splits)

lemma LoadPrivateKey_type:
  "LoadPrivateKey lib path = Inr key \<Longrightarrow> os_ReadFile lib path = Inr data \<Longrightarrow>
   \<exists>block. pem_Decode lib data = Some block
     \<and> block_Type block \<in> {''RSA PRIVATE KEY'', ''PRIVATE KEY''}"
  by (auto simp: LoadPrivateKey_def split: option.splits if_splits)

text \<open>The two loaders never accept each other's files.\<close>

lemma loaders_disjoint:
  assumes "LoadPublicKey lib path = Inr key" "LoadPrivateKey lib' path' = Inr key'"
    and "os_ReadFile lib path = Inr data" "os_ReadFile lib' path' = Inr data" "pem_Decode lib = pem_Decode lib'"
  shows False
  using LoadPublicKey_type [OF assms(1,3)] LoadPrivateKey_type [OF assms(2,4)] assms(5) by auto

end
