(* ===== verification/Middleware.thy ===== *)
theory Middleware
  imports Http Crypto
begin

text \<open>
  The middlewares of \<open>internal/httpmw\<close>, \<open>internal/logger/logging.go\<close> and
  \<open>NewSHA256CheckMiddleware\<close>, as functions from handlers to handlers. The response writers that
  wrap another one are transducers on the calls: what they pass on is the call list the outer
  writer sees. DEFLATE, HMAC-SHA256 and IP parsing are parameters.
\<close>

section \<open>Compression\<close>

text \<open>
  \<open>gz_reader\<close> is \<open>gzip.NewReader\<close> with the stream it then yields, \<open>gz_writer\<close> what a
  \<open>gzip.Writer\<close> has written to its target once closed, from the chunks written to it.
\<close>

record gzip_lib =
  gz_reader :: "stream \<Rightarrow> go_error + stream"
  gz_writer :: "bytes list \<Rightarrow> bytes"

definition gzip_ok :: "gzip_lib \<Rightarrow> bool" where
  "gzip_ok lib \<longleftrightarrow> (\<forall>chunks. gz_reader lib (gz_writer lib chunks, None) = Inr (concat chunks, None))"

text \<open>
  \<open>agent.Compress\<close>: buffer and writer come from pools with whatever they held before, and are
  reset before use. The first component is the result, the second what goes back to the pools.
\<close>

definition Compress :: "gzip_lib \<Rightarrow> bytes \<Rightarrow> bytes list \<Rightarrow> bytes \<Rightarrow> bytes \<times> (bytes \<times> bytes list)" where
  "Compress lib pooled_buf pooled_gz data =
     (let buf = take 0 pooled_buf;
          gz = take 0 pooled_gz @ [data];
          buf = buf @ gz_writer lib gz
      in (buf, (buf, gz)))"

section \<open>Reading compressed and encrypted requests\<close>

text \<open>The response side of \<open>gzipResponseWriter\<close>: its fields and a view of the header map it shares.\<close>

record gzip_rw =
  gw_header :: "string \<rightharpoonup> string"
  gw_status :: nat
  gw_wrote :: bool
  gw_gz :: "bytes list option"

definition newGzipResponseWriter :: gzip_rw where
  "newGzipResponseWriter = \<lparr>gw_header = Map.empty, gw_status = 200, gw_wrote = False, gw_gz = None\<rparr>"

definition should_gzip :: "bool \<Rightarrow> gzip_rw \<Rightarrow> bool" where
  "should_gzip clientGzip g \<longleftrightarrow> clientGzip \<and>
     (let ct = header_get (gw_header g) ''Content-Type''
      in contains ct ''application/json'' \<or> contains ct ''text/html'')"

text \<open>The part of \<open>Write\<close> that runs once, then the data itself.\<close>

definition gzip_start :: "bool \<Rightarrow> gzip_rw \<Rightarrow> wcall list \<times> gzip_rw" where
  "gzip_start clientGzip g =
     (if gw_wrote g then ([], g)
      else if should_gzip clientGzip g then
        ([SetHeader ''Content-Encoding'' ''gzip'', WriteHeader (gw_status g)],
         g\<lparr>gw_wrote := True, gw_gz := Some [], gw_header := (gw_header g)(''Content-Encoding'' \<mapsto> ''gzip'')\<rparr>)
      else ([WriteHeader (gw_status g)], g\<lparr>gw_wrote := True\<rparr>))"

fun gzip_step :: "bool \<Rightarrow> wcall \<Rightarrow> gzip_rw \<Rightarrow> wcall list \<times> gzip_rw" where
  "gzip_step clientGzip (WriteHeader code) g = ([], g\<lparr>gw_status := code\<rparr>)"
| "gzip_step clientGzip (Write data) g =
     (case gzip_start clientGzip g of (out, g1) \<Rightarrow>
        (case gw_gz g1 of
           Some chunks \<Rightarrow> (out, g1\<lparr>gw_gz := Some (chunks @ [data])\<rparr>)
         | None \<Rightarrow> (out @ [Write data], g1)))"
| "gzip_step clientGzip c g = ([c], g\<lparr>gw_header := header_step c (gw_header g)\<rparr>)"

fun gzip_steps :: "bool \<Rightarrow> wcall list \<Rightarrow> gzip_rw \<Rightarrow> wcall list \<times> gzip_rw" where
  "gzip_steps clientGzip [] g = ([], g)"
| "gzip_steps clientGzip (c # cs) g =
     (case gzip_step clientGzip c g of (out, g1) \<Rightarrow>
        (case gzip_steps clientGzip cs g1 of (rest, g2) \<Rightarrow> (out @ rest, g2)))"

definition gzip_close :: "gzip_lib \<Rightarrow> gzip_rw \<Rightarrow> wcall list" where
  "gzip_close lib g =
     (case gw_gz g of Some chunks \<Rightarrow> [Write (gz_writer lib chunks)] | None \<Rightarrow> [])
     @ (if gw_wrote g then [] else [WriteHeader (gw_status g)])"

definition gzip_calls :: "gzip_lib \<Rightarrow> bool \<Rightarrow> wcall list \<Rightarrow> wcall list" where
  "gzip_calls lib clientGzip calls =
     (case gzip_steps clientGzip calls newGzipResponseWriter of (out, g) \<Rightarrow> out @ gzip_close lib g)"

definition GzipMiddleware :: "gzip_lib \<Rightarrow> 'w handler \<Rightarrow> 'w handler" where
  "GzipMiddleware lib next r w =
     (let serve = (\<lambda>r. case next r w of (calls, w') \<Rightarrow>
            (gzip_calls lib (contains (req_header r ''Accept-Encoding'') ''gzip'') calls, w'))
      in if req_header r ''Content-Encoding'' = ''gzip'' then
           (case gz_reader lib (r_body r) of
              Inl err \<Rightarrow> (http_Error ''Invalid gzip body'' 400, w)
            | Inr plain \<Rightarrow> serve (r\<lparr>r_body := plain, r_header := (r_header r)(''Content-Encoding'' := None)\<rparr>))
         else serve r)"

text \<open>\<open>DecryptMiddleware\<close>: a nil key passes everything through. A panicking \<open>Decrypt\<close> (there is none) is a 500.\<close>

definition DecryptMiddleware ::
    "gzip_lib \<Rightarrow> ('pub, 'priv) suite \<Rightarrow> 'priv option \<Rightarrow> 'w handler \<Rightarrow> 'w handler" where
  "DecryptMiddleware lib su privKey next r w =
     (case privKey of
        None \<Rightarrow> next r w
      | Some key \<Rightarrow>
          if req_header r ''Content-Encoding'' \<noteq> ''encrypted'' then next r w
          else
            (let bad = (http_Error ''bad request'' 400, w) in
             (case io_ReadAll (r_body r) of
                Inl err \<Rightarrow> bad
              | Inr ciphertext \<Rightarrow>
                  (case Decrypt su key ciphertext of
                     None \<Rightarrow> (http_Error ''panic'' 500, w)
                   | Some (Inl err) \<Rightarrow> bad
                   | Some (Inr compressed) \<Rightarrow>
                       (case gz_reader lib (compressed, None) of
                          Inl err \<Rightarrow> bad
                        | Inr gr \<Rightarrow>
                            (case io_ReadAll gr of
                               Inl err \<Rightarrow> bad
                             | Inr plain \<Rightarrow>
                                 next (r\<lparr>r_body := (plain, None),
                                    r_header := (r_header r)(''Content-Encoding'' := None)\<rparr>) w))))))"

section \<open>Rejecting requests\<close>

text \<open>
  \<open>parse_ip\<close> is \<open>net.ParseIP\<close> (\<open>None\<close> for nil), the subnet its \<open>Contains\<close>; a nil subnet passes
  everything through.
\<close>

definition TrustedSubnetMiddleware ::
    "(string \<Rightarrow> 'ip option) \<Rightarrow> ('ip \<Rightarrow> bool) option \<Rightarrow> 'w handler \<Rightarrow> 'w handler" where
  "TrustedSubnetMiddleware parse_ip subnet next r w =
     (case subnet of
        None \<Rightarrow> next r w
      | Some within \<Rightarrow>
          (case parse_ip (req_header r ''X-Real-IP'') of
             None \<Rightarrow> (http_Error ''forbidden'' 403, w)
           | Some ip \<Rightarrow> if within ip then next r w else (http_Error ''forbidden'' 403, w)))"

definition ComputeHMAC :: "(bytes \<Rightarrow> bytes \<Rightarrow> bytes) \<Rightarrow> bytes \<Rightarrow> string \<Rightarrow> string" where
  "ComputeHMAC mac message key = hex_encode (mac key message)"

definition NewSHA256CheckMiddleware ::
    "(bytes \<Rightarrow> bytes \<Rightarrow> bytes) \<Rightarrow> string \<Rightarrow> 'w handler \<Rightarrow> 'w handler" where
  "NewSHA256CheckMiddleware mac key next r w =
     (if key = '''' then next r w
      else
        (case io_ReadAll (r_body r) of
           Inl err \<Rightarrow> (http_Error ''cannot read body'' 400, w)
         | Inr bodyBytes \<Rightarrow>
             (let gotHash = req_header r ''HashSHA256'';
                  expectedHash = ComputeHMAC mac bodyBytes key
              in if expectedHash \<noteq> gotHash then (http_Error ''invalid hash'' 400, w)
                 else next (r\<lparr>r_body := (bodyBytes, None)\<rparr>) w)))"

section \<open>Logging\<close>

text \<open>
  The two logging writers pass every call on and keep a status and a size. The one of \<open>httpmw\<close>
  starts at 200, the one of \<open>internal/logger\<close> at 0 and is set to 200 by a first \<open>Write\<close>.
\<close>

record log_entry =
  log_method :: string
  log_uri :: string
  log_status :: nat
  log_size :: nat

fun rw_step :: "wcall \<Rightarrow> nat \<times> nat \<Rightarrow> nat \<times> nat" where
  "rw_step (WriteHeader code) (st, sz) = (code, sz)"
| "rw_step (Write b) (st, sz) = (st, sz + length b)"
| "rw_step _ p = p"

definition LoggingMiddleware :: "'w handler \<Rightarrow> ('w \<times> log_entry list) handler" where
  "LoggingMiddleware next r ws =
     (case ws of (w, entries) \<Rightarrow>
        (case next r w of (calls, w') \<Rightarrow>
           (case fold rw_step calls (200, 0) of (st, sz) \<Rightarrow>
              (calls, (w', entries @ [\<lparr>log_method = r_method r, log_uri = r_path r,
                 log_status = st, log_size = sz\<rparr>])))))"

fun rl_step :: "wcall \<Rightarrow> nat \<times> nat \<Rightarrow> nat \<times> nat" where
  "rl_step (WriteHeader code) (statusCode, sz) = (code, sz)"
| "rl_step (Write b) (statusCode, sz) = (if statusCode = 0 then 200 else statusCode, sz + length b)"
| "rl_step _ p = p"

definition logger_Middleware :: "'w handler \<Rightarrow> ('w \<times> log_entry list) handler" where
  "logger_Middleware next r ws =
     (case ws of (w, entries) \<Rightarrow>
        (case next r w of (calls, w') \<Rightarrow>
           (case fold rl_step calls (0, 0) of (st, sz) \<Rightarrow>
              (calls, (w', entries @ [\<lparr>log_method = r_method r, log_uri = r_path r,
                 log_status = st, log_size = sz\<rparr>])))))"

end
