(* ===== verification/Retry.thy ===== *)
theory Retry
  imports Go_Prelude
begin

text \<open>
  The two retry loops of the program: \<open>withRetry\<close> of the PostgreSQL backend counts attempts by
  index, \<open>retryOnConnErr\<close> of the agent ranges over the delays. Both are modelled as written,
  over an operation and a wait that thread a state; a wait returns the context's error when the
  context ends before the delay. The loops are proved to compute the same function.
\<close>

text \<open>The delays in seconds: 1, 3 and 5 in both files.\<close>

definition retryDelays :: "nat list" where
  "retryDelays = [1, 3, 5]"

section \<open>The loop of the PostgreSQL backend\<close>

function retry_attempts ::
    "(go_error \<Rightarrow> bool) \<Rightarrow> nat list \<Rightarrow> (nat \<Rightarrow> 's \<Rightarrow> go_error option \<times> 's)
      \<Rightarrow> ('s \<Rightarrow> go_error option \<times> 's) \<Rightarrow> nat \<Rightarrow> 's \<Rightarrow> go_error option \<times> 's" where
  "retry_attempts retriable delays wait fn attempt s =
     (if length delays < attempt then (None, s)
      else (case fn s of
              (None, s1) \<Rightarrow> (None, s1)
            | (Some err, s1) \<Rightarrow>
                if \<not> retriable err \<or> attempt = length delays then (Some err, s1)
                else (case wait (delays ! attempt) s1 of
                        (Some e, s2) \<Rightarrow> (Some e, s2)
                      | (None, s2) \<Rightarrow> retry_attempts retriable delays wait fn (Suc attempt) s2)))"
  by pat_completeness auto
termination
  by (relation "measure (\<lambda>(r, ds, w, f, k, s). Suc (length ds) - k)") auto

declare retry_attempts.simps [simp del]

text \<open>
  Connection exceptions of SQLSTATE class 08, by the codes \<open>pgerrcode\<close> names: 08000, 08001,
  08003, 08004, 08006, 08007 and 08P01.
\<close>

definition isRetriableDBError :: "go_error \<Rightarrow> bool" where
  "isRetriableDBError err =
     (case as_pg_error err of
        None \<Rightarrow> False
      | Some code \<Rightarrow> code \<in> {''08000'', ''08001'', ''08003'', ''08004'', ''08006'', ''08007'', ''08P01''})"

definition withRetry ::
    "(nat \<Rightarrow> 's \<Rightarrow> go_error option \<times> 's) \<Rightarrow> ('s \<Rightarrow> go_error option \<times> 's)
      \<Rightarrow> 's \<Rightarrow> go_error option \<times> 's" where
  "withRetry wait fn s = retry_attempts isRetriableDBError retryDelays wait fn 0 s"

section \<open>The loop of the agent\<close>

fun retry_range ::
    "(go_error \<Rightarrow> bool) \<Rightarrow> nat list \<Rightarrow> (nat \<Rightarrow> 's \<Rightarrow> go_error option \<times> 's)
      \<Rightarrow> ('s \<Rightarrow> go_error option \<times> 's) \<Rightarrow> go_error option \<Rightarrow> 's \<Rightarrow> go_error option \<times> 's" where
  "retry_range retriable [] wait fn err s = (err, s)"
| "retry_range retriable (delay # delays) wait fn err s =
     (case err of
        None \<Rightarrow> (None, s)
      | Some e \<Rightarrow>
          if \<not> retriable e then (Some e, s)
          else (case wait delay s of
                  (Some ce, s1) \<Rightarrow> (Some ce, s1)
                | (None, s1) \<Rightarrow>
                    (case fn s1 of (err', s2) \<Rightarrow> retry_range retriable delays wait fn err' s2)))"

definition isRetriableNetError :: "go_error \<Rightarrow> bool" where
  "isRetriableNetError err \<longleftrightarrow> as_net_error err \<noteq> None"

definition retryOnConnErr ::
    "(nat \<Rightarrow> 's \<Rightarrow> go_error option \<times> 's) \<Rightarrow> ('s \<Rightarrow> go_error option \<times> 's)
      \<Rightarrow> 's \<Rightarrow> go_error option \<times> 's" where
  "retryOnConnErr wait fn s =
     (case fn s of (err, s1) \<Rightarrow> retry_range isRetriableNetError retryDelays wait fn err s1)"

lemma retriable_simps [simp]:
  "isRetriableNetError (ErrNet t)" "\<not> isRetriableNetError (ErrStatus n)"
  "\<not> isRetriableNetError ErrCtx" "\<not> isRetriableNetError (ErrOther m)"
  "isRetriableNetError (ErrWrap m e) = isRetriableNetError e"
  by (simp_all add: isRetriableNetError_def)

section \<open>The two loops agree\<close>

lemma retry_attempts_range:
  "k \<le> length ds \<Longrightarrow>
   retry_attempts r ds wait fn k s
     = (case fn s of (err, s1) \<Rightarrow> retry_range r (drop k ds) wait fn err s1)"
proof (induction "length ds - k" arbitrary: k s)
  case 0
  then show ?case
    by (subst retry_attempts.simps) (auto split: prod.splits option.splits)
next
  case (Suc n)
  then have k: "k < length ds" by simp
  then have d: "drop k ds = ds ! k # drop (Suc k) ds" by (rule Cons_nth_drop_Suc [symmetric])
  have IH: "retry_attempts r ds wait fn (Suc k) s'
      = (case fn s' of (err, s1) \<Rightarrow> retry_range r (drop (Suc k) ds) wait fn err s1)" for s'
    by (rule Suc.hyps(1)) (use Suc in auto)
  show ?case
    using k unfolding d
    by (subst retry_attempts.simps) (auto simp: IH split: prod.splits option.splits)
qed

text \<open>The index loop of the PostgreSQL backend and the range loop of the agent, given the same
  delays, wait, operation and notion of a retriable error, return the same error and leave the same
  state.\<close>
lemma retry_loops_agree:
  "retry_attempts r ds wait fn 0 s = (case fn s of (err, s1) \<Rightarrow> retry_range r ds wait fn err s1)"
  by (simp add: retry_attempts_range)

lemma withRetry_range:
  "withRetry wait fn s
     = (case fn s of (err, s1) \<Rightarrow> retry_range isRetriableDBError retryDelays wait fn err s1)"
  by (simp add: withRetry_def retry_attempts_range)

section \<open>How often the operation runs\<close>

text \<open>The operation with a call counter in front of its state.\<close>

definition counted :: "('s \<Rightarrow> go_error option \<times> 's) \<Rightarrow> nat \<times> 's \<Rightarrow> go_error option \<times> (nat \<times> 's)" where
  "counted fn ns = (case fn (snd ns) of (e, s') \<Rightarrow> (e, (Suc (fst ns), s')))"

definition uncounted :: "(nat \<Rightarrow> 's \<Rightarrow> go_error option \<times> 's) \<Rightarrow> nat \<Rightarrow> nat \<times> 's \<Rightarrow> go_error option \<times> (nat \<times> 's)" where
  "uncounted wait d ns = (case wait d (snd ns) of (e, s') \<Rightarrow> (e, (fst ns, s')))"

lemma counted_pair [simp]:
  "counted fn (n, s) = (case fn s of (e, s') \<Rightarrow> (e, (Suc n, s')))"
  "uncounted wait d (n, s) = (case wait d s of (e, s') \<Rightarrow> (e, (n, s')))"
  by (simp_all add: counted_def uncounted_def)

lemma retry_range_count:
  "fst (snd (retry_range r ds (uncounted wait) (counted fn) err (n, s))) \<le> n + length ds"
proof (induction ds arbitrary: err n s)
  case (Cons d ds)
  have "fst (snd (retry_range r ds (uncounted wait) (counted fn) err' (Suc n, s'))) \<le> n + length (d # ds)"
    for err' s' using Cons.IH [of err' "Suc n" s'] by simp
  then show ?case by (auto split: option.splits prod.splits)
qed simp

text \<open>An operation that keeps an invariant keeps it through the whole loop.\<close>

lemma retry_range_inv:
  assumes "\<And>s e s'. I s \<Longrightarrow> fn s = (e, s') \<Longrightarrow> I s'" "\<And>d s e s'. I s \<Longrightarrow> wait d s = (e, s') \<Longrightarrow> I s'"
    and "I s" "retry_range r ds wait fn err s = (e, s')"
  shows "I s'"
  using assms(3,4)
proof (induction ds arbitrary: err s)
  case (Cons d ds)
  then show ?case
    by (auto split: option.splits prod.splits if_splits dest: assms(1,2)) (metis assms(1,2))+
qed simp

text \<open>
  The two ways out of \<open>withRetry\<close>, for an invariant that failed attempts keep: a success is the
  operation run once from a state that satisfies it, a failure leaves such a state.
\<close>

lemma retry_range_cases:
  assumes step: "\<And>s e s'. I s \<Longrightarrow> fn s = (Some e, s') \<Longrightarrow> I s'"
    and waits: "\<And>d s e s'. I s \<Longrightarrow> wait d s = (e, s') \<Longrightarrow> I s'"
    and "I s" "retry_range r ds wait fn (Some e0) s = (res, s')"
  shows "(res = None \<and> (\<exists>s1. I s1 \<and> fn s1 = (None, s'))) \<or> (res \<noteq> None \<and> I s')"
  using assms(3,4)
proof (induction ds arbitrary: e0 s)
  case (Cons d ds)
  show ?case
  proof (cases "r e0")
    case False
    with Cons.prems show ?thesis by auto
  next
    case True
    obtain w s1 where w: "wait d s = (w, s1)" by (cases "wait d s")
    obtain e s2 where f: "fn s1 = (e, s2)" by (cases "fn s1")
    have I1: "I s1" using waits Cons.prems(1) w .
    show ?thesis
    proof (cases "w = None \<and> e \<noteq> None")
      case True
      then obtain e1 where "e = Some e1" by auto
      with I1 f have "I s2" using step by blast
      with Cons.IH [of s2 e1] Cons.prems(2) \<open>r e0\<close> True w f \<open>e = Some e1\<close> show ?thesis by simp
    next
      case False
      with Cons.prems(2) \<open>r e0\<close> w f I1 show ?thesis by (cases w; cases ds) auto
    qed
  qed
qed auto

lemma withRetry_cases:
  assumes "\<And>s e s'. I s \<Longrightarrow> fn s = (Some e, s') \<Longrightarrow> I s'"
    and "\<And>d s e s'. I s \<Longrightarrow> wait d s = (e, s') \<Longrightarrow> I s'"
    and "I s" "withRetry wait fn s = (res, s')"
  shows "(res = None \<and> (\<exists>s1. I s1 \<and> fn s1 = (None, s'))) \<or> (res \<noteq> None \<and> I s')"
proof (cases "fn s")
  case (Pair err s1)
  show ?thesis
  proof (cases err)
    case None
    with Pair assms(3,4) show ?thesis by (auto simp: withRetry_range retryDelays_def)
  next
    case (Some e0)
    have I1: "I s1" using assms(1) [OF assms(3)] Pair Some by blast
    have "retry_range isRetriableDBError retryDelays wait fn (Some e0) s1 = (res, s')"
      using assms(4) Pair Some by (simp add: withRetry_range)
    then show ?thesis
      by (rule retry_range_cases [where I = I, rotated 3]) (fact assms(1,2) I1)+
  qed
qed

text \<open>An invariant indexed by the number of attempts made so far: at most four are made.\<close>

lemma retry_range_steps:
  assumes step: "\<And>k s e s'. I k s \<Longrightarrow> fn s = (e, s') \<Longrightarrow> I (Suc k) s'"
    and waits: "\<And>k d s e s'. I k s \<Longrightarrow> wait d s = (e, s') \<Longrightarrow> I k s'"
    and "I k s" "retry_range r ds wait fn err s = (res, s')"
  shows "\<exists>j \<le> k + length ds. I j s'"
  using assms(3,4)
proof (induction ds arbitrary: err k s)
  case Nil
  then show ?case by auto
next
  case (Cons d ds)
  obtain w s1 where w: "wait d s = (w, s1)" by (cases "wait d s")
  obtain e s2 where f: "fn s1 = (e, s2)" by (cases "fn s1")
  have I1: "I k s1" using waits Cons.prems(1) w .
  then have "I (Suc k) s2" using step f by blast
  with Cons.IH [of "Suc k" s2 e] have
    "retry_range r ds wait fn e s2 = (res, s') \<Longrightarrow> \<exists>j \<le> k + length (d # ds). I j s'" by simp
  with Cons.prems w f I1 show ?case
    by (auto split: option.splits if_splits intro: exI [of _ k])
qed

lemma withRetry_steps:
  assumes "\<And>k s e s'. I k s \<Longrightarrow> fn s = (e, s') \<Longrightarrow> I (Suc k) s'"
    and "\<And>k d s e s'. I k s \<Longrightarrow> wait d s = (e, s') \<Longrightarrow> I k s'"
    and "I (0::nat) s" "withRetry wait fn s = (res, s')"
  shows "\<exists>j \<le> 4. I j s'"
proof (cases "fn s")
  case (Pair err s1)
  then have I1: "I (Suc 0) s1" by (rule assms(1) [OF assms(3)])
  have "retry_range isRetriableDBError retryDelays wait fn err s1 = (res, s')"
    using assms(4) Pair by (simp add: withRetry_range)
  then have "\<exists>j \<le> Suc 0 + length retryDelays. I j s'"
    by (rule retry_range_steps [where I = I, rotated 3]) (fact assms(1,2) I1)+
  moreover have "Suc 0 + length retryDelays = 4" by (simp add: retryDelays_def)
  ultimately show ?thesis by metis
qed

text \<open>
  Outcomes in sequence: the operation that reads its next result from a list and records what
  is left. \<open>no_wait\<close> is a wait that never ends early.
\<close>

fun scripted :: "go_error option list \<Rightarrow> go_error option \<times> go_error option list" where
  "scripted [] = (None, [])"
| "scripted (x # xs) = (x, xs)"

definition no_wait :: "nat \<Rightarrow> 's \<Rightarrow> go_error option \<times> 's" where
  "no_wait d s = (None, s)"

lemma retry_range_scripted:
  assumes "list_all (\<lambda>x. \<exists>e. x = Some e \<and> r e) pre" "length pre < length ds"
    and "r e0" and "fin = None \<or> (\<exists>e. fin = Some e \<and> \<not> r e)"
  shows "retry_range r ds no_wait scripted (Some e0) (pre @ fin # post) = (fin, post)"
  using assms
proof (induction pre arbitrary: ds e0)
  case Nil
  then show ?case by (cases ds; cases "tl ds") (auto simp: no_wait_def)
next
  case (Cons x pre)
  then show ?case by (cases ds) (auto simp: no_wait_def)
qed

text \<open>The agent's loop returns the first outcome that is a success or an error no retry can mend,
  provided at most three retriable errors come before it, and calls the operation no more after it.\<close>
lemma retry_first_final:
  assumes "list_all (\<lambda>x. \<exists>e. x = Some e \<and> isRetriableNetError e) pre" and "length pre \<le> 3"
    and "final = None \<or> (\<exists>e. final = Some e \<and> \<not> isRetriableNetError e)"
  shows "retryOnConnErr no_wait scripted (pre @ final # post) = (final, post)"
proof (cases pre)
  case Nil
  with assms(3) show ?thesis by (auto simp: retryOnConnErr_def retryDelays_def)
next
  case (Cons x pre')
  with assms show ?thesis
    using retry_range_scripted [of isRetriableNetError pre' retryDelays _ final post]
    by (auto simp: retryOnConnErr_def retryDelays_def)
qed

lemma retry_first_final_witness:
  "retryOnConnErr no_wait scripted ([Some (ErrNet True), Some (ErrNet False)] @ None # [Some ErrCtx])
     = (None, [Some ErrCtx])"
  by (rule retry_first_final) simp_all

text \<open>The agent's loop runs the operation at least once and at most four times, whatever the
  operation and the wait do.\<close>
lemma retry_call_bound:
  "1 \<le> fst (snd (retryOnConnErr (uncounted wait) (counted fn) (0, s)))
   \<and> fst (snd (retryOnConnErr (uncounted wait) (counted fn) (0, s))) \<le> 4"
proof -
  obtain e s1 where f: "fn s = (e, s1)" by (cases "fn s")
  let ?r = "\<lambda>n. retry_range isRetriableNetError retryDelays (uncounted wait) (counted fn) e (n, s1)"
  have mono: "n \<le> fst (snd (retry_range r ds (uncounted wait) (counted fn) err (n, s)))" for r ds err n s
    by (induction ds arbitrary: err n s)
      (auto split: option.splits prod.splits intro: order_trans Suc_leD)
  have "1 \<le> fst (snd (?r 1))" by (rule mono)
  moreover have "fst (snd (?r 1)) \<le> 1 + 3"
    using retry_range_count [of isRetriableNetError retryDelays wait fn e 1 s1] by (simp add: retryDelays_def)
  ultimately show ?thesis by (simp add: retryOnConnErr_def f)
qed

end
