(* ===== verification/Sender.thy ===== *)
theory Sender
  imports Metrics_Json Middleware Retry
begin

text \<open>
  \<open>internal/agent/sender.go\<close>: the HTTP sender. The network, the random source and the pauses of the retry
  loop act on an environment state the sender threads; a request is what \<open>post\<close> hands to the HTTP client.
\<close>

text \<open>The fate of a call over the network, this one or the gRPC one: it may be lost, answered, or carried out
  without its answer coming back. What the server does for a call it does while the call lasts: a request that is
  carried out after its client has given up, and perhaps sent it again, is not modelled.\<close>

datatype rpc_fate = Call_Lost | Answered | Answer_Lost

record out_request =
  o_url :: string
  o_header :: "string \<rightharpoonup> string"
  o_body :: bytes

record ('n, 'pub, 'priv) agent_env =
  ae_float :: float_text
  ae_mac :: "bytes \<Rightarrow> bytes \<Rightarrow> bytes"
  ae_gzip :: gzip_lib
  ae_suite :: "('pub, 'priv) suite"
  ae_entropy :: "'n \<Rightarrow> entropy \<times> 'n"
  ae_newreq :: "string \<Rightarrow> go_error option"
  ae_do :: "out_request \<Rightarrow> 'n \<Rightarrow> (go_error + nat) \<times> 'n"
  ae_wait :: "nat \<Rightarrow> 'n \<Rightarrow> go_error option \<times> 'n"

record 'pub sender =
  sd_baseURL :: string
  sd_key :: string
  sd_publicKey :: "'pub option"
  sd_localIP :: string

text \<open>\<open>outboundIP\<close>: the local address of a UDP socket, empty when there is none.\<close>

definition outboundIP :: "string option \<Rightarrow> string" where
  "outboundIP dialled = (case dialled of None \<Rightarrow> '''' | Some ip \<Rightarrow> ip)"

definition NewSender :: "string \<Rightarrow> string \<Rightarrow> 'pub option \<Rightarrow> string option \<Rightarrow> 'pub sender" where
  "NewSender baseURL key pubKey dialled =
     \<lparr>sd_baseURL = baseURL, sd_key = key, sd_publicKey = pubKey, sd_localIP = outboundIP dialled\<rparr>"

section \<open>One request\<close>

definition seal_payload ::
    "('n, 'pub, 'priv) agent_env \<Rightarrow> 'pub sender \<Rightarrow> bytes \<Rightarrow> 'n \<Rightarrow> (go_error + string \<times> bytes) \<times> 'n" where
  "seal_payload env s body n =
     (let payload = fst (Compress (ae_gzip env) [] [] body) in
      case sd_publicKey s of
        None \<Rightarrow> (Inr (''gzip'', payload), n)
      | Some pub \<Rightarrow>
          (case ae_entropy env n of (rnd, n1) \<Rightarrow>
             (case Encrypt (ae_suite env) rnd pub payload of
                Inl err \<Rightarrow> (Inl (ErrWrap ''encrypt'' err), n1)
              | Inr encrypted \<Rightarrow> (Inr (''encrypted'', encrypted), n1))))"

definition build_request ::
    "('n, 'pub, 'priv) agent_env \<Rightarrow> 'pub sender \<Rightarrow> string \<Rightarrow> bytes \<Rightarrow> string \<Rightarrow> bytes \<Rightarrow> out_request" where
  "build_request env s path body contentEncoding payload =
     (let h = [''Content-Type'' \<mapsto> ''application/json'', ''Content-Encoding'' \<mapsto> contentEncoding];
          h = (if sd_key s \<noteq> '''' then h(''HashSHA256'' \<mapsto> ComputeHMAC (ae_mac env) body (sd_key s)) else h);
          h = (if sd_localIP s \<noteq> '''' then h(''X-Real-IP'' \<mapsto> sd_localIP s) else h)
      in \<lparr>o_url = sd_baseURL s @ path, o_header = h, o_body = payload\<rparr>)"

definition post ::
    "('n, 'pub, 'priv) agent_env \<Rightarrow> 'pub sender \<Rightarrow> string \<Rightarrow> bytes \<Rightarrow> 'n \<Rightarrow> go_error option \<times> 'n" where
  "post env s path body n =
     (case seal_payload env s body n of
        (Inl err, n1) \<Rightarrow> (Some err, n1)
      | (Inr (contentEncoding, payload), n1) \<Rightarrow>
          (case ae_newreq env (sd_baseURL s @ path) of
             Some err \<Rightarrow> (Some (ErrWrap ''create request'' err), n1)
           | None \<Rightarrow>
               (case ae_do env (build_request env s path body contentEncoding payload) n1 of
                  (Inl err, n2) \<Rightarrow> (Some err, n2)
                | (Inr code, n2) \<Rightarrow> (if code \<noteq> 200 then Some (ErrStatus code) else None, n2))))"

section \<open>Sending metrics\<close>

definition sendJSON ::
    "('n, 'pub, 'priv) agent_env \<Rightarrow> 'pub sender \<Rightarrow> metrics \<Rightarrow> 'n \<Rightarrow> go_error option \<times> 'n" where
  "sendJSON env s m n =
     (case marshal_metric (ae_float env) m of
        None \<Rightarrow> (Some (ErrWrap ''marshal'' (ErrOther ''json: unsupported value'')), n)
      | Some body \<Rightarrow> retryOnConnErr (ae_wait env) (post env s ''/update'' body) n)"

definition SendMetric ::
    "('n, 'pub, 'priv) agent_env \<Rightarrow> 'pub sender \<Rightarrow> metrics \<Rightarrow> 'n \<Rightarrow> go_error option \<times> 'n" where
  "SendMetric env s m n = sendJSON env s m n"

definition SendGauge ::
    "('n, 'pub, 'priv) agent_env \<Rightarrow> 'pub sender \<Rightarrow> string \<Rightarrow> float64 \<Rightarrow> 'n \<Rightarrow> go_error option \<times> 'n" where
  "SendGauge env s name value n = sendJSON env s (gauge_metric name value) n"

definition SendCounter ::
    "('n, 'pub, 'priv) agent_env \<Rightarrow> 'pub sender \<Rightarrow> string \<Rightarrow> int64 \<Rightarrow> 'n \<Rightarrow> go_error option \<times> 'n" where
  "SendCounter env s name value n = sendJSON env s (counter_metric name value) n"

definition SendBatch ::
    "('n, 'pub, 'priv) agent_env \<Rightarrow> 'pub sender \<Rightarrow> metrics list \<Rightarrow> 'n \<Rightarrow> go_error option \<times> 'n" where
  "SendBatch env s metrics n =
     (if metrics = [] then (None, n)
      else (case marshal_list (ae_float env) metrics of
              None \<Rightarrow> (Some (ErrWrap ''marshal'' (ErrOther ''json: unsupported value'')), n)
            | Some body \<Rightarrow> retryOnConnErr (ae_wait env) (post env s ''/updates'' body) n))"

text \<open>\<open>SendAllMetrics\<close>: the two range loops, each left at the first error.\<close>

fun send_each :: "string \<Rightarrow> (string \<Rightarrow> 'v \<Rightarrow> 'n \<Rightarrow> go_error option \<times> 'n) \<Rightarrow> (string \<times> 'v) list \<Rightarrow> 'n
    \<Rightarrow> go_error option \<times> 'n" where
  "send_each msg send [] n = (None, n)"
| "send_each msg send ((name, value) # rest) n =
     (case send name value n of
        (Some err, n1) \<Rightarrow> (Some (ErrWrap (msg @ name) err), n1)
      | (None, n1) \<Rightarrow> send_each msg send rest n1)"

definition SendAllMetrics ::
    "('n, 'pub, 'priv) agent_env \<Rightarrow> 'pub sender \<Rightarrow> (string \<rightharpoonup> float64) \<Rightarrow> string list
      \<Rightarrow> (string \<rightharpoonup> int64) \<Rightarrow> string list \<Rightarrow> 'n \<Rightarrow> go_error option \<times> 'n" where
  "SendAllMetrics env s g gs c cs n =
     (case send_each ''failed to send gauge '' (SendGauge env s) (range_pairs g gs) n of
        (Some err, n1) \<Rightarrow> (Some err, n1)
      | (None, n1) \<Rightarrow> send_each ''failed to send counter '' (SendCounter env s) (range_pairs c cs) n1)"

end
