(* ===== verification/Storage.thy ===== *)
theory Storage
  imports Metrics_Model "HOL-Library.Multiset"
begin

text \<open>
  \<open>internal/storage/storage.go\<close>: the \<open>Storage\<close> interface as a record of operations (Go's
  interface value) and the in-memory backend \<open>MetricsStorage\<close> that implements it; the laws every
  backend owes its clients are in \<open>Storage_Contract\<close>. The mutex of the backend makes each operation one atomic step, so an execution
  of concurrent callers is a sequence of operations in the order the lock was taken.
\<close>

section \<open>The interface\<close>

text \<open>
  Every operation passes the backend's state, reads included (a database may fail on a read).
  \<open>(value, error)\<close> results are pairs as in Go. The two lists of \<open>op_GetAllMetrics\<close> are
  the orders in which the runtime visits the two maps.
\<close>

record 's storage_ops =
  op_UpdateGauge :: "string \<Rightarrow> float64 \<Rightarrow> 's \<Rightarrow> 's"
  op_UpdateCounter :: "string \<Rightarrow> int64 \<Rightarrow> 's \<Rightarrow> 's"
  op_BatchUpdate :: "metrics list \<Rightarrow> 's \<Rightarrow> go_error option \<times> 's"
  op_GetGauge :: "string \<Rightarrow> 's \<Rightarrow> (float64 \<times> go_error option) \<times> 's"
  op_GetCounter :: "string \<Rightarrow> 's \<Rightarrow> (int64 \<times> go_error option) \<times> 's"
  op_GetAllMetrics :: "string list \<Rightarrow> string list \<Rightarrow> 's \<Rightarrow>
    ((string \<rightharpoonup> float64) \<times> (string \<rightharpoonup> int64)) \<times> 's"
  op_Ping :: "'s \<Rightarrow> go_error option \<times> 's"
  op_Close :: "'s \<Rightarrow> go_error option \<times> 's"

section \<open>The in-memory backend\<close>

record mem_store =
  gauges :: "string \<rightharpoonup> float64"
  counters :: "string \<rightharpoonup> int64"

definition NewMemStorage :: mem_store where
  "NewMemStorage = \<lparr>gauges = Map.empty, counters = Map.empty\<rparr>"

lemma NewMemStorage_sel [simp]:
  "gauges NewMemStorage = Map.empty" "counters NewMemStorage = Map.empty"
  by (simp_all add: NewMemStorage_def)

text \<open>Indexing a Go map at a missing key yields the zero value.\<close>

definition map_index :: "('k \<rightharpoonup> 'v::zero) \<Rightarrow> 'k \<Rightarrow> 'v" where
  "map_index m k = (case m k of None \<Rightarrow> 0 | Some v \<Rightarrow> v)"

definition mem_UpdateGauge :: "string \<Rightarrow> float64 \<Rightarrow> mem_store \<Rightarrow> mem_store" where
  "mem_UpdateGauge name value m = m\<lparr>gauges := (gauges m)(name \<mapsto> value)\<rparr>"

definition mem_UpdateCounter :: "string \<Rightarrow> int64 \<Rightarrow> mem_store \<Rightarrow> mem_store" where
  "mem_UpdateCounter name value m =
     m\<lparr>counters := (counters m)(name \<mapsto> map_index (counters m) name + value)\<rparr>"

text \<open>
  The loop of \<open>BatchUpdate\<close>: a metric whose pointer is nil is skipped, an unknown type
  ends the loop with an error and keeps what was applied before it.
\<close>

fun mem_BatchUpdate :: "metrics list \<Rightarrow> mem_store \<Rightarrow> go_error option \<times> mem_store" where
  "mem_BatchUpdate [] m = (None, m)"
| "mem_BatchUpdate (metric # rest) m =
     (if MType metric = TypeGauge then
        (case Value metric of
           None \<Rightarrow> mem_BatchUpdate rest m
         | Some v \<Rightarrow> mem_BatchUpdate rest (m\<lparr>gauges := (gauges m)(ID metric \<mapsto> v)\<rparr>))
      else if MType metric = TypeCounter then
        (case Delta metric of
           None \<Rightarrow> mem_BatchUpdate rest m
         | Some d \<Rightarrow> mem_BatchUpdate rest
             (m\<lparr>counters := (counters m)(ID metric \<mapsto> map_index (counters m) (ID metric) + d)\<rparr>))
      else (Some (ErrUnknownType (MType metric)), m))"

definition mem_GetGauge :: "string \<Rightarrow> mem_store \<Rightarrow> (float64 \<times> go_error option) \<times> mem_store" where
  "mem_GetGauge name m =
     (case gauges m name of
        None \<Rightarrow> ((0, Some ErrMetricNotFound), m)
      | Some value \<Rightarrow> ((value, None), m))"

definition mem_GetCounter :: "string \<Rightarrow> mem_store \<Rightarrow> (int64 \<times> go_error option) \<times> mem_store" where
  "mem_GetCounter name m =
     (case counters m name of
        None \<Rightarrow> ((0, Some ErrMetricNotFound), m)
      | Some value \<Rightarrow> ((value, None), m))"

definition mem_GetAllMetrics :: "string list \<Rightarrow> string list \<Rightarrow> mem_store \<Rightarrow>
    ((string \<rightharpoonup> float64) \<times> (string \<rightharpoonup> int64)) \<times> mem_store" where
  "mem_GetAllMetrics gs cs m =
     ((put_pairs (range_pairs (gauges m) gs) Map.empty,
       put_pairs (range_pairs (counters m) cs) Map.empty), m)"

definition mem_Ping :: "mem_store \<Rightarrow> go_error option \<times> mem_store" where
  "mem_Ping m = (None, m)"

definition mem_Close :: "mem_store \<Rightarrow> go_error option \<times> mem_store" where
  "mem_Close m = (None, m)"

definition mem_ops :: "mem_store storage_ops" where
  "mem_ops = \<lparr>op_UpdateGauge = mem_UpdateGauge, op_UpdateCounter = mem_UpdateCounter,
     op_BatchUpdate = mem_BatchUpdate, op_GetGauge = mem_GetGauge,
     op_GetCounter = mem_GetCounter, op_GetAllMetrics = mem_GetAllMetrics,
     op_Ping = mem_Ping, op_Close = mem_Close\<rparr>"

lemma mem_ops_sel [simp]:
  "op_UpdateGauge mem_ops = mem_UpdateGauge" "op_UpdateCounter mem_ops = mem_UpdateCounter"
  "op_BatchUpdate mem_ops = mem_BatchUpdate" "op_GetGauge mem_ops = mem_GetGauge"
  "op_GetCounter mem_ops = mem_GetCounter" "op_GetAllMetrics mem_ops = mem_GetAllMetrics"
  "op_Ping mem_ops = mem_Ping" "op_Close mem_ops = mem_Close"
  by (simp_all add: mem_ops_def)

lemma map_index_upd [simp]: "map_index (m(k \<mapsto> v)) k' = (if k' = k then v else map_index m k')"
  by (simp add: map_index_def)

lemma map_index_empty [simp]: "map_index Map.empty k = 0"
  by (simp add: map_index_def)

lemma mem_batch_gauge [store_simps]:
  "mem_BatchUpdate (gauge_metric n v # ms) m = mem_BatchUpdate ms (mem_UpdateGauge n v m)"
  by (simp add: mem_UpdateGauge_def)

lemma mem_batch_counter [store_simps]:
  "mem_BatchUpdate (counter_metric n d # ms) m = mem_BatchUpdate ms (mem_UpdateCounter n d m)"
  by (simp add: mem_UpdateCounter_def)

text \<open>One metric of the batch, so that facts on a batch are facts on its steps.\<close>

definition mem_apply :: "metrics \<Rightarrow> mem_store \<Rightarrow> mem_store" where
  "mem_apply x m =
     (if MType x = TypeGauge then
        (case Value x of None \<Rightarrow> m | Some v \<Rightarrow> mem_UpdateGauge (ID x) v m)
      else if MType x = TypeCounter then
        (case Delta x of None \<Rightarrow> m | Some d \<Rightarrow> mem_UpdateCounter (ID x) d m)
      else m)"

lemma mem_apply_metric [simp]:
  "mem_apply (gauge_metric n v) m = mem_UpdateGauge n v m"
  "mem_apply (counter_metric n d) m = mem_UpdateCounter n d m"
  by (simp_all add: mem_apply_def)

lemma mem_batch_Cons:
  "mem_BatchUpdate (x # xs) m =
     (if known_type x then mem_BatchUpdate xs (mem_apply x m)
      else (Some (ErrUnknownType (MType x)), m))"
  by (auto simp: mem_apply_def known_type_def mem_UpdateGauge_def mem_UpdateCounter_def
      split: option.splits)

lemma mem_batch_known:
  "list_all known_type xs \<Longrightarrow> mem_BatchUpdate xs m = (None, fold mem_apply xs m)"
  by (induction xs arbitrary: m) (simp_all add: mem_batch_Cons del: mem_BatchUpdate.simps(2))

lemma mem_batch_split:
  "mem_BatchUpdate (xs @ ys) m =
     (case mem_BatchUpdate xs m of
        (Some e, m') \<Rightarrow> (Some e, m') | (None, m') \<Rightarrow> mem_BatchUpdate ys m')"
  by (induction xs arbitrary: m) (simp_all add: mem_batch_Cons del: mem_BatchUpdate.simps(2))

lemma mem_batch_unknown:
  "\<not> list_all known_type xs \<Longrightarrow> fst (mem_BatchUpdate xs m) \<noteq> None"
  by (induction xs arbitrary: m) (auto simp: mem_batch_Cons simp del: mem_BatchUpdate.simps(2))

lemma mem_batch_error_iff:
  "mem_BatchUpdate xs m = (Some e, m') \<longleftrightarrow>
   (\<exists>pre x post. xs = pre @ x # post \<and> list_all known_type pre \<and> \<not> known_type x
      \<and> e = ErrUnknownType (MType x) \<and> m' = fold mem_apply pre m)" (is "_ \<longleftrightarrow> ?R")
proof
  show "?R \<Longrightarrow> mem_BatchUpdate xs m = (Some e, m')"
    by (auto simp: mem_batch_split mem_batch_known mem_batch_Cons
        simp del: mem_BatchUpdate.simps(2))
next
  assume L: "mem_BatchUpdate xs m = (Some e, m')"
  then have "\<not> list_all known_type xs" using mem_batch_known by fastforce
  then obtain pre x post where "xs = pre @ x # post" "\<not> known_type x" "\<forall>y \<in> set pre. known_type y"
    using split_list_first_prop [of xs "\<lambda>x. \<not> known_type x"] by (auto simp: list_all_iff)
  moreover from this L have "e = ErrUnknownType (MType x)" "m' = fold mem_apply pre m"
    by (auto simp: mem_batch_split mem_batch_known mem_batch_Cons list_all_iff
        simp del: mem_BatchUpdate.simps(2))
  ultimately show ?R by (auto simp: list_all_iff)
qed

end
