(* ===== verification/Storage_Contract.thy ===== *)
theory Storage_Contract
  imports Storage
begin

text \<open>
  The contract of the \<open>Storage\<close> interface. \<open>metric_db\<close> is the abstract database its
  comments describe: gauges that are replaced, counters that are added to as mathematical
  integers. The locale \<open>storage_contract\<close> states what a backend promises in terms of an
  abstraction of its state; \<open>atomic_storage\<close> adds the all-or-nothing batch that the comment
  on \<open>BatchUpdate\<close> promises. The in-memory backend is an instance of the first and, by
  \<open>mem_batch_error\<close>, not of the second.
\<close>

section \<open>The abstract database\<close>

record metric_db =
  db_gauges :: "string \<rightharpoonup> float64"
  db_counters :: "string \<rightharpoonup> int"

definition db_count :: "metric_db \<Rightarrow> string \<Rightarrow> int" where
  "db_count d n = map_index (db_counters d) n"

definition db_set :: "string \<Rightarrow> float64 \<Rightarrow> metric_db \<Rightarrow> metric_db" where
  "db_set n v d = d\<lparr>db_gauges := (db_gauges d)(n \<mapsto> v)\<rparr>"

definition db_add :: "string \<Rightarrow> int \<Rightarrow> metric_db \<Rightarrow> metric_db" where
  "db_add n k d = d\<lparr>db_counters := (db_counters d)(n \<mapsto> db_count d n + k)\<rparr>"

definition db_apply :: "metrics \<Rightarrow> metric_db \<Rightarrow> metric_db" where
  "db_apply x d =
     (if MType x = TypeGauge then
        (case Value x of None \<Rightarrow> d | Some v \<Rightarrow> db_set (ID x) v d)
      else if MType x = TypeCounter then
        (case Delta x of None \<Rightarrow> d | Some k \<Rightarrow> db_add (ID x) (sint k) d)
      else d)"

text \<open>The sums stay within 64 bits: the case in which all backends agree.\<close>

definition add_safe :: "string \<Rightarrow> int64 \<Rightarrow> metric_db \<Rightarrow> bool" where
  "add_safe n k d \<longleftrightarrow> int64_range (db_count d n + sint k)"

definition metric_safe :: "metrics \<Rightarrow> metric_db \<Rightarrow> bool" where
  "metric_safe x d \<longleftrightarrow> MType x \<noteq> TypeCounter \<or>
     (case Delta x of None \<Rightarrow> True | Some k \<Rightarrow> add_safe (ID x) k d)"

fun batch_safe :: "metrics list \<Rightarrow> metric_db \<Rightarrow> bool" where
  "batch_safe [] d = True"
| "batch_safe (x # xs) d = (metric_safe x d \<and> batch_safe xs (db_apply x d))"

section \<open>The laws of a backend\<close>

text \<open>
  \<open>ready\<close> is the backend's own condition (no fault pending, say), \<open>name_ok\<close> the names it can
  store, \<open>abs\<close> its abstraction.
\<close>

locale storage_contract =
  fixes ops :: "'s storage_ops"
    and abs :: "'s \<Rightarrow> metric_db"
    and ready :: "'s \<Rightarrow> bool"
    and name_ok :: "string \<Rightarrow> bool"
  assumes set_gauge: "ready s \<Longrightarrow> name_ok n \<Longrightarrow>
      abs (op_UpdateGauge ops n v s) = db_set n v (abs s) \<and> ready (op_UpdateGauge ops n v s)"
    and add_counter: "ready s \<Longrightarrow> name_ok n \<Longrightarrow> add_safe n k (abs s) \<Longrightarrow>
      abs (op_UpdateCounter ops n k s) = db_add n (sint k) (abs s)
      \<and> ready (op_UpdateCounter ops n k s)"
    and batch: "ready s \<Longrightarrow> list_all known_type ms \<Longrightarrow> list_all (name_ok \<circ> ID) ms \<Longrightarrow>
      batch_safe ms (abs s) \<Longrightarrow>
      \<exists>s'. op_BatchUpdate ops ms s = (None, s') \<and> abs s' = fold db_apply ms (abs s) \<and> ready s'"
    and batch_rejects: "\<not> list_all known_type ms \<Longrightarrow> fst (op_BatchUpdate ops ms s) \<noteq> None"
    and get_gauge: "ready s \<Longrightarrow> op_GetGauge ops n s =
      ((case db_gauges (abs s) n of None \<Rightarrow> (0, Some ErrMetricNotFound) | Some v \<Rightarrow> (v, None)), s)"
    and get_counter: "ready s \<Longrightarrow> op_GetCounter ops n s =
      ((case db_counters (abs s) n of
          None \<Rightarrow> (0, Some ErrMetricNotFound) | Some c \<Rightarrow> (word_of_int c, None)), s)"
    and get_all: "ready s \<Longrightarrow> visits (db_gauges (abs s)) gs \<Longrightarrow>
      visits (db_counters (abs s)) cs \<Longrightarrow>
      op_GetAllMetrics ops gs cs s =
        ((db_gauges (abs s), map_option word_of_int \<circ> db_counters (abs s)), s)"
begin

text \<open>Read-after-write, for a client that only knows the contract.\<close>

lemma gauge_read_back:
  assumes "ready s" "name_ok n"
  shows "fst (op_GetGauge ops n (op_UpdateGauge ops n v s)) = (v, None)"
  using set_gauge [OF assms] by (simp add: get_gauge db_set_def)

lemma counter_read_back:
  assumes "ready s" "name_ok n" "add_safe n k (abs s)"
  shows "fst (op_GetCounter ops n (op_UpdateCounter ops n k s))
    = (word_of_int (db_count (abs s) n + sint k), None)"
  using add_counter [OF assms] by (simp add: get_counter db_add_def)

lemma gauge_leaves_counters:
  assumes "ready s" "name_ok n"
  shows "fst (op_GetCounter ops m (op_UpdateGauge ops n v s)) = fst (op_GetCounter ops m s)"
  using set_gauge [OF assms] assms(1) by (simp add: get_counter db_set_def)

lemma missing_gauge_error:
  assumes "ready s" "db_gauges (abs s) n = None"
  shows "op_GetGauge ops n s = ((0, Some ErrMetricNotFound), s)"
  using assms by (simp add: get_gauge)

end

locale atomic_storage = storage_contract +
  assumes batch_atomic: "ready s \<Longrightarrow> op_BatchUpdate ops ms s = (Some e, s') \<Longrightarrow> abs s' = abs s"
begin

lemma batch_all_or_nothing:
  assumes "ready s" "list_all (name_ok \<circ> ID) ms" "batch_safe ms (abs s)"
  shows "abs (snd (op_BatchUpdate ops ms s)) = abs s
    \<or> abs (snd (op_BatchUpdate ops ms s)) = fold db_apply ms (abs s)"
proof (cases "op_BatchUpdate ops ms s")
  case (Pair r s')
  show ?thesis
  proof (cases r)
    case (Some e)
    then show ?thesis using batch_atomic [OF assms(1)] Pair by auto
  next
    case None
    then have "list_all known_type ms"
      using batch_rejects [of ms s] Pair by auto
    then show ?thesis using batch [OF assms(1) _ assms(2,3)] by auto
  qed
qed

end

section \<open>The in-memory backend keeps the contract\<close>

definition mem_abs :: "mem_store \<Rightarrow> metric_db" where
  "mem_abs m = \<lparr>db_gauges = gauges m, db_counters = map_option sint \<circ> counters m\<rparr>"

lemma mem_abs_sel [simp]:
  "db_gauges (mem_abs m) = gauges m" "db_counters (mem_abs m) n = map_option sint (counters m n)"
  by (simp_all add: mem_abs_def)

lemma db_count_mem_abs [simp]: "db_count (mem_abs m) n = sint (map_index (counters m) n)"
  by (simp add: db_count_def map_index_def split: option.splits)

lemma mem_abs_UpdateGauge [store_simps]:
  "mem_abs (mem_UpdateGauge n v m) = db_set n v (mem_abs m)"
  by (simp add: mem_abs_def mem_UpdateGauge_def db_set_def)

lemma mem_abs_UpdateCounter [store_simps]:
  "add_safe n k (mem_abs m) \<Longrightarrow>
   mem_abs (mem_UpdateCounter n k m) = db_add n (sint k) (mem_abs m)"
  by (auto simp: mem_abs_def mem_UpdateCounter_def db_add_def add_safe_def sint_add_range
      db_count_mem_abs [unfolded mem_abs_def])

lemma mem_abs_apply:
  "metric_safe x (mem_abs m) \<Longrightarrow> mem_abs (mem_apply x m) = db_apply x (mem_abs m)"
  by (auto simp: mem_apply_def db_apply_def metric_safe_def store_simps split: option.splits)

lemma mem_abs_fold:
  "batch_safe xs (mem_abs m) \<Longrightarrow> mem_abs (fold mem_apply xs m) = fold db_apply xs (mem_abs m)"
  by (induction xs arbitrary: m) (simp_all add: mem_abs_apply)

lemma word_of_sint_map [simp]:
  "map_option word_of_int \<circ> (map_option sint \<circ> c) = (c :: 'k \<rightharpoonup> int64)"
  by (auto simp: fun_eq_iff option.map_comp o_def option.map_ident)

lemma visits_map_option [simp]: "visits (map_option f \<circ> m) ks = visits m ks"
  by (simp add: visits_def dom_def)

interpretation mem: storage_contract mem_ops mem_abs "\<lambda>_. True" "\<lambda>_. True"
proof unfold_locales
  fix s n v k ms gs cs
  show "mem_abs (op_UpdateGauge mem_ops n v s) = db_set n v (mem_abs s) \<and> True"
    by (simp add: store_simps)
  show "add_safe n k (mem_abs s) \<Longrightarrow>
      mem_abs (op_UpdateCounter mem_ops n k s) = db_add n (sint k) (mem_abs s) \<and> True"
    by (simp add: store_simps)
  show "list_all known_type ms \<Longrightarrow> batch_safe ms (mem_abs s) \<Longrightarrow>
      \<exists>s'. op_BatchUpdate mem_ops ms s = (None, s')
        \<and> mem_abs s' = fold db_apply ms (mem_abs s) \<and> True"
    by (simp add: mem_batch_known mem_abs_fold)
  show "\<not> list_all known_type ms \<Longrightarrow> fst (op_BatchUpdate mem_ops ms s) \<noteq> None"
    by (simp add: mem_batch_unknown)
  show "op_GetGauge mem_ops n s = ((case db_gauges (mem_abs s) n of
      None \<Rightarrow> (0, Some ErrMetricNotFound) | Some v \<Rightarrow> (v, None)), s)"
    by (simp add: mem_GetGauge_def split: option.splits)
  show "op_GetCounter mem_ops n s = ((case db_counters (mem_abs s) n of
      None \<Rightarrow> (0, Some ErrMetricNotFound) | Some c \<Rightarrow> (word_of_int c, None)), s)"
    by (simp add: mem_GetCounter_def split: option.splits)
  show "visits (db_gauges (mem_abs s)) gs \<Longrightarrow> visits (db_counters (mem_abs s)) cs \<Longrightarrow>
      op_GetAllMetrics mem_ops gs cs s =
        ((db_gauges (mem_abs s), map_option word_of_int \<circ> db_counters (mem_abs s)), s)"
    by (simp add: mem_GetAllMetrics_def mem_abs_def put_range_pairs_copy)
qed

end
