(* ===== verification/Storage_Facts.thy ===== *)
theory Storage_Facts
  imports Storage_Contract
begin

text \<open>
  What the in-memory backend guarantees to concurrent callers: batch updates sum counters with
  64-bit wrap-around and keep the last gauge, the counters do not depend on the order in which
  the lock serialises the calls, and a rejected batch keeps its prefix.
\<close>

section \<open>Totals of a batch\<close>

fun deltas_of :: "string \<Rightarrow> metrics list \<Rightarrow> int64 list" where
  "deltas_of n [] = []"
| "deltas_of n (x # xs) =
     (if MType x = TypeCounter \<and> ID x = n
      then (case Delta x of None \<Rightarrow> deltas_of n xs | Some d \<Rightarrow> d # deltas_of n xs)
      else deltas_of n xs)"

fun values_of :: "string \<Rightarrow> metrics list \<Rightarrow> float64 list" where
  "values_of n [] = []"
| "values_of n (x # xs) =
     (if MType x = TypeGauge \<and> ID x = n
      then (case Value x of None \<Rightarrow> values_of n xs | Some v \<Rightarrow> v # values_of n xs)
      else values_of n xs)"

lemma fold_apply_counter:
  "map_index (counters (fold mem_apply xs m)) n
     = map_index (counters m) n + sum_list (deltas_of n xs)"
  by (induction xs arbitrary: m)
    (auto simp: mem_apply_def mem_UpdateGauge_def mem_UpdateCounter_def split: option.splits)

lemma fold_apply_counter_dom:
  "counters (fold mem_apply xs m) n = None \<longleftrightarrow> counters m n = None \<and> deltas_of n xs = []"
  by (induction xs arbitrary: m)
    (auto simp: mem_apply_def mem_UpdateGauge_def mem_UpdateCounter_def split: option.splits)

lemma fold_apply_gauge:
  "gauges (fold mem_apply xs m) n
     = (if values_of n xs = [] then gauges m n else Some (last (values_of n xs)))"
  by (induction xs arbitrary: m)
    (auto simp: mem_apply_def mem_UpdateGauge_def mem_UpdateCounter_def split: option.splits)

text \<open>After a batch of known types every counter holds its old value plus the sum of the
  batch's deltas for it (modulo 2 to the 64, as Go adds), and every gauge holds the last value the
  batch carries for it; metrics with a nil pointer have no effect.\<close>
lemma mem_batch_totals:
  assumes "list_all known_type xs" and "mem_BatchUpdate xs m = (r, m')"
  shows "r = None
    \<and> map_index (counters m') n = map_index (counters m) n + sum_list (deltas_of n xs)
    \<and> gauges m' n = (if values_of n xs = [] then gauges m n else Some (last (values_of n xs)))"
  using assms by (auto simp: mem_batch_known fold_apply_counter fold_apply_gauge)

lemma mem_batch_totals_witness:
  "gauges (snd (mem_BatchUpdate [counter_metric ''a'' 2, gauge_metric ''g'' 0, counter_metric ''a'' 3]
     NewMemStorage)) ''g'' = Some 0
   \<and> map_index (counters (snd (mem_BatchUpdate
       [counter_metric ''a'' 2, gauge_metric ''g'' 0, counter_metric ''a'' 3] NewMemStorage))) ''a'' = 5"
proof -
  let ?xs = "[counter_metric ''a'' 2, gauge_metric ''g'' 0, counter_metric ''a'' 3]"
  have k: "list_all known_type ?xs" by simp
  show ?thesis
    using mem_batch_totals [OF k surjective_pairing, of NewMemStorage "''g''"]
      mem_batch_totals [OF k surjective_pairing, of NewMemStorage "''a''"]
    by (simp add: NewMemStorage_def)
qed

text \<open>A batch fails exactly when it holds an unknown type; the error names the first such type
  and the updates before it stay applied (the interface's comment says the batch is atomic).\<close>
lemma mem_batch_error:
  "mem_BatchUpdate xs m = (Some e, m') \<longleftrightarrow>
   (\<exists>pre x post. xs = pre @ x # post \<and> list_all known_type pre \<and> \<not> known_type x
      \<and> e = ErrUnknownType (MType x) \<and> m' = fold mem_apply pre m)"
  by (rule mem_batch_error_iff)

section \<open>Concurrent callers\<close>

text \<open>
  A call under the lock. Each handler goroutine issues its calls; the lock serialises them in
  some order, so a concurrent execution is one list of calls.
\<close>

datatype mem_call =
    CallGauge string float64
  | CallCounter string int64
  | CallBatch "metrics list"

fun mem_call_exec :: "mem_call \<Rightarrow> mem_store \<Rightarrow> mem_store" where
  "mem_call_exec (CallGauge n v) m = mem_UpdateGauge n v m"
| "mem_call_exec (CallCounter n d) m = mem_UpdateCounter n d m"
| "mem_call_exec (CallBatch xs) m = snd (mem_BatchUpdate xs m)"

definition mem_run :: "mem_call list \<Rightarrow> mem_store \<Rightarrow> mem_store" where
  "mem_run cs m = fold mem_call_exec cs m"

fun call_deltas :: "string \<Rightarrow> mem_call \<Rightarrow> int64 list" where
  "call_deltas n (CallGauge _ _) = []"
| "call_deltas n (CallCounter k d) = (if k = n then [d] else [])"
| "call_deltas n (CallBatch xs) = deltas_of n (takeWhile known_type xs)"

lemma mem_batch_takeWhile:
  "snd (mem_BatchUpdate xs m) = fold mem_apply (takeWhile known_type xs) m"
  by (induction xs arbitrary: m) (simp_all add: mem_batch_Cons del: mem_BatchUpdate.simps(2))

lemma mem_run_counter:
  "map_index (counters (mem_run cs m)) n
     = map_index (counters m) n + sum_list (concat (map (call_deltas n) cs))"
proof (induction cs arbitrary: m)
  case Nil
  show ?case by (simp add: mem_run_def)
next
  case (Cons c cs)
  have "map_index (counters (mem_call_exec c m)) n
      = map_index (counters m) n + sum_list (call_deltas n c)"
    by (cases c) (auto simp: mem_UpdateGauge_def mem_UpdateCounter_def mem_batch_takeWhile
        fold_apply_counter)
  with Cons.IH [of "mem_call_exec c m"] show ?case by (simp add: mem_run_def add.assoc)
qed

lemma mem_run_counter_dom:
  "counters (mem_run cs m) n = None
     \<longleftrightarrow> counters m n = None \<and> concat (map (call_deltas n) cs) = []"
proof (induction cs arbitrary: m)
  case Nil
  show ?case by (simp add: mem_run_def)
next
  case (Cons c cs)
  have "counters (mem_call_exec c m) n = None \<longleftrightarrow> counters m n = None \<and> call_deltas n c = []"
    by (cases c) (auto simp: mem_UpdateGauge_def mem_UpdateCounter_def mem_batch_takeWhile
        fold_apply_counter_dom)
  with Cons.IH [of "mem_call_exec c m"] show ?case by (simp add: mem_run_def)
qed

lemma map_eq_by_index:
  assumes "\<And>k. m k = None \<longleftrightarrow> m' k = None" "\<And>k. map_index m k = map_index m' k"
  shows "m = m'"
proof
  fix k
  show "m k = m' k"
    using assms [of k] by (cases "m k"; cases "m' k") (auto simp: map_index_def)
qed

lemma mset_sum_list_concat:
  assumes "mset xs = mset ys"
  shows "sum_list (concat (map f xs)) = (sum_list (concat (map f ys)) :: 'a::comm_monoid_add)"
proof -
  have "sum_list (concat (map f zs)) = sum_mset (image_mset (\<lambda>x. sum_list (f x)) (mset zs))" for zs
    by (induction zs) simp_all
  with assms show ?thesis by simp
qed

text \<open>Whatever the order in which the lock serialises concurrent callers, the counters they
  leave behind are the same: no update is lost and no interleaving shows in the totals.\<close>
lemma mem_counters_order_free:
  assumes "mset cs = mset cs'"
  shows "counters (mem_run cs m) = counters (mem_run cs' m)"
proof (rule map_eq_by_index)
  fix n
  have "set cs = set cs'" using assms by (rule mset_eq_setD)
  then show "counters (mem_run cs m) n = None \<longleftrightarrow> counters (mem_run cs' m) n = None"
    by (auto simp: mem_run_counter_dom)
  show "map_index (counters (mem_run cs m)) n = map_index (counters (mem_run cs' m)) n"
    by (simp add: mem_run_counter mset_sum_list_concat [OF assms])
qed

lemma mem_counters_order_free_witness:
  "counters (mem_run [CallCounter ''a'' 1, CallBatch [counter_metric ''a'' 2]] NewMemStorage)
   = counters (mem_run [CallBatch [counter_metric ''a'' 2], CallCounter ''a'' 1] NewMemStorage)"
  by (rule mem_counters_order_free) simp

text \<open>C18: On batches of known types whose sums fit in 64 bits the in-memory backend implements the
  abstract database: the batch succeeds and the abstraction of the new state is the abstract batch.\<close>
theorem mem_batch_refines:
  assumes "list_all known_type ms" and "batch_safe ms (mem_abs s)"
  shows "\<exists>s'. op_BatchUpdate mem_ops ms s = (None, s') \<and> mem_abs s' = fold db_apply ms (mem_abs s)"
  using mem.batch [where s = s and ms = ms] assms by (auto simp: list_all_iff)

theorem mem_batch_refines_witness:
  "\<exists>s'. op_BatchUpdate mem_ops [counter_metric ''a'' 7, counter_metric ''a'' 1] NewMemStorage = (None, s')
     \<and> mem_abs s' = fold db_apply [counter_metric ''a'' 7, counter_metric ''a'' 1] (mem_abs NewMemStorage)"
  by (rule mem_batch_refines)
    (simp_all add: metric_safe_def add_safe_def db_apply_def db_add_def int64_range_def
      NewMemStorage_def mem_abs_def db_count_def)

end
