(* ===== verification/Collector.thy ===== *)
theory Collector
  imports Sender Storage_Facts
begin

text \<open>
  \<open>internal/agent/collector.go\<close> and \<open>gopsutil_collector.go\<close>: the collector's maps and buffer, the two
  collections, the snapshots and the buffered sending. Its mutex makes each operation one step. Readings of
  the runtime and of gopsutil, the conversion of unsigned integers to floats and the back-off library are
  parameters.
\<close>

section \<open>State and collection\<close>

record collector =
  c_gauge :: "string \<rightharpoonup> float64"
  c_counter :: "string \<rightharpoonup> int64"
  c_buffer :: "metrics list"
  c_BatchSize :: int
  c_endpoint :: string

definition NewCollector :: "int \<Rightarrow> string \<Rightarrow> collector" where
  "NewCollector batchSize endpoint =
     \<lparr>c_gauge = Map.empty, c_counter = Map.empty, c_buffer = [], c_BatchSize = batchSize, c_endpoint = endpoint\<rparr>"

text \<open>What one collection of runtime metrics reads: the integer fields of \<open>MemStats\<close> and two floats.\<close>

record readings =
  rd_stat :: "string \<Rightarrow> 64 word"
  rd_GCCPUFraction :: float64
  rd_random :: float64

definition runtime_gauges :: "(64 word \<Rightarrow> float64) \<Rightarrow> readings \<Rightarrow> (string \<times> float64) list" where
  "runtime_gauges to_float m =
     (let f = (\<lambda>n. (n, to_float (rd_stat m n))) in
      [f ''Alloc'', f ''BuckHashSys'', f ''Frees'', (''GCCPUFraction'', rd_GCCPUFraction m), f ''GCSys'',
       f ''HeapAlloc'', f ''HeapIdle'', f ''HeapInuse'', f ''HeapObjects'', f ''HeapReleased'', f ''HeapSys'',
       f ''LastGC'', f ''Lookups'', f ''MCacheInuse'', f ''MCacheSys'', f ''MSpanInuse'', f ''MSpanSys'',
       f ''Mallocs'', f ''NextGC'', f ''NumForcedGC'', f ''NumGC'', f ''OtherSys'', f ''PauseTotalNs'',
       f ''StackInuse'', f ''StackSys'', f ''Sys'', f ''TotalAlloc'', (''RandomValue'', rd_random m)])"

definition UpdateMetrics :: "(64 word \<Rightarrow> float64) \<Rightarrow> readings \<Rightarrow> collector \<Rightarrow> collector" where
  "UpdateMetrics to_float m c =
     c\<lparr>c_gauge := put_pairs (runtime_gauges to_float m) (c_gauge c),
       c_counter := (c_counter c)(''PollCount'' \<mapsto> map_index (c_counter c) ''PollCount'' + 1)\<rparr>"

text \<open>
  \<open>UpdateGopsutilMetrics\<close>: two sections under the lock, one for each reading; a reading may fail and then changes
  nothing.
\<close>

definition gopsutil_memory ::
    "(64 word \<Rightarrow> float64) \<Rightarrow> go_error + (64 word \<times> 64 word) \<Rightarrow> collector \<Rightarrow> collector" where
  "gopsutil_memory to_float vm c =
     (case vm of
        Inl err \<Rightarrow> c
      | Inr (tot, avail) \<Rightarrow>
          c\<lparr>c_gauge := (c_gauge c)(''TotalMemory'' \<mapsto> to_float tot, ''FreeMemory'' \<mapsto> to_float avail)\<rparr>)"

definition gopsutil_cpu :: "go_error + float64 list \<Rightarrow> collector \<Rightarrow> collector" where
  "gopsutil_cpu percs c =
     (case percs of
        Inl err \<Rightarrow> c
      | Inr ps \<Rightarrow>
          c\<lparr>c_gauge := put_pairs
               (map (\<lambda>(i, p). (''CPUutilization'' @ nat_digits (i + 1), p)) (enumerate 0 ps)) (c_gauge c)\<rparr>)"

definition UpdateGopsutilMetrics ::
    "(64 word \<Rightarrow> float64) \<Rightarrow> go_error + (64 word \<times> 64 word) \<Rightarrow> go_error + float64 list \<Rightarrow> collector \<Rightarrow> collector" where
  "UpdateGopsutilMetrics to_float vm percs c = gopsutil_cpu percs (gopsutil_memory to_float vm c)"

text \<open>
  Each section alone is a collection whose other reading fails. A step relation that allows the collections one
  after the other, readings and failures being arbitrary, therefore also allows other goroutines between the two
  sections of one collection.
\<close>

lemma gopsutil_sections:
  "gopsutil_memory to_float vm = UpdateGopsutilMetrics to_float vm (Inl e)"
  "gopsutil_cpu percs = UpdateGopsutilMetrics to_float (Inl e) percs"
  by (simp_all add: fun_eq_iff UpdateGopsutilMetrics_def gopsutil_memory_def gopsutil_cpu_def)

lemmas UpdateGopsutilMetrics_eq = UpdateGopsutilMetrics_def gopsutil_memory_def gopsutil_cpu_def

section \<open>Snapshots\<close>

definition GetGauges :: "string list \<Rightarrow> collector \<Rightarrow> (string \<rightharpoonup> float64)" where
  "GetGauges gs c = put_pairs (range_pairs (c_gauge c) gs) Map.empty"

definition GetCounters :: "string list \<Rightarrow> collector \<Rightarrow> (string \<rightharpoonup> int64)" where
  "GetCounters cs c = put_pairs (range_pairs (c_counter c) cs) Map.empty"

definition GetAllMetrics :: "string list \<Rightarrow> string list \<Rightarrow> collector \<Rightarrow> metrics list" where
  "GetAllMetrics gs cs c =
     map (\<lambda>(name, value). gauge_metric name value) (range_pairs (c_gauge c) gs)
     @ map (\<lambda>(name, delta). counter_metric name delta) (range_pairs (c_counter c) cs)"

definition GetMetricsCount :: "collector \<Rightarrow> nat \<times> nat" where
  "GetMetricsCount c = (card (dom (c_gauge c)), card (dom (c_counter c)))"

section \<open>Buffered sending\<close>

text \<open>\<open>AddMetric\<close>: the flag says whether a goroutine running \<open>sendBatch\<close> is started.\<close>

definition AddMetric :: "metrics \<Rightarrow> collector \<Rightarrow> collector \<times> bool" where
  "AddMetric m c =
     (let c1 = c\<lparr>c_buffer := c_buffer c @ [m]\<rparr>
      in (c1, int (length (c_buffer c1)) \<ge> c_BatchSize c1))"

definition StartFlusher_tick :: "collector \<Rightarrow> bool" where
  "StartFlusher_tick c \<longleftrightarrow> length (c_buffer c) > 0"

definition isRetriableError :: "go_error \<Rightarrow> bool" where
  "isRetriableError err \<longleftrightarrow> as_net_error err = Some True"

definition batch_request :: "('n, 'pub, 'priv) agent_env \<Rightarrow> collector \<Rightarrow> bytes \<Rightarrow> out_request" where
  "batch_request env c data =
     \<lparr>o_url = c_endpoint c @ ''/updates'',
      o_header = [''Content-Encoding'' \<mapsto> ''gzip'', ''Content-Type'' \<mapsto> ''application/json''],
      o_body = fst (Compress (ae_gzip env) [] [] data)\<rparr>"

definition trySendBatch ::
    "('n, 'pub, 'priv) agent_env \<Rightarrow> collector \<Rightarrow> metrics list \<Rightarrow> 'n \<Rightarrow> go_error option \<times> 'n" where
  "trySendBatch env c buffer n =
     (case marshal_list (ae_float env) buffer of
        None \<Rightarrow> (Some (ErrPermanent (ErrOther ''json: unsupported value'')), n)
      | Some data \<Rightarrow>
          (case ae_newreq env (c_endpoint c @ ''/updates'') of
             Some err \<Rightarrow> (Some (ErrPermanent err), n)
           | None \<Rightarrow>
               (case ae_do env (batch_request env c data) n of
                  (Inl err, n1) \<Rightarrow> (Some (if isRetriableError err then err else ErrPermanent err), n1)
                | (Inr code, n1) \<Rightarrow> (if code \<ge> 500 then Some (ErrWrap ''server error'' (ErrStatus code)) else None, n1))))"

text \<open>\<open>retry\<close> is \<open>backoff.Retry\<close> with the configured policy.\<close>

definition sendBatch ::
    "(('n \<Rightarrow> go_error option \<times> 'n) \<Rightarrow> 'n \<Rightarrow> go_error option \<times> 'n)
      \<Rightarrow> ('n, 'pub, 'priv) agent_env \<Rightarrow> collector \<Rightarrow> 'n \<Rightarrow> collector \<times> 'n" where
  "sendBatch retry env c n =
     (if length (c_buffer c) = 0 then (c, n)
      else
        (case marshal_list (ae_float env) (c_buffer c) of
           None \<Rightarrow> (c, n)
         | Some data \<Rightarrow>
             (case ae_newreq env (c_endpoint c @ ''/updates'') of
                Some err \<Rightarrow> (c, n)
              | None \<Rightarrow>
                  (case ae_do env (batch_request env c data) n of
                     (Inl err, n1) \<Rightarrow> (c, n1)
                   | (Inr code, n1) \<Rightarrow>
                       (let c1 = (if code = 200 then c\<lparr>c_buffer := []\<rparr> else c);
                            sendBuffer = c_buffer c1
                        in (case retry (trySendBatch env c1 sendBuffer) n1 of
                              (None, n2) \<Rightarrow> (c1\<lparr>c_buffer := []\<rparr>, n2)
                            | (Some err, n2) \<Rightarrow> (c1, n2)))))))"

section \<open>What is collected\<close>

lemma put_pairs_other: "k \<notin> fst ` set kvs \<Longrightarrow> put_pairs kvs r k = r k"
  by (induction kvs r rule: put_pairs.induct) auto

lemma put_pairs_distinct: "distinct (map fst kvs) \<Longrightarrow> (k, v) \<in> set kvs \<Longrightarrow> put_pairs kvs r k = Some v"
  by (induction kvs r rule: put_pairs.induct) (auto simp: put_pairs_other image_iff)

lemma runtime_names_distinct: "distinct (map fst (runtime_gauges to_float m))"
  by (simp add: runtime_gauges_def Let_def)

lemma runtime_names_count: "length (runtime_gauges to_float m) = 28"
  by (simp add: runtime_gauges_def Let_def)

text \<open>A collection writes exactly the 28 runtime gauges with the values read, leaves every other gauge
  alone and adds one to PollCount modulo 2^64.\<close>
lemma collection_complete:
  "length (map fst (runtime_gauges to_float m)) = 28 \<and> distinct (map fst (runtime_gauges to_float m))
   \<and> c_gauge (UpdateMetrics to_float m c) k
       = (case map_of (runtime_gauges to_float m) k of Some v \<Rightarrow> Some v | None \<Rightarrow> c_gauge c k)
   \<and> c_counter (UpdateMetrics to_float m c)
       = (c_counter c)(''PollCount'' \<mapsto> map_index (c_counter c) ''PollCount'' + 1)"
proof -
  have "put_pairs (runtime_gauges to_float m) (c_gauge c) k
      = (case map_of (runtime_gauges to_float m) k of Some v \<Rightarrow> Some v | None \<Rightarrow> c_gauge c k)"
  proof (cases "map_of (runtime_gauges to_float m) k")
    case None
    then have "k \<notin> fst ` set (runtime_gauges to_float m)" by (simp add: map_of_eq_None_iff)
    with None show ?thesis by (simp add: put_pairs_other)
  next
    case (Some v)
    then show ?thesis using put_pairs_distinct [OF runtime_names_distinct map_of_SomeD] by fastforce
  qed
  then show ?thesis
    using runtime_names_distinct [of to_float m]
    by (simp add: UpdateMetrics_def runtime_names_count map_index_def)
qed

section \<open>Reporting\<close>

lemma batch_gauge_pairs:
  "mem_BatchUpdate (map (\<lambda>(name, value). gauge_metric name value) kvs @ ms) m
     = mem_BatchUpdate ms (m\<lparr>gauges := put_pairs kvs (gauges m)\<rparr>)"
proof (induction kvs arbitrary: m)
  case (Cons kv kvs)
  then show ?case by (cases kv) (simp add: mem_batch_gauge mem_UpdateGauge_def fun_upd_def del: mem_BatchUpdate.simps)
qed simp

lemma batch_counter_pairs:
  assumes "distinct (map fst kvs)" "\<forall>k \<in> fst ` set kvs. counters m k = None"
  shows "mem_BatchUpdate (map (\<lambda>(name, delta). counter_metric name delta) kvs) m
     = (None, m\<lparr>counters := put_pairs kvs (counters m)\<rparr>)"
  using assms
proof (induction kvs arbitrary: m)
  case (Cons kv kvs)
  obtain k v where kv: "kv = (k, v)" by (cases kv)
  let ?m = "m\<lparr>counters := (counters m)(k \<mapsto> v)\<rparr>"
  have "mem_UpdateCounter k v m = ?m"
    using Cons.prems(2) kv by (simp add: mem_UpdateCounter_def map_index_def)
  moreover have "\<forall>k' \<in> fst ` set kvs. counters ?m k' = None"
    using Cons.prems kv by auto
  ultimately show ?case
    using Cons.IH [of ?m] Cons.prems(1) kv by (simp add: mem_batch_counter fun_upd_def del: mem_BatchUpdate.simps(2))
qed simp

text \<open>The snapshot the agent sends, whatever the order of the map iteration, consists of known types
  only and rebuilds exactly the agent's two maps when it is applied to an empty server.\<close>
lemma snapshot_rebuilds_maps:
  assumes "visits (c_gauge c) gs" and "visits (c_counter c) cs"
  shows "mem_BatchUpdate (GetAllMetrics gs cs c) NewMemStorage
    = (None, \<lparr>gauges = c_gauge c, counters = c_counter c\<rparr>)"
proof -
  have "map fst (range_pairs (c_counter c) cs) = cs"
    using assms(2) by (intro fst_range_pairs) (simp add: visits_def)
  then have "distinct (map fst (range_pairs (c_counter c) cs))" using assms(2) by (simp add: visits_def)
  then show ?thesis
    by (simp add: GetAllMetrics_def batch_gauge_pairs batch_counter_pairs put_range_pairs_copy assms
        NewMemStorage_def)
qed

lemma snapshot_rebuilds_maps_witness:
  "mem_BatchUpdate (GetAllMetrics [''FreeMemory'', ''TotalMemory''] []
      (UpdateGopsutilMetrics (\<lambda>w. Float64 w) (Inr (8, 4)) (Inl (ErrOther ''cpu'')) (NewCollector 100 ''http://srv'')))
    NewMemStorage
   = (None, \<lparr>gauges = [''TotalMemory'' \<mapsto> Float64 8, ''FreeMemory'' \<mapsto> Float64 4], counters = Map.empty\<rparr>)"
  using snapshot_rebuilds_maps [of "UpdateGopsutilMetrics (\<lambda>w. Float64 w) (Inr (8, 4)) (Inl (ErrOther ''cpu''))
      (NewCollector 100 ''http://srv'')" "[''FreeMemory'', ''TotalMemory'']" "[]"]
  by (simp add: UpdateGopsutilMetrics_eq NewCollector_def visits_def Let_def insert_commute)

text \<open>Rounds of one collection and one report; a server of its own, the report as one batch.\<close>

fun poll_and_report ::
    "(64 word \<Rightarrow> float64) \<Rightarrow> (readings \<times> string list) list \<Rightarrow> collector \<times> mem_store \<Rightarrow> collector \<times> mem_store" where
  "poll_and_report to_float [] (c, m) = (c, m)"
| "poll_and_report to_float ((rd, gs) # rounds) (c, m) =
     (let c1 = UpdateMetrics to_float rd c in
      poll_and_report to_float rounds (c1, snd (mem_BatchUpdate (GetAllMetrics gs [''PollCount''] c1) m)))"

lemma deltas_of_gauges [simp]: "deltas_of n (map (\<lambda>(name, value). gauge_metric name value) kvs) = []"
  by (induction kvs) auto

lemma deltas_of_append [simp]: "deltas_of n (xs @ ys) = deltas_of n xs @ deltas_of n ys"
  by (induction xs) (auto split: option.splits)

lemma report_pollcount:
  assumes "c_counter c = [''PollCount'' \<mapsto> k]"
  shows "map_index (counters (snd (mem_BatchUpdate (GetAllMetrics gs [''PollCount''] c) m))) ''PollCount''
    = map_index (counters m) ''PollCount'' + k"
proof -
  have "list_all known_type (GetAllMetrics gs [''PollCount''] c)"
    using assms by (auto simp: GetAllMetrics_def list_all_iff)
  moreover have "deltas_of ''PollCount'' (GetAllMetrics gs [''PollCount''] c) = [k]"
    using assms by (simp add: GetAllMetrics_def)
  ultimately show ?thesis by (simp add: mem_batch_known fold_apply_counter)
qed

lemma poll_rounds:
  assumes "c_counter c = [''PollCount'' \<mapsto> of_nat k]"
  shows "map_index (counters (snd (poll_and_report to_float rounds (c, m)))) ''PollCount''
    = map_index (counters m) ''PollCount'' + of_nat (\<Sum>i<length rounds. Suc k + i)"
  using assms
proof (induction rounds arbitrary: c k m)
  case (Cons r rounds)
  obtain rd gs where r: "r = (rd, gs)" by (cases r)
  let ?c = "UpdateMetrics to_float rd c"
  have c: "c_counter ?c = [''PollCount'' \<mapsto> of_nat (Suc k)]"
    using Cons.prems by (auto simp: UpdateMetrics_def map_index_def fun_eq_iff)
  show ?case
    using Cons.IH [OF c] report_pollcount [OF c]
    by (simp add: r Let_def sum.lessThan_Suc_shift del: sum.lessThan_Suc)
qed simp

text \<open>The agent never resets PollCount after a report and the server adds what it receives: after n
  rounds of one collection and one report each, n collections have taken place but the server's PollCount
  is n (n + 1) / 2.\<close>
lemma poll_count_overcounted:
  "map_index (counters (snd (poll_and_report to_float rounds (NewCollector bsz url, NewMemStorage)))) ''PollCount''
    = of_nat (length rounds * (length rounds + 1) div 2)"
proof (cases rounds)
  case (Cons r rounds')
  obtain rd gs where r: "r = (rd, gs)" by (cases r)
  let ?c = "UpdateMetrics to_float rd (NewCollector bsz url)"
  have c: "c_counter ?c = [''PollCount'' \<mapsto> of_nat 1]"
    by (simp add: UpdateMetrics_def NewCollector_def map_index_def)
  have "(\<Sum>i<length rounds'. Suc 1 + i) + 1 = (\<Sum>i<length rounds. Suc i)"
    using Cons by (simp add: sum.lessThan_Suc_shift del: sum.lessThan_Suc)
  also have "\<dots> = \<Sum>{0..length rounds}"
  proof -
    have "(\<Sum>i<n. Suc i) = \<Sum>{0..n}" for n :: nat by (induction n) (simp_all add: sum.atLeast0_atMost_Suc)
    then show ?thesis .
  qed
  finally have total: "1 + (\<Sum>i<length rounds'. Suc 1 + i) = length rounds * (length rounds + 1) div 2"
    by (simp add: gauss_sum_nat)
  let ?m = "snd (mem_BatchUpdate (GetAllMetrics gs [''PollCount''] ?c) NewMemStorage)"
  have "map_index (counters ?m) ''PollCount'' = of_nat 1"
    using report_pollcount [OF c, of gs NewMemStorage] by (simp add: map_index_def)
  with poll_rounds [OF c, of to_float rounds' ?m]
  have "map_index (counters (snd (poll_and_report to_float rounds (NewCollector bsz url, NewMemStorage)))) ''PollCount''
      = of_nat 1 + of_nat (\<Sum>i<length rounds'. Suc 1 + i)"
    by (simp only: Cons r poll_and_report.simps Let_def)
  then show ?thesis by (simp only: total flip: of_nat_add)
qed (simp add: map_index_def)

section \<open>The buffered path\<close>

text \<open>What the back-off library documents: an operation that succeeds at once is run once.\<close>

definition retry_stops :: "(('n \<Rightarrow> go_error option \<times> 'n) \<Rightarrow> 'n \<Rightarrow> go_error option \<times> 'n) \<Rightarrow> bool" where
  "retry_stops retry \<longleftrightarrow> (\<forall>f n n'. f n = (None, n') \<longrightarrow> retry f n = (None, n'))"

lemma trySendBatch_accepts:
  assumes "marshal_list (ae_float env) ms = Some data" "ae_newreq env (c_endpoint c @ ''/updates'') = None"
    and "ae_do env (batch_request env c data) n = (Inr code, n')" "code < 500"
  shows "trySendBatch env c ms n = (None, n')"
  using assms by (simp add: trySendBatch_def)

text \<open>After the server has accepted the buffer with 200, \<open>sendBatch\<close> posts a second time, an empty
  array: the network has seen both requests when it returns.\<close>
lemma flush_posts_empty_batch:
  assumes "retry_stops retry" and "c_buffer c \<noteq> []" and "marshal_list (ae_float env) (c_buffer c) = Some data"
    and "ae_newreq env (c_endpoint c @ ''/updates'') = None"
    and "ae_do env (batch_request env c data) n = (Inr 200, n1)"
    and "ae_do env (batch_request env c ''[]'') n1 = (Inr code, n2)" and "code < 500"
  shows "sendBatch retry env c n = (c\<lparr>c_buffer := []\<rparr>, n2)"
proof -
  have same: "batch_request env (c\<lparr>c_buffer := []\<rparr>) x = batch_request env c x" for x
    by (simp add: batch_request_def)
  have "trySendBatch env (c\<lparr>c_buffer := []\<rparr>) [] n1 = (None, n2)"
    using assms(4,6,7) by (intro trySendBatch_accepts [of _ _ "''[]''"]) (simp_all add: same)
  then have "retry (trySendBatch env (c\<lparr>c_buffer := []\<rparr>) []) n1 = (None, n2)"
    using assms(1) by (simp add: retry_stops_def)
  with assms(2-5) show ?thesis by (simp add: sendBatch_def Let_def)
qed

text \<open>A server that answers 4xx both times has stored nothing, and the buffer is emptied all the same:
  the metrics are lost.\<close>
lemma rejected_batch_discarded:
  assumes "retry_stops retry" and "marshal_list (ae_float env) (c_buffer c) = Some data"
    and "ae_newreq env (c_endpoint c @ ''/updates'') = None"
    and "ae_do env (batch_request env c data) n = (Inr code1, n1)" and "code1 \<noteq> 200"
    and "ae_do env (batch_request env c data) n1 = (Inr code2, n2)" and "code2 < 500" and "c_buffer c \<noteq> []"
  shows "sendBatch retry env c n = (c\<lparr>c_buffer := []\<rparr>, n2)"
proof -
  have "trySendBatch env c (c_buffer c) n1 = (None, n2)"
    using assms by (intro trySendBatch_accepts) simp_all
  then have "retry (trySendBatch env c (c_buffer c)) n1 = (None, n2)"
    using assms(1) by (simp add: retry_stops_def)
  with assms(2-5,8) show ?thesis by (simp add: sendBatch_def Let_def)
qed

text \<open>A network that answers from a list of status codes and records the requests.\<close>

definition recording_env :: "(out_request list \<times> nat list, unit, unit) agent_env" where
  "recording_env = \<lparr>ae_float = bits_text, ae_mac = (\<lambda>k b. k @ b), ae_gzip = \<lparr>gz_reader = Inr, gz_writer = concat\<rparr>,
     ae_suite = plain_suite, ae_entropy = Pair fixed_entropy, ae_newreq = (\<lambda>_. None),
     ae_do = (\<lambda>o' (log, codes). case codes of [] \<Rightarrow> (Inl (ErrNet True), (log @ [o'], []))
                | code # rest \<Rightarrow> (Inr code, (log @ [o'], rest))),
     ae_wait = no_wait\<rparr>"

lemma recording_env_sel [simp]:
  "ae_do recording_env o' (log, code # rest) = (Inr code, (log @ [o'], rest))"
  "ae_newreq recording_env u = None" "ae_float recording_env = bits_text"
  by (simp_all add: recording_env_def)

definition full_collector :: collector where
  "full_collector = (NewCollector 1 ''http://srv'')\<lparr>c_buffer := [counter_metric ''c'' 2]\<rparr>"

lemma full_marshal: "\<exists>data. marshal_list bits_text (c_buffer full_collector) = Some data"
  using marshal_list_roundtrip [OF bits_text_ok, of "[counter_metric ''c'' 2]"]
  by (auto simp: full_collector_def wire_ok_def valid_utf8_ascii byte_in_def)

lemma flush_posts_empty_batch_witness:
  "\<exists>data. sendBatch (\<lambda>f. f) recording_env full_collector ([], [200, 400])
     = (full_collector\<lparr>c_buffer := []\<rparr>,
        ([batch_request recording_env full_collector data, batch_request recording_env full_collector ''[]''], []))"
proof -
  obtain data where d: "marshal_list bits_text (c_buffer full_collector) = Some data" using full_marshal by blast
  show ?thesis
    by (rule exI [of _ data], rule flush_posts_empty_batch [where code = 400
        and ?n1.0 = "([batch_request recording_env full_collector data], [400])"])
      (use d in \<open>simp_all add: retry_stops_def full_collector_def\<close>)
qed

lemma rejected_batch_discarded_witness:
  "\<exists>log. sendBatch (\<lambda>f. f) recording_env full_collector ([], [400, 400]) = (full_collector\<lparr>c_buffer := []\<rparr>, (log, []))"
proof -
  obtain data where d: "marshal_list bits_text (c_buffer full_collector) = Some data" using full_marshal by blast
  show ?thesis
    by (rule exI, rule rejected_batch_discarded [where ?code1.0 = 400 and ?code2.0 = 400
        and ?n1.0 = "([batch_request recording_env full_collector data], [400])"])
      (use d in \<open>simp_all add: retry_stops_def full_collector_def\<close>)
qed

end
