(* ===== verification/Postgres.thy ===== *)
theory Postgres
  imports Storage_Contract Retry Json_String
begin

text \<open>
  \<open>internal/storage/postgresql.go\<close> over the two tables of \<open>migrations/001_init.up.sql\<close>. A
  statement that reaches the server has the meaning SQL gives it; whether it does, and whether
  its reply comes back, is the environment's choice: \<open>script\<close> lists what happens to the next
  round trips (an exhausted list means that nothing goes wrong any more), \<open>waits\<close> whether the
  context ends during the next pauses of a retry.
\<close>

section \<open>The database\<close>

datatype trip =
    Fine
  | Fault go_error
  | Lost go_error

record tables =
  t_gauges :: "string \<rightharpoonup> float64"
  t_counters :: "string \<rightharpoonup> int"

record pg_state =
  tables :: tables
  script :: "trip list"
  waits :: "bool list"

text \<open>
  \<open>name VARCHAR(255)\<close>: at most 255 characters of valid UTF-8 without a zero byte.
\<close>

definition varchar_length :: "string \<Rightarrow> nat" where
  "varchar_length s = length (filter (\<lambda>c. \<not> byte_in 0x80 0xBF c) s)"

definition name_storable :: "string \<Rightarrow> bool" where
  "name_storable n \<longleftrightarrow> valid_utf8 n \<and> CHR 0x00 \<notin> set n \<and> varchar_length n \<le> 255"

text \<open>
  The two upserts. \<open>counters.value + EXCLUDED.value\<close> is BIGINT arithmetic, which fails with
  SQLSTATE 22003 where Go's \<open>int64\<close> wraps around.
\<close>

definition upsert_gauge :: "string \<Rightarrow> float64 \<Rightarrow> tables \<Rightarrow> go_error + tables" where
  "upsert_gauge n v t =
     (if \<not> name_storable n then Inl (ErrPg ''22001'')
      else Inr (t\<lparr>t_gauges := (t_gauges t)(n \<mapsto> v)\<rparr>))"

definition upsert_counter :: "string \<Rightarrow> int64 \<Rightarrow> tables \<Rightarrow> go_error + tables" where
  "upsert_counter n d t =
     (if \<not> name_storable n then Inl (ErrPg ''22001'')
      else (case t_counters t n of
              None \<Rightarrow> Inr (t\<lparr>t_counters := (t_counters t)(n \<mapsto> sint d)\<rparr>)
            | Some old \<Rightarrow>
                if int64_range (old + sint d)
                then Inr (t\<lparr>t_counters := (t_counters t)(n \<mapsto> old + sint d)\<rparr>)
                else Inl (ErrPg ''22003'')))"

definition next_trip :: "pg_state \<Rightarrow> trip \<times> pg_state" where
  "next_trip s = (case script s of [] \<Rightarrow> (Fine, s) | t # ts \<Rightarrow> (t, s\<lparr>script := ts\<rparr>))"

text \<open>One statement in a transaction of its own (\<open>pool.Exec\<close>): a lost reply means it was applied.\<close>

definition pg_exec :: "(tables \<Rightarrow> go_error + tables) \<Rightarrow> pg_state \<Rightarrow> go_error option \<times> pg_state" where
  "pg_exec stmt s =
     (case next_trip s of
        (Fault e, s1) \<Rightarrow> (Some e, s1)
      | (Fine, s1) \<Rightarrow>
          (case stmt (tables s1) of Inl e \<Rightarrow> (Some e, s1) | Inr t \<Rightarrow> (None, s1\<lparr>tables := t\<rparr>))
      | (Lost e, s1) \<Rightarrow>
          (case stmt (tables s1) of Inl _ \<Rightarrow> (Some e, s1) | Inr t \<Rightarrow> (Some e, s1\<lparr>tables := t\<rparr>)))"

text \<open>\<open>context.Background()\<close> never ends; a request's context may.\<close>

definition wait_background :: "nat \<Rightarrow> pg_state \<Rightarrow> go_error option \<times> pg_state" where
  "wait_background d s = (None, s)"

definition wait_request :: "nat \<Rightarrow> pg_state \<Rightarrow> go_error option \<times> pg_state" where
  "wait_request d s =
     (case waits s of
        [] \<Rightarrow> (None, s)
      | w # ws \<Rightarrow> (if w then Some ErrCtx else None, s\<lparr>waits := ws\<rparr>))"

section \<open>The operations\<close>

text \<open>\<open>UpdateGauge\<close> and \<open>UpdateCounter\<close> log the error of the retry loop and drop it.\<close>

definition pg_UpdateGauge :: "string \<Rightarrow> float64 \<Rightarrow> pg_state \<Rightarrow> pg_state" where
  "pg_UpdateGauge name value s = snd (withRetry wait_background (pg_exec (upsert_gauge name value)) s)"

definition pg_UpdateCounter :: "string \<Rightarrow> int64 \<Rightarrow> pg_state \<Rightarrow> pg_state" where
  "pg_UpdateCounter name value s = snd (withRetry wait_background (pg_exec (upsert_counter name value)) s)"

text \<open>\<open>QueryRow(...).Scan\<close>: any error at all, a missing row included, becomes \<open>ErrMetricNotFound\<close>.\<close>

definition pg_query :: "(tables \<Rightarrow> 'v option) \<Rightarrow> pg_state \<Rightarrow> 'v option \<times> pg_state" where
  "pg_query q s =
     (case next_trip s of (Fine, s1) \<Rightarrow> (q (tables s1), s1) | (_, s1) \<Rightarrow> (None, s1))"

definition pg_GetGauge :: "string \<Rightarrow> pg_state \<Rightarrow> (float64 \<times> go_error option) \<times> pg_state" where
  "pg_GetGauge name s =
     (case pg_query (\<lambda>t. t_gauges t name) s of
        (None, s1) \<Rightarrow> ((0, Some ErrMetricNotFound), s1)
      | (Some value, s1) \<Rightarrow> ((value, None), s1))"

definition pg_GetCounter :: "string \<Rightarrow> pg_state \<Rightarrow> (int64 \<times> go_error option) \<times> pg_state" where
  "pg_GetCounter name s =
     (case pg_query (\<lambda>t. t_counters t name) s of
        (None, s1) \<Rightarrow> ((0, Some ErrMetricNotFound), s1)
      | (Some value, s1) \<Rightarrow> ((word_of_int value, None), s1))"

text \<open>
  The row loop of \<open>GetAllMetrics\<close>: each \<open>rows.Next\<close> is a round trip that may end the iteration
  (\<open>Fault\<close>, reported by \<open>rows.Err\<close>) or deliver a row that does not scan (\<open>Lost\<close>, skipped).
\<close>

fun scan_rows :: "('k \<times> 'v) list \<Rightarrow> ('k \<rightharpoonup> 'v) \<Rightarrow> pg_state \<Rightarrow> ('k \<rightharpoonup> 'v) \<times> pg_state" where
  "scan_rows [] acc s = (acc, s)"
| "scan_rows ((k, v) # rows) acc s =
     (case next_trip s of
        (Fine, s1) \<Rightarrow> scan_rows rows (acc(k \<mapsto> v)) s1
      | (Lost _, s1) \<Rightarrow> scan_rows rows acc s1
      | (Fault _, s1) \<Rightarrow> (acc, s1))"

definition pg_select :: "(tables \<Rightarrow> 'k \<rightharpoonup> 'v) \<Rightarrow> 'k list \<Rightarrow> pg_state \<Rightarrow> ('k \<rightharpoonup> 'v) \<times> pg_state" where
  "pg_select col order s =
     (case next_trip s of
        (Fine, s1) \<Rightarrow> scan_rows (range_pairs (col (tables s1)) order) Map.empty s1
      | (_, s1) \<Rightarrow> (Map.empty, s1))"

definition pg_GetAllMetrics :: "string list \<Rightarrow> string list \<Rightarrow> pg_state \<Rightarrow>
    ((string \<rightharpoonup> float64) \<times> (string \<rightharpoonup> int64)) \<times> pg_state" where
  "pg_GetAllMetrics gs cs s =
     (case pg_select t_gauges gs s of (g, s1) \<Rightarrow>
        (case pg_select (\<lambda>t. map_option word_of_int \<circ> t_counters t) cs s1 of (c, s2) \<Rightarrow>
           ((g, c), s2)))"

text \<open>
  \<open>batchUpdateTx\<close>: the statements run on the transaction's own view; an error or an unknown type
  returns with the deferred rollback, so the view is dropped; the commit publishes it.
\<close>

fun tx_loop :: "metrics list \<Rightarrow> tables \<Rightarrow> pg_state \<Rightarrow> (go_error + tables) \<times> pg_state" where
  "tx_loop [] t s = (Inr t, s)"
| "tx_loop (m # ms) t s =
     (if MType m = TypeCounter then
        (case Delta m of
           None \<Rightarrow> tx_loop ms t s
         | Some d \<Rightarrow>
             (case next_trip s of
                (Fine, s1) \<Rightarrow>
                  (case upsert_counter (ID m) d t of
                     Inl e \<Rightarrow> (Inl (ErrWrap ''counter update'' e), s1)
                   | Inr t' \<Rightarrow> tx_loop ms t' s1)
              | (Fault e, s1) \<Rightarrow> (Inl (ErrWrap ''counter update'' e), s1)
              | (Lost e, s1) \<Rightarrow> (Inl (ErrWrap ''counter update'' e), s1)))
      else if MType m = TypeGauge then
        (case Value m of
           None \<Rightarrow> tx_loop ms t s
         | Some v \<Rightarrow>
             (case next_trip s of
                (Fine, s1) \<Rightarrow>
                  (case upsert_gauge (ID m) v t of
                     Inl e \<Rightarrow> (Inl (ErrWrap ''gauge update'' e), s1)
                   | Inr t' \<Rightarrow> tx_loop ms t' s1)
              | (Fault e, s1) \<Rightarrow> (Inl (ErrWrap ''gauge update'' e), s1)
              | (Lost e, s1) \<Rightarrow> (Inl (ErrWrap ''gauge update'' e), s1)))
      else (Inl (ErrUnknownType (MType m)), s))"

definition batchUpdateTx :: "metrics list \<Rightarrow> pg_state \<Rightarrow> go_error option \<times> pg_state" where
  "batchUpdateTx ms s =
     (case next_trip s of
        (Fine, s1) \<Rightarrow>
          (case tx_loop ms (tables s1) s1 of
             (Inl e, s2) \<Rightarrow> (Some e, s2)
           | (Inr t, s2) \<Rightarrow>
               (case next_trip s2 of
                  (Fine, s3) \<Rightarrow> (None, s3\<lparr>tables := t\<rparr>)
                | (Fault e, s3) \<Rightarrow> (Some e, s3)
                | (Lost e, s3) \<Rightarrow> (Some e, s3\<lparr>tables := t\<rparr>)))
      | (Fault e, s1) \<Rightarrow> (Some e, s1)
      | (Lost e, s1) \<Rightarrow> (Some e, s1))"

definition pg_BatchUpdate :: "metrics list \<Rightarrow> pg_state \<Rightarrow> go_error option \<times> pg_state" where
  "pg_BatchUpdate ms s =
     (case withRetry wait_request (batchUpdateTx ms) s of
        (None, s1) \<Rightarrow> (None, s1)
      | (Some err, s1) \<Rightarrow> (Some (ErrWrap ''batch update'' err), s1))"

definition pg_Ping :: "pg_state \<Rightarrow> go_error option \<times> pg_state" where
  "pg_Ping s =
     (case next_trip s of
        (Fine, s1) \<Rightarrow> (None, s1) | (Fault e, s1) \<Rightarrow> (Some e, s1) | (Lost e, s1) \<Rightarrow> (Some e, s1))"

definition pg_Close :: "pg_state \<Rightarrow> go_error option \<times> pg_state" where
  "pg_Close s = (None, s)"

definition pg_ops :: "pg_state storage_ops" where
  "pg_ops = \<lparr>op_UpdateGauge = pg_UpdateGauge, op_UpdateCounter = pg_UpdateCounter,
     op_BatchUpdate = pg_BatchUpdate, op_GetGauge = pg_GetGauge, op_GetCounter = pg_GetCounter,
     op_GetAllMetrics = pg_GetAllMetrics, op_Ping = pg_Ping, op_Close = pg_Close\<rparr>"

lemma pg_ops_sel [simp]:
  "op_UpdateGauge pg_ops = pg_UpdateGauge" "op_UpdateCounter pg_ops = pg_UpdateCounter"
  "op_BatchUpdate pg_ops = pg_BatchUpdate" "op_GetGauge pg_ops = pg_GetGauge"
  "op_GetCounter pg_ops = pg_GetCounter" "op_GetAllMetrics pg_ops = pg_GetAllMetrics"
  "op_Ping pg_ops = pg_Ping" "op_Close pg_ops = pg_Close"
  by (simp_all add: pg_ops_def)

section \<open>Connecting\<close>

text \<open>
  \<open>NewPostgresStorage\<close> as a sequence of three steps that may fail; the second component counts
  the connection pools left open. \<open>migrate_dsn\<close> is the loop over the two URL schemes in
  \<open>runMigrations\<close>.
\<close>

fun rewrite_scheme :: "string list \<Rightarrow> string \<Rightarrow> string" where
  "rewrite_scheme [] dsn = dsn"
| "rewrite_scheme (p # ps) dsn =
     (if has_prefix dsn p then ''pgx5://'' @ drop (length p) dsn else rewrite_scheme ps dsn)"

definition migrate_dsn :: "string \<Rightarrow> string" where
  "migrate_dsn dsn = rewrite_scheme [''postgres://'', ''postgresql://''] dsn"

datatype migrate_result = Migrated | NoChange | MigrateFailed go_error

definition runMigrations ::
    "go_error option \<Rightarrow> (string \<Rightarrow> go_error option) \<Rightarrow> migrate_result \<Rightarrow> string \<Rightarrow> go_error option" where
  "runMigrations src open_db up dsn =
     (case src of
        Some e \<Rightarrow> Some (ErrWrap ''create iofs source'' e)
      | None \<Rightarrow>
          (case open_db (migrate_dsn dsn) of
             Some e \<Rightarrow> Some (ErrWrap ''create migrate instance'' e)
           | None \<Rightarrow>
               (case up of
                  MigrateFailed e \<Rightarrow> Some (ErrWrap ''apply migrations'' e)
                | _ \<Rightarrow> None)))"

definition close_pool :: "nat \<Rightarrow> nat" where
  "close_pool n = n - 1"

definition NewPostgresStorage ::
    "go_error option \<Rightarrow> go_error option \<Rightarrow> go_error option \<Rightarrow> go_error option \<times> nat" where
  "NewPostgresStorage pool ping migrations =
     (case pool of
        Some e \<Rightarrow> (Some (ErrWrap ''create connection pool'' e), 0)
      | None \<Rightarrow>
          (case ping of
             Some e \<Rightarrow> (Some (ErrWrap ''ping database'' e), close_pool 1)
           | None \<Rightarrow>
               (case migrations of
                  Some e \<Rightarrow> (Some (ErrWrap ''run migrations'' e), close_pool 1)
                | None \<Rightarrow> (None, 1))))"

end
