(* ===== verification/Postgres_Facts.thy ===== *)
theory Postgres_Facts
  imports Postgres
begin

text \<open>
  The PostgreSQL backend keeps the storage contract, atomic batches included, as long as no
  round trip fails; under arbitrary failures a batch stays all-or-nothing unless a reply is lost,
  a gauge write is idempotent, and a counter write is applied up to four times, because the
  retry loop repeats an increment whose reply was lost.
\<close>

section \<open>Without failures: the contract\<close>

definition pg_abs :: "pg_state \<Rightarrow> metric_db" where
  "pg_abs s = \<lparr>db_gauges = t_gauges (tables s), db_counters = t_counters (tables s)\<rparr>"

definition pg_ready :: "pg_state \<Rightarrow> bool" where
  "pg_ready s \<longleftrightarrow> script s = []"

lemma pg_abs_sel [simp]:
  "db_gauges (pg_abs s) = t_gauges (tables s)" "db_counters (pg_abs s) = t_counters (tables s)"
  by (simp_all add: pg_abs_def)

lemma next_trip_ready: "script s = [] \<Longrightarrow> next_trip s = (Fine, s)"
  by (simp add: next_trip_def)

lemma pg_errors_final [simp]:
  "\<not> isRetriableDBError (ErrPg ''22001'')" "\<not> isRetriableDBError (ErrPg ''22003'')"
  "\<not> isRetriableDBError (ErrUnknownType ty)"
  "isRetriableDBError (ErrWrap m e) = isRetriableDBError e"
  by (simp_all add: isRetriableDBError_def)

lemma withRetry_None: "fn s = (None, s') \<Longrightarrow> withRetry wait fn s = (None, s')"
  by (simp add: withRetry_range retryDelays_def)

lemma withRetry_final: "fn s = (Some e, s') \<Longrightarrow> \<not> isRetriableDBError e \<Longrightarrow> withRetry wait fn s = (Some e, s')"
  by (simp add: withRetry_range retryDelays_def)

lemma upsert_counter_safe:
  assumes "name_storable n" "int64_range (map_index (t_counters t) n + sint d)"
  shows "upsert_counter n d t
    = Inr (t\<lparr>t_counters := (t_counters t)(n \<mapsto> map_index (t_counters t) n + sint d)\<rparr>)"
  using assms by (cases "t_counters t n") (simp_all add: upsert_counter_def map_index_def)

lemma pg_update_gauge_ready:
  assumes "pg_ready s" "name_storable n"
  shows "pg_abs (pg_UpdateGauge n v s) = db_set n v (pg_abs s) \<and> pg_ready (pg_UpdateGauge n v s)"
proof -
  have "pg_exec (upsert_gauge n v) s
      = (None, s\<lparr>tables := (tables s)\<lparr>t_gauges := (t_gauges (tables s))(n \<mapsto> v)\<rparr>\<rparr>)"
    using assms by (simp add: pg_exec_def pg_ready_def next_trip_ready upsert_gauge_def)
  then show ?thesis
    using assms by (simp add: pg_UpdateGauge_def withRetry_None pg_abs_def db_set_def pg_ready_def)
qed

lemma pg_update_counter_ready:
  assumes "pg_ready s" "name_storable n" "add_safe n k (pg_abs s)"
  shows "pg_abs (pg_UpdateCounter n k s) = db_add n (sint k) (pg_abs s) \<and> pg_ready (pg_UpdateCounter n k s)"
proof -
  have r: "int64_range (map_index (t_counters (tables s)) n + sint k)"
    using assms(3) by (simp add: add_safe_def db_count_def)
  have "pg_exec (upsert_counter n k) s
      = (None, s\<lparr>tables := (tables s)\<lparr>t_counters :=
          (t_counters (tables s))(n \<mapsto> map_index (t_counters (tables s)) n + sint k)\<rparr>\<rparr>)"
    using assms(1) upsert_counter_safe [OF assms(2) r]
    by (simp add: pg_exec_def pg_ready_def next_trip_ready)
  then show ?thesis
    using assms(1)
    by (simp add: pg_UpdateCounter_def withRetry_None pg_abs_def db_add_def db_count_def pg_ready_def)
qed

text \<open>The tables as an abstract database, for the transaction's view.\<close>

definition tables_db :: "tables \<Rightarrow> metric_db" where
  "tables_db t = \<lparr>db_gauges = t_gauges t, db_counters = t_counters t\<rparr>"

lemma tables_db_pg_abs: "pg_abs s = tables_db (tables s)"
  by (simp add: pg_abs_def tables_db_def)

lemma tx_loop_ready:
  assumes "script s = []" "list_all known_type ms" "list_all (name_storable \<circ> ID) ms"
    and "batch_safe ms (tables_db t)"
  shows "\<exists>t'. tx_loop ms t s = (Inr t', s) \<and> tables_db t' = fold db_apply ms (tables_db t)"
  using assms(2-4)
proof (induction ms arbitrary: t)
  case (Cons m ms)
  consider (counter) d where "MType m = TypeCounter" "Delta m = Some d"
    | (gauge) v where "MType m = TypeGauge" "Value m = Some v"
    | (skip) "MType m = TypeCounter \<and> Delta m = None \<or> MType m = TypeGauge \<and> Value m = None"
    using Cons.prems(1) by (fastforce simp: known_type_def)
  then show ?case
  proof cases
    case counter
    let ?t = "t\<lparr>t_counters := (t_counters t)(ID m \<mapsto> map_index (t_counters t) (ID m) + sint d)\<rparr>"
    have "int64_range (map_index (t_counters t) (ID m) + sint d)"
      using Cons.prems(3) counter by (simp add: metric_safe_def add_safe_def db_count_def tables_db_def)
    then have u: "upsert_counter (ID m) d t = Inr ?t"
      using upsert_counter_safe Cons.prems(2) by simp
    have "tables_db ?t = db_apply m (tables_db t)"
      using counter by (simp add: db_apply_def db_add_def db_count_def tables_db_def)
    with Cons.IH [of ?t] Cons.prems counter u show ?thesis
      by (simp add: next_trip_ready [OF assms(1)])
  next
    case gauge
    let ?t = "t\<lparr>t_gauges := (t_gauges t)(ID m \<mapsto> v)\<rparr>"
    have "tables_db ?t = db_apply m (tables_db t)"
      using gauge by (simp add: db_apply_def db_set_def tables_db_def)
    moreover have "upsert_gauge (ID m) v t = Inr ?t"
      using Cons.prems(2) by (simp add: upsert_gauge_def)
    ultimately show ?thesis
      using Cons.IH [of ?t] Cons.prems gauge by (simp add: next_trip_ready [OF assms(1)])
  next
    case skip
    with Cons show ?thesis by (auto simp: db_apply_def)
  qed
qed simp

lemma tx_loop_known: "tx_loop ms t s = (Inr t', s') \<Longrightarrow> list_all known_type ms"
  by (induction ms arbitrary: t s)
    (auto simp: known_type_def split: if_splits option.splits prod.splits trip.splits sum.splits)

lemma batchUpdateTx_known: "batchUpdateTx ms s = (None, s') \<Longrightarrow> list_all known_type ms"
  by (auto simp: batchUpdateTx_def dest: tx_loop_known split: prod.splits trip.splits sum.splits)

lemma pg_batch_rejects: "\<not> list_all known_type ms \<Longrightarrow> fst (pg_BatchUpdate ms s) \<noteq> None"
  using withRetry_cases [of "\<lambda>_. True" "batchUpdateTx ms" wait_request s]
  by (auto simp: pg_BatchUpdate_def dest: batchUpdateTx_known split: prod.splits option.splits)

lemma tx_loop_ready_script: "script s = [] \<Longrightarrow> snd (tx_loop ms t s) = s"
  by (induction ms arbitrary: t)
    (auto simp: next_trip_ready split: option.splits sum.splits)

lemma scan_rows_ready: "script s = [] \<Longrightarrow> scan_rows rows acc s = (put_pairs rows acc, s)"
  by (induction rows arbitrary: acc) (auto simp: next_trip_ready)

lemma pg_select_ready:
  "script s = [] \<Longrightarrow> visits (col (tables s)) order \<Longrightarrow> pg_select col order s = (col (tables s), s)"
  by (simp add: pg_select_def next_trip_ready scan_rows_ready put_range_pairs_copy)

lemma pg_batch_ready:
  assumes "pg_ready s" "list_all known_type ms" "list_all (name_storable \<circ> ID) ms" "batch_safe ms (pg_abs s)"
  shows "\<exists>s'. pg_BatchUpdate ms s = (None, s') \<and> pg_abs s' = fold db_apply ms (pg_abs s) \<and> pg_ready s'"
proof -
  have s: "script s = []" using assms(1) by (simp add: pg_ready_def)
  obtain t where t: "tx_loop ms (tables s) s = (Inr t, s)" "tables_db t = fold db_apply ms (pg_abs s)"
    using tx_loop_ready [OF s assms(2,3)] assms(4) by (auto simp: tables_db_pg_abs)
  then have "batchUpdateTx ms s = (None, s\<lparr>tables := t\<rparr>)"
    by (simp add: batchUpdateTx_def next_trip_ready [OF s])
  then show ?thesis
    using t(2) s by (simp add: pg_BatchUpdate_def withRetry_None tables_db_pg_abs pg_ready_def)
qed

lemma wait_request_keeps:
  "wait_request d s = (e, s') \<Longrightarrow> script s' = script s \<and> tables s' = tables s"
  by (auto simp: wait_request_def split: list.splits)

text \<open>
  A failed batch in a state no reply of which can be lost: every attempt leaves the tables as
  they were.
\<close>

definition no_lost :: "pg_state \<Rightarrow> bool" where
  "no_lost s \<longleftrightarrow> list_all (\<lambda>t. case t of Lost _ \<Rightarrow> False | _ \<Rightarrow> True) (script s)"

lemma next_trip_no_lost:
  "no_lost s \<Longrightarrow> next_trip s = (t, s') \<Longrightarrow> no_lost s' \<and> tables s' = tables s \<and> (\<forall>e. t \<noteq> Lost e)"
  by (auto simp: no_lost_def next_trip_def split: list.splits trip.splits)

lemma tx_loop_no_lost:
  "no_lost s \<Longrightarrow> tx_loop ms t s = (r, s') \<Longrightarrow> no_lost s' \<and> tables s' = tables s"
proof (induction ms arbitrary: t s)
  case (Cons m ms)
  obtain tr s1 where tr: "next_trip s = (tr, s1)" by (cases "next_trip s")
  then have s1: "no_lost s1" "tables s1 = tables s"
    using next_trip_no_lost Cons.prems(1) by blast+
  have 1: "tx_loop ms t' s = (r, s') \<Longrightarrow> ?case" and 2: "tx_loop ms t' s1 = (r, s') \<Longrightarrow> ?case" for t'
    using Cons.IH [of s t'] Cons.IH [of s1 t'] Cons.prems(1) s1 by simp_all
  show ?case
    using Cons.prems s1
    by (simp add: tr split: if_splits option.splits trip.splits sum.splits) (auto dest: 1 2)
qed simp

lemma batchUpdateTx_no_lost:
  assumes "no_lost s" "batchUpdateTx ms s = (Some e, s')"
  shows "no_lost s' \<and> tables s' = tables s"
proof -
  obtain tr s1 where tr: "next_trip s = (tr, s1)" by (cases "next_trip s")
  note s1 = next_trip_no_lost [OF assms(1) tr]
  obtain r s2 where r: "tx_loop ms (tables s) s1 = (r, s2)" by (cases "tx_loop ms (tables s) s1")
  have s2: "no_lost s2" "tables s2 = tables s1" using tx_loop_no_lost [OF _ r] s1 by simp_all
  obtain tr' s3 where tr': "next_trip s2 = (tr', s3)" by (cases "next_trip s2")
  note s3 = next_trip_no_lost [OF s2(1) tr']
  show ?thesis
    using assms(2) s1 s2 s3
    by (auto simp: batchUpdateTx_def tr r tr' split: trip.splits sum.splits)
qed

lemma pg_batch_no_lost_cases:
  assumes "no_lost s" "pg_BatchUpdate ms s = (r, s')"
  shows "(r = None \<and> (\<exists>s1. no_lost s1 \<and> tables s1 = tables s \<and> batchUpdateTx ms s1 = (None, s')))
    \<or> (r \<noteq> None \<and> tables s' = tables s)"
proof -
  let ?I = "\<lambda>x. no_lost x \<and> tables x = tables s"
  obtain w where w: "withRetry wait_request (batchUpdateTx ms) s = (w, s')" "(r = None) = (w = None)"
    using assms(2) by (auto simp: pg_BatchUpdate_def split: prod.splits option.splits)
  have "(w = None \<and> (\<exists>s1. ?I s1 \<and> batchUpdateTx ms s1 = (None, s'))) \<or> (w \<noteq> None \<and> ?I s')"
  proof (rule withRetry_cases [where I = ?I, rotated 3])
    show "withRetry wait_request (batchUpdateTx ms) s = (w, s')" by (fact w(1))
    show "?I x \<Longrightarrow> batchUpdateTx ms x = (Some e, x') \<Longrightarrow> ?I x'" for x e x'
      using batchUpdateTx_no_lost by fastforce
    show "?I x \<Longrightarrow> wait_request d x = (e, x') \<Longrightarrow> ?I x'" for d x e x'
      using wait_request_keeps [of d x e x'] by (simp add: no_lost_def)
    show "?I s" using assms(1) by simp
  qed
  with w(2) show ?thesis by blast
qed

interpretation pg: atomic_storage pg_ops pg_abs pg_ready name_storable
proof unfold_locales
  fix s n v k ms gs cs e s'
  show "pg_ready s \<Longrightarrow> name_storable n \<Longrightarrow>
      pg_abs (op_UpdateGauge pg_ops n v s) = db_set n v (pg_abs s) \<and> pg_ready (op_UpdateGauge pg_ops n v s)"
    by (simp add: pg_update_gauge_ready)
  show "pg_ready s \<Longrightarrow> name_storable n \<Longrightarrow> add_safe n k (pg_abs s) \<Longrightarrow>
      pg_abs (op_UpdateCounter pg_ops n k s) = db_add n (sint k) (pg_abs s)
      \<and> pg_ready (op_UpdateCounter pg_ops n k s)"
    by (simp add: pg_update_counter_ready)
  show "pg_ready s \<Longrightarrow> list_all known_type ms \<Longrightarrow> list_all (name_storable \<circ> ID) ms \<Longrightarrow>
      batch_safe ms (pg_abs s) \<Longrightarrow>
      \<exists>s'. op_BatchUpdate pg_ops ms s = (None, s') \<and> pg_abs s' = fold db_apply ms (pg_abs s) \<and> pg_ready s'"
    by (simp add: pg_batch_ready)
  show "\<not> list_all known_type ms \<Longrightarrow> fst (op_BatchUpdate pg_ops ms s) \<noteq> None"
    by (simp add: pg_batch_rejects)
  show "pg_ready s \<Longrightarrow> op_GetGauge pg_ops n s = ((case db_gauges (pg_abs s) n of
      None \<Rightarrow> (0, Some ErrMetricNotFound) | Some v \<Rightarrow> (v, None)), s)"
    by (simp add: pg_GetGauge_def pg_query_def pg_ready_def next_trip_ready split: option.splits)
  show "pg_ready s \<Longrightarrow> op_GetCounter pg_ops n s = ((case db_counters (pg_abs s) n of
      None \<Rightarrow> (0, Some ErrMetricNotFound) | Some c \<Rightarrow> (word_of_int c, None)), s)"
    by (simp add: pg_GetCounter_def pg_query_def pg_ready_def next_trip_ready split: option.splits)
  show "pg_ready s \<Longrightarrow> visits (db_gauges (pg_abs s)) gs \<Longrightarrow> visits (db_counters (pg_abs s)) cs \<Longrightarrow>
      op_GetAllMetrics pg_ops gs cs s =
        ((db_gauges (pg_abs s), map_option word_of_int \<circ> db_counters (pg_abs s)), s)"
    by (simp add: pg_GetAllMetrics_def pg_ready_def pg_select_ready)
  show "pg_ready s \<Longrightarrow> op_BatchUpdate pg_ops ms s = (Some e, s') \<Longrightarrow> pg_abs s' = pg_abs s"
    using pg_batch_no_lost_cases [of s ms "Some e" s'] by (simp add: pg_ready_def no_lost_def tables_db_pg_abs)
qed

section \<open>Under failures\<close>

text \<open>The statements of a transaction that commits have the effect they would have without failures.\<close>

lemma tx_loop_fault_free:
  "tx_loop ms t s = (Inr t', s') \<Longrightarrow> script s0 = [] \<Longrightarrow> tx_loop ms t s0 = (Inr t', s0)"
proof (induction ms arbitrary: t s)
  case (Cons m ms)
  obtain tr s1 where tr: "next_trip s = (tr, s1)" by (cases "next_trip s")
  from Cons show ?case
    by (simp add: tr next_trip_ready split: if_splits option.splits trip.splits sum.splits)
qed simp

lemma batchUpdateTx_effect:
  assumes "no_lost s" "batchUpdateTx ms s = (None, s')"
    and "list_all (name_storable \<circ> ID) ms" "batch_safe ms (pg_abs s)"
  shows "pg_abs s' = fold db_apply ms (pg_abs s)"
proof -
  obtain tr s1 where tr: "next_trip s = (tr, s1)" by (cases "next_trip s")
  have s1: "tables s1 = tables s" using next_trip_no_lost [OF assms(1) tr] by simp
  obtain t s2 where t: "tx_loop ms (tables s) s1 = (Inr t, s2)" "tables s' = t"
    using assms(2) by (auto simp: batchUpdateTx_def tr s1 split: prod.splits trip.splits sum.splits)
  let ?s0 = "s\<lparr>script := []\<rparr>"
  have "tx_loop ms (tables s) ?s0 = (Inr t, ?s0)" by (rule tx_loop_fault_free [OF t(1)]) simp
  moreover obtain t' where "tx_loop ms (tables s) ?s0 = (Inr t', ?s0)"
    "tables_db t' = fold db_apply ms (tables_db (tables s))"
    using tx_loop_ready [of ?s0 ms "tables s"] tx_loop_known [OF t(1)] assms(3,4)
    by (auto simp: tables_db_pg_abs)
  ultimately show ?thesis using t(2) by (simp add: tables_db_pg_abs)
qed

text \<open>C8: Whatever round trips fail, and whether or not the context ends during a pause, as long as no
  reply is lost after the server has acted, a batch that returns without an error has been applied
  exactly once and a batch that returns an error has left the tables as they were (for names the columns can hold
  and sums that fit in 64 bits; others make the statement fail).\<close>
theorem pg_batch_exactly_once:
  assumes "no_lost s" and "list_all (name_storable \<circ> ID) ms" and "batch_safe ms (pg_abs s)"
    and "pg_BatchUpdate ms s = (r, s')"
  shows "pg_abs s' = (if r = None then fold db_apply ms (pg_abs s) else pg_abs s)"
  using pg_batch_no_lost_cases [OF assms(1,4)] batchUpdateTx_effect [OF _ _ assms(2)] assms(3)
  by (auto simp: tables_db_pg_abs)

definition no_tables :: tables where
  "no_tables = \<lparr>t_gauges = Map.empty, t_counters = Map.empty\<rparr>"

definition one_counter :: metrics where
  "one_counter = \<lparr>ID = ''c'', MType = TypeCounter, Delta = Some 2, Value = None, Hash = ''''\<rparr>"

lemma c_storable [simp]: "name_storable ''c''"
  by (simp add: name_storable_def valid_utf8_ascii byte_in_def varchar_length_def)

theorem pg_batch_exactly_once_witness:
  "\<exists>r s'. pg_BatchUpdate [one_counter]
      \<lparr>tables = no_tables, script = [Fault (ErrPg ''08006'')], waits = [False]\<rparr> = (r, s')
    \<and> pg_abs s' = (if r = None then \<lparr>db_gauges = Map.empty, db_counters = [''c'' \<mapsto> 2]\<rparr>
                   else \<lparr>db_gauges = Map.empty, db_counters = Map.empty\<rparr>)"
proof -
  let ?s = "\<lparr>tables = no_tables, script = [Fault (ErrPg ''08006'')], waits = [False]\<rparr>"
  obtain r s' where e: "pg_BatchUpdate [one_counter] ?s = (r, s')"
    by (cases "pg_BatchUpdate [one_counter] ?s")
  have "pg_abs s' = (if r = None then fold db_apply [one_counter] (pg_abs ?s) else pg_abs ?s)"
    using e
    by (intro pg_batch_exactly_once)
      (simp_all add: no_lost_def one_counter_def metric_safe_def add_safe_def db_count_def
        pg_abs_def no_tables_def int64_range_def)
  with e show ?thesis
    by (simp add: one_counter_def db_apply_def db_add_def db_count_def pg_abs_def no_tables_def)
qed

section \<open>Single writes under failures\<close>

lemma pg_exec_gauge_keeps:
  assumes "pg_abs s \<in> {d, db_set n v d}" "pg_exec (upsert_gauge n v) s = (e, s')"
  shows "pg_abs s' \<in> {d, db_set n v d}"
proof -
  obtain tr s1 where tr: "next_trip s = (tr, s1)" by (cases "next_trip s")
  have "tables s1 = tables s" using tr by (auto simp: next_trip_def split: list.splits)
  with assms(2) tr have "pg_abs s' \<in> {pg_abs s, db_set n v (pg_abs s)}"
    by (auto simp: pg_exec_def upsert_gauge_def pg_abs_def db_set_def split: trip.splits if_splits)
  moreover have "db_set n v (db_set n v d) = db_set n v d" by (simp add: db_set_def)
  ultimately show ?thesis using assms(1) by (metis insertE insertI1 insertI2 singletonD)
qed

lemma wait_background_keeps: "wait_background d s = (e, s') \<Longrightarrow> s' = s"
  by (simp add: wait_background_def)

text \<open>Whatever fails, a gauge write through the retry loop leaves the database either as it was
  or with exactly that gauge set: repeating it is harmless.\<close>
lemma pg_gauge_retry_idempotent:
  "pg_abs (pg_UpdateGauge n v s) \<in> {pg_abs s, db_set n v (pg_abs s)}"
proof -
  let ?I = "\<lambda>k x. pg_abs x \<in> {pg_abs s, db_set n v (pg_abs s)}"
  obtain r s' where r: "withRetry wait_background (pg_exec (upsert_gauge n v)) s = (r, s')"
    by (cases "withRetry wait_background (pg_exec (upsert_gauge n v)) s")
  have "\<exists>j \<le> 4. ?I (j::nat) s'"
    by (rule withRetry_steps [where I = ?I, rotated 3, OF r])
      (use pg_exec_gauge_keeps wait_background_keeps in blast)+
  then show ?thesis by (simp add: pg_UpdateGauge_def r)
qed

lemma pg_exec_counter_step:
  assumes "pg_abs s = (db_add n (sint v) ^^ k) d" "pg_exec (upsert_counter n v) s = (e, s')"
  shows "pg_abs s' \<in> {(db_add n (sint v) ^^ k) d, (db_add n (sint v) ^^ Suc k) d}"
proof -
  obtain tr s1 where tr: "next_trip s = (tr, s1)" by (cases "next_trip s")
  have "tables s1 = tables s" using tr by (auto simp: next_trip_def split: list.splits)
  with assms(2) tr have "pg_abs s' \<in> {pg_abs s, db_add n (sint v) (pg_abs s)}"
    by (auto simp: pg_exec_def upsert_counter_def pg_abs_def db_add_def db_count_def map_index_def
        split: trip.splits if_splits option.splits)
  with assms(1) show ?thesis by auto
qed

text \<open>Whatever fails, a counter write through the retry loop adds its delta a whole number of
  times, at most four.\<close>
lemma pg_counter_at_most_four:
  "\<exists>j \<le> 4. pg_abs (pg_UpdateCounter n v s) = (db_add n (sint v) ^^ j) (pg_abs s)"
proof -
  let ?I = "\<lambda>k x. \<exists>j \<le> k. pg_abs x = (db_add n (sint v) ^^ j) (pg_abs s)"
  obtain r s' where r: "withRetry wait_background (pg_exec (upsert_counter n v)) s = (r, s')"
    by (cases "withRetry wait_background (pg_exec (upsert_counter n v)) s")
  have step: "?I (Suc k) x'" if "?I k x" "pg_exec (upsert_counter n v) x = (e, x')" for k x e x'
  proof -
    obtain j where j: "j \<le> k" "pg_abs x = (db_add n (sint v) ^^ j) (pg_abs s)" using \<open>?I k x\<close> by blast
    from pg_exec_counter_step [OF j(2) that(2)] j(1) show ?thesis
      by (auto intro: exI [of _ j] exI [of _ "Suc j"])
  qed
  have "\<exists>j \<le> 4. ?I j s'"
  proof (rule withRetry_steps [where I = ?I, rotated 3, OF r])
    show "?I 0 s" by simp
    show "?I (Suc k) x'" if "?I k x" "pg_exec (upsert_counter n v) x = (e, x')" for k x e x'
      by (rule step [OF that])
    show "?I k x'" if "?I k x" "wait_background d x = (e, x')" for k d x e x'
      using that(1) wait_background_keeps [OF that(2)] by simp
  qed
  then obtain i j where "i \<le> 4" "j \<le> i" "pg_abs s' = (db_add n (sint v) ^^ j) (pg_abs s)" by blast
  then show ?thesis by (auto simp: pg_UpdateCounter_def r intro: exI [of _ j])
qed

lemma pg_exec_counter_lost:
  assumes "script s = Lost e # ts" "name_storable n" "add_safe n v (pg_abs s)"
  shows "\<exists>s'. pg_exec (upsert_counter n v) s = (Some e, s') \<and> script s' = ts
    \<and> pg_abs s' = db_add n (sint v) (pg_abs s)"
proof -
  have "int64_range (map_index (t_counters (tables s)) n + sint v)"
    using assms(3) by (simp add: add_safe_def db_count_def)
  with assms(1,2) show ?thesis
    by (simp add: pg_exec_def next_trip_def upsert_counter_safe pg_abs_def db_add_def db_count_def)
qed

text \<open>C33: When the reply to a counter increment is lost after the server has applied it, and the error
  is one the retry loop repeats, the delta is added twice (for a name the column can hold, and while both sums fit
  in 64 bits).\<close>
theorem pg_counter_counted_twice:
  assumes "script s = [Lost e]" and "isRetriableDBError e" and "name_storable n"
    and "add_safe n v (pg_abs s)" and "add_safe n v (db_add n (sint v) (pg_abs s))"
  shows "pg_abs (pg_UpdateCounter n v s) = db_add n (2 * sint v) (pg_abs s)"
proof -
  obtain s1 where s1: "pg_exec (upsert_counter n v) s = (Some e, s1)" "script s1 = []"
    "pg_abs s1 = db_add n (sint v) (pg_abs s)"
    using pg_exec_counter_lost [OF assms(1,3,4)] by blast
  have "int64_range (map_index (t_counters (tables s1)) n + sint v)"
    using assms(5) s1(3) [symmetric] by (simp add: add_safe_def db_count_def)
  then obtain s2 where s2: "pg_exec (upsert_counter n v) s1 = (None, s2)"
    "pg_abs s2 = db_add n (sint v) (pg_abs s1)"
    using assms(3) s1(2)
    by (simp add: pg_exec_def next_trip_ready upsert_counter_safe pg_abs_def db_add_def db_count_def)
  have "withRetry wait_background (pg_exec (upsert_counter n v)) s = (None, s2)"
    using assms(2) by (simp add: withRetry_range retryDelays_def s1(1) s2(1) wait_background_def)
  then show ?thesis
    by (simp add: pg_UpdateCounter_def s2(2) s1(3)) (simp add: db_add_def db_count_def map_index_def add.commute)
qed

theorem pg_counter_counted_twice_witness:
  "pg_abs (pg_UpdateCounter ''c'' 5 \<lparr>tables = no_tables, script = [Lost (ErrPg ''08006'')], waits = []\<rparr>)
     = \<lparr>db_gauges = Map.empty, db_counters = [''c'' \<mapsto> 10]\<rparr>"
proof -
  let ?s = "\<lparr>tables = no_tables, script = [Lost (ErrPg ''08006'')], waits = []\<rparr>"
  have "pg_abs (pg_UpdateCounter ''c'' 5 ?s) = db_add ''c'' (2 * sint (5 :: int64)) (pg_abs ?s)"
    by (rule pg_counter_counted_twice [where e = "ErrPg ''08006''"])
      (simp_all add: isRetriableDBError_def add_safe_def db_count_def db_add_def pg_abs_def no_tables_def
        int64_range_def map_index_def)
  then show ?thesis by (simp add: db_add_def db_count_def pg_abs_def no_tables_def map_index_def)
qed

section \<open>Connecting\<close>

text \<open>A pool is left open exactly when \<open>NewPostgresStorage\<close> returns a storage: every failure after
  the pool has been created closes it.\<close>
lemma pg_connect_no_leak:
  "snd (NewPostgresStorage pool ping migrations)
     = (if fst (NewPostgresStorage pool ping migrations) = None then 1 else 0)
   \<and> (fst (NewPostgresStorage pool ping migrations) = None
        \<longleftrightarrow> pool = None \<and> ping = None \<and> migrations = None)"
  by (auto simp: NewPostgresStorage_def close_pool_def split: option.splits)

lemma migrate_dsn_schemes [simp]:
  "migrate_dsn (''postgres://'' @ rest) = ''pgx5://'' @ rest"
  "migrate_dsn (''postgresql://'' @ rest) = ''pgx5://'' @ rest"
  by (simp_all add: migrate_dsn_def has_prefix_def)

end
