(* ===== verification/Go_Quote.thy ===== *)
theory Go_Quote
  imports Json_String
begin

text \<open>
  \<open>strconv.Quote\<close>, the \<open>%q\<close> of \<open>fmt\<close>: what can be printed stays, the rest becomes an escape of Go's syntax. Which
  runes beyond ASCII can be printed is the table of \<open>unicode.IsPrint\<close>, a parameter here.
\<close>

definition decode_rune :: "string \<Rightarrow> nat" where
  "decode_rune u =
     (case map of_char u of
        [a] \<Rightarrow> a
      | [a, b] \<Rightarrow> a mod 32 * 64 + b mod 64
      | [a, b, c] \<Rightarrow> a mod 16 * 4096 + b mod 64 * 64 + c mod 64
      | [a, b, c, d] \<Rightarrow> a mod 8 * 262144 + b mod 64 * 4096 + c mod 64 * 64 + d mod 64
      | _ \<Rightarrow> 0xFFFD)"

definition hex_digits :: "nat \<Rightarrow> nat \<Rightarrow> string" where
  "hex_digits k r = map (\<lambda>i. hex_char (r div 16 ^ i mod 16)) (rev [0..<k])"

text \<open>\<open>appendEscapedRune\<close> for one byte below 0x80 and for a longer encoding.\<close>

definition quote_ascii :: "char \<Rightarrow> string" where
  "quote_ascii c =
     (if c = CHR 0x22 \<or> c = CHR 0x5C then [CHR 0x5C, c]
      else if byte_in 0x20 0x7E c then [c]
      else if c = CHR 0x07 then CHR 0x5C # ''a''
      else if c = CHR 0x08 then CHR 0x5C # ''b''
      else if c = CHR 0x0C then CHR 0x5C # ''f''
      else if c = CHR 0x0A then CHR 0x5C # ''n''
      else if c = CHR 0x0D then CHR 0x5C # ''r''
      else if c = CHR 0x09 then CHR 0x5C # ''t''
      else if c = CHR 0x0B then CHR 0x5C # ''v''
      else CHR 0x5C # CHR ''x'' # hex_digits 2 (of_char c))"

definition quote_wide :: "(nat \<Rightarrow> bool) \<Rightarrow> string \<Rightarrow> string" where
  "quote_wide printable u =
     (let r = decode_rune u in
      if printable r then u
      else if r < 0x10000 then CHR 0x5C # CHR ''u'' # hex_digits 4 r
      else CHR 0x5C # CHR ''U'' # hex_digits 8 r)"

text \<open>\<open>quoteWith\<close>: a byte that starts no valid encoding is written as \<open>\x\<close> and its two digits.\<close>

function quote_runes :: "(nat \<Rightarrow> bool) \<Rightarrow> string \<Rightarrow> string" where
  "quote_runes printable s =
     (case s of
        [] \<Rightarrow> []
      | c # t \<Rightarrow>
          if byte_in 0 0x7F c then quote_ascii c @ quote_runes printable t
          else (case utf8_len s of
                  None \<Rightarrow> CHR 0x5C # CHR ''x'' # hex_digits 2 (of_char c) @ quote_runes printable t
                | Some n \<Rightarrow> quote_wide printable (take n s) @ quote_runes printable (drop n s)))"
  by pat_completeness auto
termination
  by (relation "measure (\<lambda>(_, s). length s)") (auto dest: utf8_len_bounds)

declare quote_runes.simps [simp del]

definition go_quote :: "(nat \<Rightarrow> bool) \<Rightarrow> string \<Rightarrow> string" where
  "go_quote printable s = CHR 0x22 # quote_runes printable s @ [CHR 0x22]"

lemma quote_runes_Nil [simp]: "quote_runes printable [] = []"
  by (simp add: quote_runes.simps)

lemma quote_runes_ascii: "byte_in 0 0x7F c \<Longrightarrow> quote_runes printable (c # t) = quote_ascii c @ quote_runes printable t"
  by (subst quote_runes.simps) simp

section \<open>What the quoted text looks like\<close>

text \<open>A printable ASCII text without quotes and backslashes is itself.\<close>

lemma quote_runes_plain:
  "list_all (\<lambda>c. byte_in 0x20 0x7E c \<and> c \<noteq> CHR 0x22 \<and> c \<noteq> CHR 0x5C) s \<Longrightarrow> quote_runes printable s = s"
proof (induction s)
  case (Cons c s)
  then have "byte_in 0 0x7F c" by (simp add: byte_in_def)
  with Cons show ?case by (simp add: quote_runes_ascii quote_ascii_def)
qed simp

text \<open>No control character gets through: a name from the wire cannot break a line of the text it is quoted in.\<close>

definition no_control :: "char \<Rightarrow> bool" where
  "no_control c \<longleftrightarrow> 0x20 \<le> (of_char c :: nat) \<and> (of_char c :: nat) \<noteq> 0x7F"

lemma no_control_wide: "\<not> byte_in 0 0x7F c \<Longrightarrow> no_control c"
  by (auto simp: no_control_def byte_in_def)

lemma hex_char_no_control: "d < 16 \<Longrightarrow> no_control (hex_char d)"
  by (auto simp: no_control_def hex_char_def take_bit_eq_mod)

lemma hex_digits_no_control: "list_all no_control (hex_digits k r)"
  by (auto simp: hex_digits_def list_all_iff hex_char_no_control)

lemma no_control_consts [simp]:
  "no_control (CHR 0x5C)" "no_control (CHR 0x22)" "no_control (CHR ''x'')" "no_control (CHR ''u'')" "no_control (CHR ''U'')"
  by (simp_all add: no_control_def)

lemma quote_ascii_no_control: "list_all no_control (quote_ascii c)"
  by (auto simp: quote_ascii_def hex_digits_no_control no_control_def byte_in_def)

lemma utf8_len_no_control:
  assumes "\<not> byte_in 0 0x7F c" "utf8_len (c # t) = Some n"
  shows "list_all no_control (take n (c # t))"
proof -
  obtain lo hi where l: "utf8_lead c = Some (n, lo, hi)" using utf8_len_multi_lead [OF assms(2)] by blast
  have "utf8_tail (n - 1) lo hi (take (n - 1) t)" using assms(2) l by (auto simp: utf8_len_def split: if_splits)
  moreover have "0x80 \<le> lo" using l assms(1) by (auto simp: utf8_lead_def split: if_splits)
  ultimately have "list_all no_control (take (n - 1) t)"
    by (auto simp: utf8_tail_def list_all_iff no_control_def byte_in_def split: list.splits)
  then show ?thesis using no_control_wide [OF assms(1)] by (cases n) simp_all
qed

lemma quote_runes_no_control: "list_all no_control (quote_runes printable s)"
proof (induction printable s rule: quote_runes.induct)
  case (1 printable s)
  show ?case
  proof (cases s)
    case (Cons c t)
    show ?thesis
    proof (cases "byte_in 0 0x7F c")
      case True
      with 1 Cons show ?thesis by (simp add: quote_runes_ascii quote_ascii_no_control)
    next
      case False
      show ?thesis
      proof (cases "utf8_len s")
        case None
        with 1 Cons False show ?thesis by (subst quote_runes.simps) (simp add: hex_digits_no_control)
      next
        case (Some n)
        have "list_all no_control (quote_wide printable (take n s))"
          using utf8_len_no_control [OF False] Some Cons
          by (simp add: quote_wide_def Let_def hex_digits_no_control)
        with 1 Cons False Some show ?thesis by (subst quote_runes.simps) simp
      qed
    qed
  qed simp
qed

lemma go_quote_no_control: "list_all no_control (go_quote printable s)"
  by (simp add: go_quote_def quote_runes_no_control)

end
