(* ===== verification/Grpc.thy ===== *)
theory Grpc
  imports Middleware Postgres_Facts Go_Quote
begin

text \<open>
  The gRPC transport: \<open>internal/grpcserver\<close>, \<open>internal/agent/grpcsender.go\<close> and, of the generated code,
  the message fields and the method handler that applies the interceptor. Encoding and connection are the
  library's: a call delivers the message and the metadata unchanged or fails.
\<close>

section \<open>Messages\<close>

text \<open>The enum is open in proto3: any 32-bit number can arrive.\<close>

type_synonym pb_type = "32 word"

definition Metric_GAUGE :: pb_type where "Metric_GAUGE = 0"

definition Metric_COUNTER :: pb_type where "Metric_COUNTER = 1"

record pb_metric =
  pb_Id :: string
  pb_Type :: pb_type
  pb_Delta :: int64
  pb_Value :: float64

text \<open>The getters of the generated type: zero values on a nil message.\<close>

definition GetId :: "pb_metric option \<Rightarrow> string" where
  "GetId x = (case x of Some m \<Rightarrow> pb_Id m | None \<Rightarrow> '''')"

definition GetType :: "pb_metric option \<Rightarrow> pb_type" where
  "GetType x = (case x of Some m \<Rightarrow> pb_Type m | None \<Rightarrow> Metric_GAUGE)"

definition GetDelta :: "pb_metric option \<Rightarrow> int64" where
  "GetDelta x = (case x of Some m \<Rightarrow> pb_Delta m | None \<Rightarrow> 0)"

definition GetValue :: "pb_metric option \<Rightarrow> float64" where
  "GetValue x = (case x of Some m \<Rightarrow> pb_Value m | None \<Rightarrow> 0)"

datatype grpc_code = InvalidArgument | Internal | PermissionDenied | Unavailable | Unimplemented

type_synonym grpc_status = "grpc_code \<times> string"

text \<open>How the texts of a status are made: \<open>Error()\<close> of an error, and the table of printable runes of \<open>%q\<close>.\<close>

record status_text =
  st_error :: "go_error \<Rightarrow> string"
  st_print :: "nat \<Rightarrow> bool"

section \<open>The server\<close>

text \<open>\<open>Metric_MType.String\<close>: a number without a name is written in decimal.\<close>

definition MType_String :: "pb_type \<Rightarrow> string" where
  "MType_String x =
     (if x = Metric_GAUGE then ''GAUGE'' else if x = Metric_COUNTER then ''COUNTER'' else format_int (sint x))"

definition protoToModel :: "pb_metric \<Rightarrow> string + metrics" where
  "protoToModel m =
     (if pb_Id m = '''' then Inl ''id must not be empty''
      else
        (let out = zero_metrics\<lparr>ID := pb_Id m\<rparr> in
         if pb_Type m = Metric_GAUGE then Inr (out\<lparr>MType := TypeGauge, Value := Some (pb_Value m)\<rparr>)
         else if pb_Type m = Metric_COUNTER then Inr (out\<lparr>MType := TypeCounter, Delta := Some (pb_Delta m)\<rparr>)
         else Inl (''unknown metric type '' @ MType_String (pb_Type m))))"

fun convert_all :: "pb_metric list \<Rightarrow> metrics list \<Rightarrow> (string \<times> string) + metrics list" where
  "convert_all [] acc = Inr acc"
| "convert_all (m # ms) acc =
     (case protoToModel m of
        Inl err \<Rightarrow> Inl (pb_Id m, err)
      | Inr converted \<Rightarrow> convert_all ms (acc @ [converted]))"

text \<open>\<open>UpdateMetrics\<close>.\<close>

definition grpc_UpdateMetrics ::
    "status_text \<Rightarrow> 's storage_ops \<Rightarrow> pb_metric list \<Rightarrow> 's \<Rightarrow> grpc_status option \<times> 's" where
  "grpc_UpdateMetrics stx store req s =
     (case convert_all req [] of
        Inl (mid, err) \<Rightarrow> (Some (InvalidArgument, ''metric '' @ go_quote (st_print stx) mid @ '': '' @ err), s)
      | Inr metrics \<Rightarrow>
          (case op_BatchUpdate store metrics s of
             (Some err, s') \<Rightarrow> (Some (Internal, ''batch update: '' @ st_error stx err), s')
           | (None, s') \<Rightarrow> (None, s')))"

text \<open>Incoming metadata: \<open>None\<close> when the context carries none.\<close>

type_synonym grpc_md = "(string \<Rightarrow> string list) option"

definition TrustedSubnetInterceptor ::
    "(string \<Rightarrow> 'ip option) \<Rightarrow> ('ip \<Rightarrow> bool) option \<Rightarrow> grpc_md \<Rightarrow> 'req
      \<Rightarrow> ('req \<Rightarrow> 's \<Rightarrow> grpc_status option \<times> 's) \<Rightarrow> 's \<Rightarrow> grpc_status option \<times> 's" where
  "TrustedSubnetInterceptor parse_ip subnet ctx req handler s =
     (let denied = (Some (PermissionDenied, ''permission denied''), s) in
      case subnet of
        None \<Rightarrow> handler req s
      | Some within \<Rightarrow>
          (case ctx of
             None \<Rightarrow> denied
           | Some md \<Rightarrow>
               (case md ''x-real-ip'' of
                  [] \<Rightarrow> denied
                | v # _ \<Rightarrow>
                    (case parse_ip v of
                       None \<Rightarrow> denied
                     | Some ip \<Rightarrow> if \<not> within ip then denied else handler req s))))"

text \<open>\<open>_Metrics_UpdateMetrics_Handler\<close> with the interceptor the server is started with.\<close>

definition metrics_handler ::
    "status_text \<Rightarrow> 's storage_ops \<Rightarrow> (string \<Rightarrow> 'ip option) \<Rightarrow> ('ip \<Rightarrow> bool) option
      \<Rightarrow> grpc_md \<Rightarrow> pb_metric list \<Rightarrow> 's \<Rightarrow> grpc_status option \<times> 's" where
  "metrics_handler stx store parse_ip subnet ctx req s =
     TrustedSubnetInterceptor parse_ip subnet ctx req (grpc_UpdateMetrics stx store) s"

definition plain_status :: status_text where
  "plain_status = \<lparr>st_error = (\<lambda>_. ''''), st_print = (\<lambda>_. True)\<rparr>"

section \<open>The agent's side\<close>

record grpc_sender =
  g_localIP :: string

definition NewGRPCSender :: "string \<Rightarrow> go_error option \<Rightarrow> string \<Rightarrow> go_error + grpc_sender" where
  "NewGRPCSender addr dial local_ip =
     (case dial of Some err \<Rightarrow> Inl (ErrWrap (''dial grpc '' @ addr) err) | None \<Rightarrow> Inr \<lparr>g_localIP = local_ip\<rparr>)"

definition modelToProto :: "metrics \<Rightarrow> pb_metric" where
  "modelToProto m =
     (let out = \<lparr>pb_Id = ID m, pb_Type = Metric_GAUGE, pb_Delta = 0, pb_Value = 0\<rparr> in
      if MType m = TypeCounter then
        (let out = out\<lparr>pb_Type := Metric_COUNTER\<rparr> in
         case Delta m of None \<Rightarrow> out | Some d \<Rightarrow> out\<lparr>pb_Delta := d\<rparr>)
      else (case Value m of None \<Rightarrow> out | Some v \<Rightarrow> out\<lparr>pb_Value := v\<rparr>))"

definition outgoing_md :: "grpc_sender \<Rightarrow> string \<Rightarrow> string list" where
  "outgoing_md g k = (if g_localIP g \<noteq> '''' \<and> k = ''x-real-ip'' then [g_localIP g] else [])"

definition grpc_SendBatch ::
    "((string \<Rightarrow> string list) \<Rightarrow> pb_metric list \<Rightarrow> 'n \<Rightarrow> grpc_status option \<times> 'n)
      \<Rightarrow> grpc_sender \<Rightarrow> metrics list \<Rightarrow> 'n \<Rightarrow> grpc_status option \<times> 'n" where
  "grpc_SendBatch invoke g metrics n =
     (if metrics = [] then (None, n) else invoke (outgoing_md g) (map modelToProto metrics) n)"

section \<open>Conversions\<close>

lemma pb_types_distinct [simp]: "Metric_GAUGE \<noteq> Metric_COUNTER" "Metric_COUNTER \<noteq> Metric_GAUGE"
  by (simp_all add: Metric_GAUGE_def Metric_COUNTER_def)

text \<open>A metric of a known type with its value present and a name: what the agent collects.\<close>

definition canonical :: "metrics \<Rightarrow> bool" where
  "canonical m \<longleftrightarrow> ID m \<noteq> '''' \<and>
     (m = gauge_metric (ID m) (the (Value m)) \<or> m = counter_metric (ID m) (the (Delta m)))"

lemma proto_roundtrip: "canonical m \<Longrightarrow> protoToModel (modelToProto m) = Inr m"
proof -
  assume "canonical m"
  then consider v where "m = gauge_metric (ID m) v" "ID m \<noteq> ''''" | d where "m = counter_metric (ID m) d" "ID m \<noteq> ''''"
    unfolding canonical_def by blast
  then show ?thesis
  proof cases
    case 1
    then obtain n where "m = gauge_metric n v" "n \<noteq> ''''" by metis
    then show ?thesis
      by (simp add: modelToProto_def protoToModel_def Let_def zero_metrics_def gauge_metric_def)
  next
    case 2
    then obtain n where "m = counter_metric n d" "n \<noteq> ''''" by metis
    then show ?thesis
      by (simp add: modelToProto_def protoToModel_def Let_def zero_metrics_def counter_metric_def)
  qed
qed

lemma convert_all_canonical: "list_all canonical ms \<Longrightarrow> convert_all (map modelToProto ms) acc = Inr (acc @ ms)"
  by (induction ms arbitrary: acc) (simp_all add: proto_roundtrip)

lemma protoToModel_known: "protoToModel m = Inr x \<Longrightarrow> known_type x"
  by (auto simp: protoToModel_def Let_def known_type_def split: if_splits)

lemma convert_all_known:
  "list_all known_type acc \<Longrightarrow> convert_all req acc = Inr ms \<Longrightarrow> list_all known_type ms"
proof (induction req arbitrary: acc)
  case (Cons m req)
  then obtain x where x: "protoToModel m = Inr x" "convert_all req (acc @ [x]) = Inr ms"
    by (auto split: sum.splits)
  show ?case by (rule Cons.IH [OF _ x(2)]) (use Cons.prems(1) protoToModel_known [OF x(1)] in simp)
qed simp

lemma canonical_known: "canonical m \<Longrightarrow> known_type m"
  unfolding canonical_def by (metis known_type_metric)

text \<open>Every metric the agent collects survives the conversion to its protobuf message and back.\<close>
lemma grpc_conversion_roundtrip:
  assumes "name \<noteq> ''''"
  shows "protoToModel (modelToProto (gauge_metric name v)) = Inr (gauge_metric name v)
    \<and> protoToModel (modelToProto (counter_metric name d)) = Inr (counter_metric name d)"
  using assms by (simp add: proto_roundtrip canonical_def)

lemma grpc_conversion_roundtrip_witness:
  "protoToModel (modelToProto (gauge_metric ''Alloc'' float_nan)) = Inr (gauge_metric ''Alloc'' float_nan)
   \<and> protoToModel (modelToProto (counter_metric ''Alloc'' 1)) = Inr (counter_metric ''Alloc'' 1)"
  by (rule grpc_conversion_roundtrip) simp

section \<open>Updates\<close>

context storage_contract begin

lemma grpc_batch_applied:
  assumes "ready s" "ms \<noteq> []" "list_all canonical ms" "list_all (name_ok \<circ> ID) ms" "batch_safe ms (abs s)"
  shows "\<exists>s'. grpc_UpdateMetrics stx ops (map modelToProto ms) s = (None, s')
    \<and> abs s' = fold db_apply ms (abs s) \<and> ready s'"
proof -
  have "list_all known_type ms" using assms(3) by (auto simp: list_all_iff canonical_known)
  then obtain s' where "op_BatchUpdate ops ms s = (None, s')" "abs s' = fold db_apply ms (abs s)" "ready s'"
    using batch [OF assms(1) _ assms(4,5)] by blast
  then show ?thesis by (simp add: grpc_UpdateMetrics_def convert_all_canonical [OF assms(3)])
qed

end

text \<open>On the in-memory store an UpdateMetrics call is all-or-nothing: it either reports an invalid
  argument and leaves the store as it was, or succeeds with every metric of the request applied in order.
  A batch over HTTP does not have this property.\<close>
lemma grpc_update_atomic:
  "(\<exists>msg. grpc_UpdateMetrics stx mem_ops req s = (Some (InvalidArgument, msg), s))
   \<or> (\<exists>ms. convert_all req [] = Inr ms \<and> grpc_UpdateMetrics stx mem_ops req s = (None, fold mem_apply ms s))"
proof (cases "convert_all req []")
  case (Inl e)
  then show ?thesis by (cases e) (simp add: grpc_UpdateMetrics_def)
next
  case (Inr ms)
  then have "list_all known_type ms" using convert_all_known [of "[]"] by simp
  with Inr show ?thesis by (simp add: grpc_UpdateMetrics_def mem_batch_known)
qed

text \<open>A batch the agent sends over gRPC from inside the trusted subnet to a server on PostgreSQL, no
  failure being pending, is stored completely: the tables become what the abstract database prescribes.\<close>
lemma grpc_batch_stored:
  assumes "pg_ready s" and "ms \<noteq> []" and "list_all canonical ms" and "list_all (name_storable \<circ> ID) ms"
    and "batch_safe ms (pg_abs s)" and "g_localIP g \<noteq> ''''" and "parse_ip (g_localIP g) = Some ip" and "within ip"
  shows "\<exists>s'. grpc_SendBatch (\<lambda>md. metrics_handler stx pg_ops parse_ip (Some within) (Some md)) g ms s = (None, s')
    \<and> pg_abs s' = fold db_apply ms (pg_abs s)"
  using pg.grpc_batch_applied [OF assms(1-5), of stx] assms(2,6-8)
  by (auto simp: grpc_SendBatch_def metrics_handler_def TrustedSubnetInterceptor_def outgoing_md_def)

lemma grpc_batch_stored_witness:
  "\<exists>s'. grpc_SendBatch (\<lambda>md. metrics_handler plain_status pg_ops Some (Some (\<lambda>ip. ip = ''10.0.0.1'')) (Some md))
      \<lparr>g_localIP = ''10.0.0.1''\<rparr> [counter_metric ''c'' 2] \<lparr>tables = no_tables, script = [], waits = []\<rparr> = (None, s')
    \<and> pg_abs s' = \<lparr>db_gauges = Map.empty, db_counters = [''c'' \<mapsto> 2]\<rparr>"
  using grpc_batch_stored [of "\<lparr>tables = no_tables, script = [], waits = []\<rparr>" "[counter_metric ''c'' 2]"
      "\<lparr>g_localIP = ''10.0.0.1''\<rparr>" Some "''10.0.0.1''" "\<lambda>ip. ip = ''10.0.0.1''" plain_status]
  by (simp add: pg_ready_def canonical_def metric_safe_def add_safe_def db_count_def pg_abs_def no_tables_def
      int64_range_def map_index_def db_apply_def db_add_def)

section \<open>One decision for both transports\<close>

definition ip_trusted :: "(string \<Rightarrow> 'ip option) \<Rightarrow> ('ip \<Rightarrow> bool) option \<Rightarrow> string \<Rightarrow> bool" where
  "ip_trusted parse_ip subnet v \<longleftrightarrow>
     (case subnet of None \<Rightarrow> True
      | Some within \<Rightarrow> (case parse_ip v of None \<Rightarrow> False | Some ip \<Rightarrow> within ip))"

definition first_real_ip :: "grpc_md \<Rightarrow> string" where
  "first_real_ip ctx =
     (case ctx of None \<Rightarrow> '''' | Some md \<Rightarrow> (case md ''x-real-ip'' of [] \<Rightarrow> '''' | v # _ \<Rightarrow> v))"

text \<open>C39: With the same subnet, and an IP parser that refuses the empty string, the gRPC interceptor and the
  HTTP middleware take the same decision on the same address: a trusted one (or no subnet at all) reaches
  the handler, any other is refused, with PermissionDenied and 403, without touching the state.\<close>
theorem subnet_same_decision:
  assumes "parse_ip '''' = None" and "req_header r ''X-Real-IP'' = first_real_ip ctx"
  shows "TrustedSubnetMiddleware parse_ip subnet next r w
      = (if ip_trusted parse_ip subnet (first_real_ip ctx) then next r w else (http_Error ''forbidden'' 403, w))
    \<and> TrustedSubnetInterceptor parse_ip subnet ctx req handler s
      = (if ip_trusted parse_ip subnet (first_real_ip ctx) then handler req s
         else (Some (PermissionDenied, ''permission denied''), s))"
  using assms
  by (auto simp: TrustedSubnetMiddleware_def TrustedSubnetInterceptor_def ip_trusted_def first_real_ip_def Let_def
      split: option.splits list.splits)

theorem subnet_same_decision_witness:
  "TrustedSubnetMiddleware (\<lambda>x. if x = '''' then None else Some x) (Some (\<lambda>ip. ip = ''10.0.0.1''))
     (\<lambda>r w. ([WriteHeader 200], w)) \<lparr>r_method = ''GET'', r_path = ''/'', r_header = Map.empty, r_body = ([], None),
       r_remote = '''', r_params = (\<lambda>_. ''''), r_now = 0\<rparr> () = (http_Error ''forbidden'' 403, ())
   \<and> TrustedSubnetInterceptor (\<lambda>x. if x = '''' then None else Some x) (Some (\<lambda>ip. ip = ''10.0.0.1''))
     None () (\<lambda>req s. (None, s)) () = (Some (PermissionDenied, ''permission denied''), ())"
  using subnet_same_decision [of "\<lambda>x. if x = '''' then None else Some x"
      "\<lparr>r_method = ''GET'', r_path = ''/'', r_header = Map.empty, r_body = ([], None), r_remote = '''',
        r_params = (\<lambda>_. ''''), r_now = 0\<rparr>" None "Some (\<lambda>ip. ip = ''10.0.0.1'')"
      "\<lambda>r w. ([WriteHeader 200], w)" "()" "()" "\<lambda>req s. (None, s)" "()"]
  by (simp add: ip_trusted_def first_real_ip_def header_get_def)

end
