(* ===== verification/Collector_Facts.thy ===== *)
theory Collector_Facts
  imports Collector Grpc
begin

text \<open>
  The collector as both transports see it: what its snapshots contain and what a server that applies one holds
  afterwards.
\<close>

section \<open>What a delivered snapshot does\<close>

text \<open>The counters of a collector: \<open>PollCount\<close> alone, and finitely many gauges, none without a name.\<close>

definition collector_ok :: "collector \<Rightarrow> bool" where
  "collector_ok c \<longleftrightarrow> c_gauge c '''' = None \<and> finite (dom (c_gauge c)) \<and> dom (c_counter c) \<subseteq> {''PollCount''}"

lemma put_pairs_none: "'''' \<notin> fst ` set kvs \<Longrightarrow> r '''' = None \<Longrightarrow> put_pairs kvs r '''' = None"
  by (simp add: put_pairs_other)

lemma dom_put_pairs: "dom (put_pairs kvs r) = dom r \<union> fst ` set kvs"
proof (induction kvs r rule: put_pairs.induct)
  case (2 k v kvs r)
  have "dom (put_pairs ((k, v) # kvs) r) = dom (r(k \<mapsto> v)) \<union> fst ` set kvs" unfolding put_pairs.simps by (rule 2)
  then show ?case by auto
qed simp

lemma collector_ok_New: "collector_ok (NewCollector b u)"
  by (simp add: collector_ok_def NewCollector_def)

lemma collector_ok_UpdateMetrics: "collector_ok c \<Longrightarrow> collector_ok (UpdateMetrics to_float rd c)"
  by (auto simp: collector_ok_def UpdateMetrics_def put_pairs_none dom_put_pairs runtime_gauges_def Let_def)

lemma collector_ok_Gopsutil: "collector_ok c \<Longrightarrow> collector_ok (UpdateGopsutilMetrics to_float vm percs c)"
  by (auto simp: collector_ok_def UpdateGopsutilMetrics_eq Let_def dom_put_pairs intro!: put_pairs_none split: sum.splits)

lemma UpdateMetrics_grows: "dom (c_gauge c) \<subseteq> dom (c_gauge (UpdateMetrics to_float rd c))"
  by (auto simp: UpdateMetrics_def dom_put_pairs)

lemma Gopsutil_grows: "dom (c_gauge c) \<subseteq> dom (c_gauge (UpdateGopsutilMetrics to_float vm percs c))"
  by (auto simp: UpdateGopsutilMetrics_eq Let_def dom_put_pairs split: sum.splits)

lemma snapshot_canonical:
  assumes "collector_ok c" "visits (c_gauge c) gs" "visits (c_counter c) cs"
  shows "list_all canonical (GetAllMetrics gs cs c)"
proof -
  have "k \<noteq> ''''" if "(k, v) \<in> set (range_pairs (c_gauge c) gs)" for k v
    using that assms(1) by (auto simp: set_range_pairs collector_ok_def)
  moreover have "k \<noteq> ''''" if "(k, v) \<in> set (range_pairs (c_counter c) cs)" for k v
    using that assms(1) by (auto simp: set_range_pairs collector_ok_def)
  ultimately show ?thesis by (fastforce simp: GetAllMetrics_def list_all_iff canonical_def)
qed

definition pollcount :: "collector \<Rightarrow> int64" where
  "pollcount c = map_index (c_counter c) ''PollCount''"

text \<open>A server whose gauges are among the collector's takes over all of them and adds the PollCount.\<close>

lemma snapshot_applied:
  assumes "collector_ok c" "visits (c_gauge c) gs" "visits (c_counter c) cs"
    and "dom (gauges m) \<subseteq> dom (c_gauge c)"
  shows "\<exists>m'. mem_BatchUpdate (GetAllMetrics gs cs c) m = (None, m') \<and> gauges m' = c_gauge c
    \<and> map_index (counters m') ''PollCount'' = map_index (counters m) ''PollCount'' + pollcount c"
proof -
  have gauges_copied: "put_pairs (range_pairs (c_gauge c) gs) (gauges m) = c_gauge c"
    using assms(2,4) by (auto simp: put_range_pairs visits_def fun_eq_iff domIff)
  show ?thesis
  proof (cases "c_counter c ''PollCount''")
    case None
    then have "c_counter c = Map.empty" using assms(1) by (auto simp: collector_ok_def fun_eq_iff domIff)
    moreover from this have "cs = []" using assms(3) by (simp add: visits_def)
    ultimately show ?thesis
      using batch_gauge_pairs [of "range_pairs (c_gauge c) gs" "[]" m]
      by (simp add: GetAllMetrics_def gauges_copied pollcount_def map_index_def)
  next
    case (Some k)
    then have c: "c_counter c = [''PollCount'' \<mapsto> k]" using assms(1) by (auto simp: collector_ok_def fun_eq_iff domIff)
    moreover from this have "cs = [''PollCount'']"
      using assms(3) visits_length [of "c_counter c" cs] by (cases cs) (auto simp: visits_def)
    ultimately show ?thesis
      using report_pollcount [OF c, of gs m]
        batch_gauge_pairs [of "range_pairs (c_gauge c) gs" "[counter_metric ''PollCount'' k]" m]
      by (simp add: GetAllMetrics_def gauges_copied pollcount_def map_index_def mem_batch_counter
          mem_UpdateCounter_def del: mem_BatchUpdate.simps(2))
  qed
qed

section \<open>Names\<close>

text \<open>Every name a collector uses is valid UTF-8, so that its metrics survive the JSON text.\<close>

definition names_ok :: "collector \<Rightarrow> bool" where
  "names_ok c \<longleftrightarrow> (\<forall>k \<in> dom (c_gauge c) \<union> dom (c_counter c). valid_utf8 k)"

lemma runtime_name: "(k, v) \<in> set (runtime_gauges to_float rd) \<Longrightarrow> valid_utf8 k"
  by (rule valid_utf8_ascii) (auto simp: runtime_gauges_def Let_def byte_in_def)

lemma cpu_name: "valid_utf8 (''CPUutilization'' @ nat_digits n)"
proof (rule valid_utf8_ascii)
  have "byte_in 0 127 c" if "is_digit c" for c using that by (auto simp: is_digit_def byte_in_def)
  then have "list_all (byte_in 0 127) (nat_digits n)" using nat_digits_digits [of n] by (auto simp: list_all_iff)
  then show "list_all (byte_in 0 127) (''CPUutilization'' @ nat_digits n)" by (simp add: byte_in_def)
qed

lemma other_names [simp]: "valid_utf8 ''PollCount''" "valid_utf8 ''TotalMemory''" "valid_utf8 ''FreeMemory''"
  by (simp_all add: valid_utf8_ascii byte_in_def)

lemma names_ok_New: "names_ok (NewCollector b u)"
  by (simp add: names_ok_def NewCollector_def)

lemma names_ok_UpdateMetrics: "names_ok c \<Longrightarrow> names_ok (UpdateMetrics to_float rd c)"
  by (auto simp: names_ok_def UpdateMetrics_def dom_put_pairs dest!: runtime_name)

lemma names_ok_Gopsutil: "names_ok c \<Longrightarrow> names_ok (UpdateGopsutilMetrics to_float vm percs c)"
  by (auto simp: names_ok_def UpdateGopsutilMetrics_eq Let_def dom_put_pairs cpu_name [simplified] split: sum.splits if_splits)

end
