(* ===== verification/Go_Chan.thy ===== *)
theory Go_Chan
  imports Go_Prelude
begin

text \<open>
  Buffered channels, as the audit subject and the agent's worker pool use them, and the interface
  their users rely on: the locale \<open>bounded_fifo\<close> with its laws, the order and loss-freedom of
  every sequence of operations proved in it, and its interpretation on the channel.
\<close>

section \<open>Channels\<close>

record 'a chan =
  ch_buf :: "'a list"
  ch_cap :: nat
  ch_closed :: bool

definition make_chan :: "nat \<Rightarrow> 'a chan" where
  "make_chan n = \<lparr>ch_buf = [], ch_cap = n, ch_closed = False\<rparr>"

text \<open>
  A send panics on a closed channel; on a full one it blocks, which a \<open>select\<close> with another ready
  case (or a default) observes.
\<close>

datatype 'a send_result = Sent 'a | WouldBlock | SendPanic

definition chan_send :: "'a \<Rightarrow> 'a chan \<Rightarrow> 'a chan send_result" where
  "chan_send x c =
     (if ch_closed c then SendPanic
      else if length (ch_buf c) < ch_cap c then Sent (c\<lparr>ch_buf := ch_buf c @ [x]\<rparr>)
      else WouldBlock)"

text \<open>A receive takes the oldest element; on an empty channel it waits, or reports the close.\<close>

datatype ('a, 'c) recv_result = Received 'a 'c | ChanClosed | RecvBlock

definition chan_recv :: "'a chan \<Rightarrow> ('a, 'a chan) recv_result" where
  "chan_recv c =
     (case ch_buf c of
        x # xs \<Rightarrow> Received x (c\<lparr>ch_buf := xs\<rparr>)
      | [] \<Rightarrow> if ch_closed c then ChanClosed else RecvBlock)"

text \<open>Closing a closed channel panics.\<close>

definition chan_close :: "'a chan \<Rightarrow> 'a chan option" where
  "chan_close c = (if ch_closed c then None else Some (c\<lparr>ch_closed := True\<rparr>))"

section \<open>The interface\<close>

text \<open>
  What a producer and a consumer of a bounded queue rely on. \<open>put\<close> is refused exactly when the
  queue is full, \<open>take_first\<close> answers exactly when it is not empty, even after the queue has ceased
  to be usable for producers.
\<close>

locale bounded_fifo =
  fixes put :: "'a \<Rightarrow> 'c \<Rightarrow> 'c option"
    and take_first :: "'c \<Rightarrow> ('a \<times> 'c) option"
    and items :: "'c \<Rightarrow> 'a list"
    and capacity :: "'c \<Rightarrow> nat"
    and usable :: "'c \<Rightarrow> bool"
  assumes put_room: "usable c \<Longrightarrow> length (items c) < capacity c \<Longrightarrow>
      \<exists>c'. put x c = Some c' \<and> items c' = items c @ [x] \<and> capacity c' = capacity c \<and> usable c'"
    and put_full: "usable c \<Longrightarrow> capacity c \<le> length (items c) \<Longrightarrow> put x c = None"
    and take_some: "items c = x # xs \<Longrightarrow>
      \<exists>c'. take_first c = Some (x, c') \<and> items c' = xs \<and> capacity c' = capacity c \<and> usable c' = usable c"
    and take_none: "items c = [] \<Longrightarrow> take_first c = None"
begin

text \<open>
  A history of the queue: what was accepted, what was refused, what was taken, in order.
  \<open>Some x\<close> offers an element, \<open>None\<close> takes one.
\<close>

fun play :: "'a option list \<Rightarrow> 'c \<times> 'a list \<times> 'a list \<times> 'a list \<Rightarrow> 'c \<times> 'a list \<times> 'a list \<times> 'a list" where
  "play [] h = h"
| "play (Some x # ops) (c, acc, ref, got) =
     (case put x c of
        Some c' \<Rightarrow> play ops (c', acc @ [x], ref, got)
      | None \<Rightarrow> play ops (c, acc, ref @ [x], got))"
| "play (None # ops) (c, acc, ref, got) =
     (case take_first c of
        Some (x, c') \<Rightarrow> play ops (c', acc, ref, got @ [x])
      | None \<Rightarrow> play ops (c, acc, ref, got))"

lemma take_cases:
  obtains (empty) "items c = []" "take_first c = None"
  | (first) x c' where "take_first c = Some (x, c')" "items c = x # items c'" "capacity c' = capacity c" "usable c' = usable c"
proof (cases "items c")
  case Nil
  then show ?thesis using empty take_none by simp
next
  case (Cons x xs)
  then show ?thesis using first take_some by fastforce
qed

lemma put_cases:
  assumes "usable c"
  obtains (full) "capacity c \<le> length (items c)" "put x c = None"
  | (room) c' where "put x c = Some c'" "items c' = items c @ [x]" "capacity c' = capacity c" "usable c'"
      "length (items c) < capacity c"
  using assms put_room put_full by (cases "length (items c) < capacity c") (force simp: not_less)+

text \<open>One operation at a time, for users that interleave it with steps of their own.\<close>

lemma put_keeps_order:
  assumes "usable c" "acc = got @ items c" "length (items c) \<le> capacity c" "put x c = Some c'"
  shows "acc @ [x] = got @ items c' \<and> length (items c') \<le> capacity c' \<and> capacity c' = capacity c \<and> usable c'"
  using \<open>usable c\<close> by (cases rule: put_cases [of c x]) (use assms in auto)

lemma take_keeps_order:
  assumes "acc = got @ items c" "take_first c = Some (x, c')"
  shows "acc = (got @ [x]) @ items c' \<and> length (items c) = Suc (length (items c'))
    \<and> capacity c' = capacity c \<and> usable c' = usable c"
  by (cases rule: take_cases [of c]) (use assms in auto)

text \<open>Nothing accepted is lost, duplicated or reordered, and the queue never exceeds its capacity.\<close>

lemma play_fifo:
  assumes "usable c" "acc = got @ items c" "length (items c) \<le> capacity c"
    and "play ops (c, acc, ref, got) = (c', acc', ref', got')"
  shows "acc' = got' @ items c' \<and> length (items c') \<le> capacity c' \<and> capacity c' = capacity c \<and> usable c'"
  using assms
proof (induction ops arbitrary: c acc ref got)
  case (Cons op ops)
  show ?case
  proof (cases op)
    case None
    show ?thesis
    proof (cases rule: take_cases [of c])
      case empty
      with None Cons.prems have "play ops (c, acc, ref, got) = (c', acc', ref', got')" by simp
      with Cons.IH Cons.prems(1-3) show ?thesis .
    next
      case (first x d)
      with None Cons.IH [of d acc "got @ [x]" ref] Cons.prems show ?thesis by auto
    qed
  next
    case (Some x)
    show ?thesis
      using \<open>usable c\<close>
    proof (cases rule: put_cases [of c x])
      case full
      with Some Cons.prems have "play ops (c, acc, ref @ [x], got) = (c', acc', ref', got')" by simp
      with Cons.IH Cons.prems(1-3) show ?thesis .
    next
      case (room d)
      with Some Cons.IH [of d "acc @ [x]" got ref] Cons.prems show ?thesis by auto
    qed
  qed
qed auto

end

definition chan_put :: "'a \<Rightarrow> 'a chan \<Rightarrow> 'a chan option" where
  "chan_put x c = (case chan_send x c of Sent c' \<Rightarrow> Some c' | _ \<Rightarrow> None)"

definition chan_take :: "'a chan \<Rightarrow> ('a \<times> 'a chan) option" where
  "chan_take c = (case chan_recv c of Received x c' \<Rightarrow> Some (x, c') | _ \<Rightarrow> None)"

interpretation ch: bounded_fifo chan_put chan_take ch_buf ch_cap "\<lambda>c. \<not> ch_closed c"
  by unfold_locales (auto simp: chan_put_def chan_take_def chan_send_def chan_recv_def)

lemma chan_send_cases:
  "\<not> ch_closed c \<Longrightarrow> length (ch_buf c) < ch_cap c \<Longrightarrow> chan_send x c = Sent (c\<lparr>ch_buf := ch_buf c @ [x]\<rparr>)"
  "\<not> ch_closed c \<Longrightarrow> ch_cap c \<le> length (ch_buf c) \<Longrightarrow> chan_send x c = WouldBlock"
  "ch_closed c \<Longrightarrow> chan_send x c = SendPanic"
  by (simp_all add: chan_send_def)

end
