(* ===== verification/Audit_Subject.thy ===== *)
theory Audit_Subject
  imports Go_Chan Json_Text "HOL-Library.Transitive_Closure_Table"
begin

text \<open>
  \<open>internal/audit\<close>: the event and its \<open>Reset\<close>, the subject with its queue of 256 events and its
  dispatching goroutine as a step relation, and the two observers. \<open>s_accepted\<close>, \<open>s_dropped\<close> and
  \<open>s_seen\<close> record the history the properties speak about.
\<close>

section \<open>Events\<close>

text \<open>\<open>Metrics\<close> is \<open>None\<close> for a nil slice, which \<open>encoding/json\<close> writes as null.\<close>

record event =
  TS :: int64
  Metrics :: "string list option"
  IPAddress :: string

text \<open>The generated \<open>Reset\<close>; \<open>None\<close> is the nil receiver, \<open>x[:0]\<close> of a nil slice is nil.\<close>

definition event_Reset :: "event option \<Rightarrow> event option" where
  "event_Reset e =
     (case e of
        None \<Rightarrow> None
      | Some e \<Rightarrow> Some (e\<lparr>TS := 0, Metrics := map_option (take 0) (Metrics e), IPAddress := ''''\<rparr>))"

definition event_to_json :: "event \<Rightarrow> json" where
  "event_to_json e = JObj [
     (''ts'', JNum (format_int (sint (TS e)))),
     (''metrics'', case Metrics e of None \<Rightarrow> JNull | Some ms \<Rightarrow> JArr (map JStr ms)),
     (''ip_address'', JStr (IPAddress e))]"

definition marshal_event :: "event \<Rightarrow> bytes" where
  "marshal_event e = json_render (event_to_json e)"

section \<open>The subject\<close>

definition defaultAuditBufSize :: nat where
  "defaultAuditBufSize = 256"

text \<open>
  \<open>s_work\<close> is the event the dispatcher holds with the index of the next observer, \<open>s_done\<close> that it
  has returned. Observers are numbered in registration order.
\<close>

record subject =
  s_observers :: nat
  s_ch :: "event chan"
  s_work :: "(event \<times> nat) option"
  s_done :: bool
  s_accepted :: "event list"
  s_dropped :: "event list"
  s_seen :: "(nat \<times> event) list"

definition NewSubject :: "nat \<Rightarrow> subject" where
  "NewSubject n = \<lparr>s_observers = n, s_ch = make_chan defaultAuditBufSize, s_work = None, s_done = False,
     s_accepted = [], s_dropped = [], s_seen = []\<rparr>"

text \<open>\<open>Subject.Notify\<close>; \<open>None\<close> is the panic of a send on a closed channel.\<close>

definition Notify :: "event \<Rightarrow> subject \<Rightarrow> subject option" where
  "Notify e s =
     (case chan_send e (s_ch s) of
        Sent c \<Rightarrow> Some (s\<lparr>s_ch := c, s_accepted := s_accepted s @ [e]\<rparr>)
      | WouldBlock \<Rightarrow> Some (s\<lparr>s_dropped := s_dropped s @ [e]\<rparr>)
      | SendPanic \<Rightarrow> None)"

text \<open>One step of \<open>dispatch\<close>: take an event, hand it to the next observer, go on, or return.\<close>

definition dispatch_step :: "subject \<Rightarrow> subject option" where
  "dispatch_step s =
     (if s_done s then None
      else (case s_work s of
              Some (e, i) \<Rightarrow>
                if i < s_observers s
                then Some (s\<lparr>s_seen := s_seen s @ [(i, e)], s_work := Some (e, Suc i)\<rparr>)
                else Some (s\<lparr>s_work := None\<rparr>)
            | None \<Rightarrow>
                (case chan_recv (s_ch s) of
                   Received e c \<Rightarrow> Some (s\<lparr>s_ch := c, s_work := Some (e, 0)\<rparr>)
                 | ChanClosed \<Rightarrow> Some (s\<lparr>s_done := True\<rparr>)
                 | RecvBlock \<Rightarrow> None)))"

text \<open>\<open>Close\<close> closes the channel and then waits until \<open>s_done\<close>.\<close>

definition close_subject :: "subject \<Rightarrow> subject option" where
  "close_subject s = (case chan_close (s_ch s) of None \<Rightarrow> None | Some c \<Rightarrow> Some (s\<lparr>s_ch := c\<rparr>))"

inductive audit_step :: "subject \<Rightarrow> subject \<Rightarrow> bool" where
  notify: "Notify e s = Some s' \<Longrightarrow> audit_step s s'"
| dispatch: "dispatch_step s = Some s' \<Longrightarrow> audit_step s s'"
| close: "close_subject s = Some s' \<Longrightarrow> audit_step s s'"

inductive_cases audit_stepE: "audit_step s s'"

definition audit_reachable :: "nat \<Rightarrow> subject \<Rightarrow> bool" where
  "audit_reachable n s \<longleftrightarrow> audit_step\<^sup>*\<^sup>* (NewSubject n) s"

section \<open>The invariant\<close>

definition deliveries :: "nat \<Rightarrow> event list \<Rightarrow> (nat \<times> event) list" where
  "deliveries n es = concat (map (\<lambda>e. map (\<lambda>i. (i, e)) [0..<n]) es)"

definition held :: "subject \<Rightarrow> event list" where
  "held s = (case s_work s of None \<Rightarrow> [] | Some (e, _) \<Rightarrow> [e])"

definition partial :: "subject \<Rightarrow> (nat \<times> event) list" where
  "partial s = (case s_work s of None \<Rightarrow> [] | Some (e, i) \<Rightarrow> map (\<lambda>j. (j, e)) [0..<i])"

definition audit_inv :: "nat \<Rightarrow> event list \<Rightarrow> subject \<Rightarrow> bool" where
  "audit_inv n finished s \<longleftrightarrow>
     s_observers s = n
     \<and> s_accepted s = (finished @ held s) @ ch_buf (s_ch s)
     \<and> s_seen s = deliveries n finished @ partial s
     \<and> length (ch_buf (s_ch s)) \<le> ch_cap (s_ch s) \<and> ch_cap (s_ch s) = 256
     \<and> (\<forall>e i. s_work s = Some (e, i) \<longrightarrow> i \<le> n)
     \<and> (s_done s \<longrightarrow> ch_closed (s_ch s) \<and> s_work s = None \<and> ch_buf (s_ch s) = [])"

lemma deliveries_append [simp]: "deliveries n (es @ fs) = deliveries n es @ deliveries n fs"
  by (simp add: deliveries_def)

lemma audit_inv_new: "audit_inv n [] (NewSubject n)"
  by (simp add: audit_inv_def NewSubject_def held_def partial_def deliveries_def make_chan_def
      defaultAuditBufSize_def)

lemma Notify_cases:
  assumes "Notify e s = Some s'"
  obtains (accepted) c where "\<not> ch_closed (s_ch s)" "chan_put e (s_ch s) = Some c"
      "s' = s\<lparr>s_ch := c, s_accepted := s_accepted s @ [e]\<rparr>"
  | (dropped) "\<not> ch_closed (s_ch s)" "ch_cap (s_ch s) \<le> length (ch_buf (s_ch s))"
      "s' = s\<lparr>s_dropped := s_dropped s @ [e]\<rparr>"
proof (cases "length (ch_buf (s_ch s)) < ch_cap (s_ch s)")
  case True
  then show ?thesis
    using assms by (intro accepted) (auto simp: Notify_def chan_put_def chan_send_def split: if_splits)
next
  case False
  then show ?thesis
    using assms by (intro dropped) (auto simp: Notify_def chan_send_def split: if_splits)
qed

lemma audit_inv_notify:
  assumes "audit_inv n fin s" "Notify e s = Some s'"
  shows "audit_inv n fin s'"
  using assms(2)
proof (cases rule: Notify_cases)
  case (accepted c)
  have h: "s_accepted s = (fin @ held s) @ ch_buf (s_ch s)" "length (ch_buf (s_ch s)) \<le> ch_cap (s_ch s)"
    using assms(1) by (simp_all add: audit_inv_def)
  have "s_accepted s @ [e] = (fin @ held s) @ ch_buf c \<and> length (ch_buf c) \<le> ch_cap c
      \<and> ch_cap c = ch_cap (s_ch s) \<and> \<not> ch_closed c"
    by (rule ch.put_keeps_order [OF accepted(1) h accepted(2)])
  with assms(1) accepted(1,3) show ?thesis by (simp add: audit_inv_def held_def partial_def)
next
  case dropped
  with assms(1) show ?thesis by (simp add: audit_inv_def held_def partial_def)
qed

lemma audit_inv_dispatch:
  assumes "audit_inv n fin s" "dispatch_step s = Some s'"
  shows "\<exists>fin'. audit_inv n fin' s'"
proof (cases "s_work s")
  case (Some w)
  obtain e i where w: "s_work s = Some (e, i)" using Some by (cases w) simp
  show ?thesis
  proof (cases "i < s_observers s")
    case True
    with assms w have "audit_inv n fin s'"
      by (auto simp: audit_inv_def dispatch_step_def held_def partial_def)
    then show ?thesis ..
  next
    case False
    with assms(1) w have "i = n" by (force simp: audit_inv_def)
    with False assms w have "audit_inv n (fin @ [e]) s'"
      by (auto simp: audit_inv_def dispatch_step_def held_def partial_def deliveries_def)
    then show ?thesis ..
  qed
next
  case None
  then consider (taken) e c where "chan_take (s_ch s) = Some (e, c)" "s' = s\<lparr>s_ch := c, s_work := Some (e, 0)\<rparr>"
    | (ended) "ch_buf (s_ch s) = []" "ch_closed (s_ch s)" "s' = s\<lparr>s_done := True\<rparr>"
    using assms(2)
    by (auto simp: dispatch_step_def chan_take_def chan_recv_def split: if_splits list.splits)
  then have "audit_inv n fin s'"
  proof cases
    case taken
    have "s_accepted s = fin @ ch_buf (s_ch s)" using assms(1) None by (simp add: audit_inv_def held_def)
    from ch.take_keeps_order [OF this taken(1)] assms None taken(2) show ?thesis
      by (auto simp: audit_inv_def held_def partial_def dispatch_step_def)
  next
    case ended
    with assms(1) None show ?thesis by (simp add: audit_inv_def held_def partial_def)
  qed
  then show ?thesis ..
qed

lemma audit_inv_close:
  "audit_inv n fin s \<Longrightarrow> close_subject s = Some s' \<Longrightarrow> audit_inv n fin s'"
  by (auto simp: audit_inv_def close_subject_def chan_close_def held_def partial_def
      split: if_splits option.splits)

lemma audit_inv_reachable:
  assumes "audit_reachable n s"
  shows "\<exists>fin. audit_inv n fin s"
  using assms unfolding audit_reachable_def
proof (induction rule: rtranclp_induct)
  case base
  then show ?case using audit_inv_new by blast
next
  case (step s s')
  then obtain fin where fin: "audit_inv n fin s" by blast
  from step.hyps(2) show ?case
    by (cases rule: audit_stepE)
      (use fin audit_inv_notify audit_inv_dispatch audit_inv_close in blast)+
qed

section \<open>Notify\<close>

text \<open>In every reachable state of the audit subject, \<open>Notify\<close> panics exactly when the subject has
  been closed; otherwise it returns at once, having queued the event if fewer than 256 are waiting and
  dropped it if not, and the queue never holds more than 256.\<close>
lemma audit_notify:
  assumes "audit_reachable n s"
  shows "Notify e s =
      (if ch_closed (s_ch s) then None
       else if length (ch_buf (s_ch s)) < 256
       then Some (s\<lparr>s_ch := (s_ch s)\<lparr>ch_buf := ch_buf (s_ch s) @ [e]\<rparr>, s_accepted := s_accepted s @ [e]\<rparr>)
       else Some (s\<lparr>s_dropped := s_dropped s @ [e]\<rparr>))
    \<and> length (ch_buf (s_ch s)) \<le> 256"
  using audit_inv_reachable [OF assms] by (auto simp: audit_inv_def Notify_def chan_send_def)

definition ping_event :: event where
  "ping_event = \<lparr>TS = 1, Metrics = Some [''Alloc''], IPAddress = ''10.0.0.1''\<rparr>"

lemma audit_notify_witness:
  "Notify ping_event (NewSubject 2) =
     Some ((NewSubject 2)\<lparr>s_ch := (make_chan 256)\<lparr>ch_buf := [ping_event]\<rparr>, s_accepted := [ping_event]\<rparr>)"
  using audit_notify [of 2 "NewSubject 2" ping_event]
  by (simp add: audit_reachable_def NewSubject_def make_chan_def defaultAuditBufSize_def)

section \<open>Delivery\<close>

text \<open>C20: When the dispatcher has returned, every observer has been given every accepted event exactly
  once, event by event in the order of the \<open>Notify\<close> calls and observer by observer.\<close>
theorem audit_all_delivered:
  assumes "audit_reachable n s" and "s_done s"
  shows "s_seen s = deliveries n (s_accepted s)"
  using audit_inv_reachable [OF assms(1)] assms(2) by (auto simp: audit_inv_def held_def partial_def)

text \<open>The dispatcher alone, for at most \<open>k\<close> steps.\<close>

fun drain :: "nat \<Rightarrow> subject \<Rightarrow> subject" where
  "drain 0 s = s"
| "drain (Suc k) s = (case dispatch_step s of None \<Rightarrow> s | Some s' \<Rightarrow> drain k s')"

definition drain_bound :: "subject \<Rightarrow> nat" where
  "drain_bound s = length (ch_buf (s_ch s)) * (s_observers s + 2)
     + (case s_work s of None \<Rightarrow> 0 | Some (e, i) \<Rightarrow> Suc (s_observers s - i)) + (if s_done s then 0 else 1)"

lemma dispatch_step_bound: "dispatch_step s = Some s' \<Longrightarrow> drain_bound s' < drain_bound s"
  by (auto simp: dispatch_step_def drain_bound_def chan_recv_def split: if_splits option.splits list.splits)

lemma dispatch_step_none: "ch_closed (s_ch s) \<Longrightarrow> dispatch_step s = None \<longleftrightarrow> s_done s"
  by (auto simp: dispatch_step_def chan_recv_def split: if_splits option.splits list.splits)

lemma dispatch_step_keeps:
  "dispatch_step s = Some s' \<Longrightarrow> ch_closed (s_ch s') = ch_closed (s_ch s) \<and> s_accepted s' = s_accepted s"
  by (auto simp: dispatch_step_def chan_recv_def split: if_splits option.splits list.splits)

lemma drain_done:
  "ch_closed (s_ch s) \<Longrightarrow> drain_bound s \<le> k \<Longrightarrow> s_done (drain k s) \<and> s_accepted (drain k s) = s_accepted s"
proof (induction k arbitrary: s)
  case 0
  then have "s_done s" by (cases "s_done s") (simp_all add: drain_bound_def)
  then show ?case by simp
next
  case (Suc k)
  show ?case
  proof (cases "dispatch_step s")
    case None
    then show ?thesis using dispatch_step_none [OF Suc.prems(1)] by auto
  next
    case (Some s')
    then show ?thesis
      using Suc.IH [of s'] Suc.prems dispatch_step_bound [OF Some] dispatch_step_keeps [OF Some] by simp
  qed
qed

lemma drain_reachable: "audit_reachable n s \<Longrightarrow> audit_reachable n (drain k s)"
proof (induction k arbitrary: s)
  case (Suc k)
  show ?case
  proof (cases "dispatch_step s")
    case (Some s')
    then have "audit_reachable n s'"
      using Suc.prems audit_step.dispatch unfolding audit_reachable_def by (metis rtranclp.rtrancl_into_rtrancl)
    then show ?thesis using Suc.IH Some by simp
  qed (use Suc.prems in simp)
qed simp

text \<open>C21: \<open>Close\<close> returns, and loses nothing: from any reachable state of a closed subject the dispatcher
  finishes within a number of steps bounded by the events waiting and the number of observers, and then
  every accepted event has reached every observer.\<close>
theorem audit_close_drains:
  assumes "audit_reachable n s" and "ch_closed (s_ch s)"
  shows "s_done (drain (drain_bound s) s)
    \<and> s_seen (drain (drain_bound s) s) = deliveries n (s_accepted s)"
proof -
  have d: "s_done (drain (drain_bound s) s)" "s_accepted (drain (drain_bound s) s) = s_accepted s"
    using drain_done [OF assms(2) order_refl] by simp_all
  have "audit_reachable n (drain (drain_bound s) s)" by (rule drain_reachable [OF assms(1)])
  from audit_inv_reachable [OF this] d show ?thesis by (auto simp: audit_inv_def held_def partial_def)
qed

definition closed_subject :: subject where
  "closed_subject = the (close_subject (the (Notify ping_event (NewSubject 2))))"

lemma closed_subject_reachable:
  "audit_reachable 2 closed_subject \<and> ch_closed (s_ch closed_subject) \<and> s_accepted closed_subject = [ping_event]"
proof -
  obtain s1 where s1: "Notify ping_event (NewSubject 2) = Some s1"
    by (simp add: Notify_def NewSubject_def chan_send_def make_chan_def defaultAuditBufSize_def)
  obtain s2 where s2: "close_subject s1 = Some s2" "s2 = closed_subject"
    using s1 by (auto simp: closed_subject_def Notify_def NewSubject_def chan_send_def make_chan_def
        defaultAuditBufSize_def close_subject_def chan_close_def)
  have "audit_step (NewSubject 2) s1" "audit_step s1 s2"
    using s1 s2 by (auto intro: audit_step.intros)
  then have "audit_reachable 2 closed_subject"
    using s2(2) by (auto simp: audit_reachable_def)
  moreover have "ch_closed (s_ch s2) \<and> s_accepted s2 = [ping_event]"
    using s1 s2(1) by (auto simp: Notify_def NewSubject_def chan_send_def make_chan_def defaultAuditBufSize_def
        close_subject_def chan_close_def)
  ultimately show ?thesis using s2(2) by simp
qed

theorem audit_close_drains_witness:
  "s_seen (drain (drain_bound closed_subject) closed_subject) = [(0, ping_event), (1, ping_event)]"
  using audit_close_drains [of 2 closed_subject] closed_subject_reachable
  by (simp add: deliveries_def upt_rec)

theorem audit_all_delivered_witness:
  "s_seen (drain (drain_bound closed_subject) closed_subject)
     = deliveries 2 (s_accepted (drain (drain_bound closed_subject) closed_subject))"
  using drain_done [of closed_subject "drain_bound closed_subject"] closed_subject_reachable
  by (intro audit_all_delivered drain_reachable) simp_all

end
