(* ===== verification/Handlers.thy ===== *)
theory Handlers
  imports Storage_Contract Metrics_Json Audit_Subject Middleware
begin

text \<open>
  \<open>internal/handler/handlers.go\<close>: every handler on the pair of the storage's state and the audit
  subject's state, in terms of the storage interface, the audit's \<open>Notify\<close> and the response calls.
  What the handlers take from libraries is collected in a record \<open>platform\<close>.
\<close>

section \<open>The platform\<close>

text \<open>
  Number formatting, HMAC-SHA256, gzip, the text of an error, the text of a JSON decoding error, and the
  executed dashboard template as the chunks it writes.
\<close>

record platform =
  pf_float :: float_text
  pf_mac :: "bytes \<Rightarrow> bytes \<Rightarrow> bytes"
  pf_gzip :: gzip_lib
  pf_error :: "go_error \<Rightarrow> string"
  pf_json_error :: "stream \<Rightarrow> string"
  pf_dashboard :: "(string \<rightharpoonup> float64) \<Rightarrow> (string \<rightharpoonup> int64) \<Rightarrow> bytes list"

text \<open>
  \<open>json.NewDecoder(r).Decode\<close> on a stream: a value that is complete before the stream's error is
  delivered when its end shows in its text (an object or an array); a bare scalar needs the end of the
  stream.
\<close>

definition self_delimiting :: "bytes \<Rightarrow> bool" where
  "self_delimiting b \<longleftrightarrow> (case skip_ws b of [] \<Rightarrow> False | c # _ \<Rightarrow> c = CHR ''{'' \<or> c = CHR ''['')"

definition decode_stream :: "(bytes \<Rightarrow> 'v option) \<Rightarrow> stream \<Rightarrow> 'v option" where
  "decode_stream dec s =
     (case s of
        (b, None) \<Rightarrow> dec b
      | (b, Some e) \<Rightarrow> if self_delimiting b then dec b else None)"

section \<open>The client's address\<close>

fun index_byte :: "char \<Rightarrow> string \<Rightarrow> nat option" where
  "index_byte c [] = None"
| "index_byte c (d # s) = (if d = c then Some 0 else map_option Suc (index_byte c s))"

fun last_index_byte :: "char \<Rightarrow> string \<Rightarrow> nat option" where
  "last_index_byte c [] = None"
| "last_index_byte c (d # s) =
     (case last_index_byte c s of Some i \<Rightarrow> Some (Suc i) | None \<Rightarrow> if d = c then Some 0 else None)"

text \<open>\<open>net.SplitHostPort\<close>, the host only; \<open>None\<close> is its error.\<close>

definition split_host_port :: "string \<Rightarrow> string option" where
  "split_host_port hp =
     (case last_index_byte (CHR '':'') hp of
        None \<Rightarrow> None
      | Some i \<Rightarrow>
          if take 1 hp = ''['' then
            (case index_byte (CHR '']'') hp of
               None \<Rightarrow> None
             | Some e \<Rightarrow>
                 if Suc e \<noteq> i then None
                 else if CHR ''['' \<in> set (drop 1 hp) \<or> CHR '']'' \<in> set (drop (Suc e) hp) then None
                 else Some (drop 1 (take e hp)))
          else if CHR '':'' \<in> set (take i hp) \<or> CHR ''['' \<in> set hp \<or> CHR '']'' \<in> set hp then None
          else Some (take i hp))"

definition extractIP :: "request \<Rightarrow> string" where
  "extractIP r =
     (if req_header r ''X-Real-IP'' \<noteq> '''' then req_header r ''X-Real-IP''
      else if req_header r ''X-Forwarded-For'' \<noteq> '''' then
        (let fwd = req_header r ''X-Forwarded-For'' in
         case index_byte (CHR '','') fwd of Some i \<Rightarrow> take i fwd | None \<Rightarrow> fwd)
      else (case split_host_port (r_remote r) of None \<Rightarrow> r_remote r | Some host \<Rightarrow> host))"

section \<open>The handlers\<close>

record ('s, 'a) handlers =
  h_storage :: "'s storage_ops"
  h_key :: string
  h_audit :: "(event \<Rightarrow> 'a \<Rightarrow> 'a) option"

definition NewHandlers :: "'s storage_ops \<Rightarrow> string \<Rightarrow> (event \<Rightarrow> 'a \<Rightarrow> 'a) option \<Rightarrow> ('s, 'a) handlers" where
  "NewHandlers storage key auditSubject =
     \<lparr>h_storage = storage, h_key = key, h_audit = auditSubject\<rparr>"

definition notifyAudit :: "('s, 'a) handlers \<Rightarrow> request \<Rightarrow> string list \<Rightarrow> 'a \<Rightarrow> 'a" where
  "notifyAudit h r metricNames a =
     (case h_audit h of
        None \<Rightarrow> a
      | Some notify \<Rightarrow> notify \<lparr>TS = r_now r, Metrics = Some metricNames, IPAddress = extractIP r\<rparr> a)"

definition writeSignedResponse :: "platform \<Rightarrow> bytes \<Rightarrow> string \<Rightarrow> wcall list" where
  "writeSignedResponse pf body key =
     (if key \<noteq> '''' then [SetHeader ''HashSHA256'' (ComputeHMAC (pf_mac pf) body key)] else [])
     @ [WriteHeader 200, Write body]"

definition json_response :: "platform \<Rightarrow> bytes \<Rightarrow> string \<Rightarrow> wcall list" where
  "json_response pf body key = SetHeader ''Content-Type'' ''application/json'' # writeSignedResponse pf body key"

definition PingHandler :: "('s, 'a) handlers \<Rightarrow> ('s \<times> 'a) handler" where
  "PingHandler h r w =
     (case op_Ping (h_storage h) (fst w) of
        (Some err, s) \<Rightarrow> (http_Error ''Database unavailable'' 500, (s, snd w))
      | (None, s) \<Rightarrow> ([WriteHeader 200], (s, snd w)))"

text \<open>The common end of the value handler: marshal the metric that has been found and sign it.\<close>

definition value_response :: "platform \<Rightarrow> string \<Rightarrow> metrics \<Rightarrow> wcall list" where
  "value_response pf key req =
     (case marshal_metric (pf_float pf) req of
        None \<Rightarrow> http_Error ''marshal error'' 500
      | Some body \<Rightarrow> json_response pf body key)"

definition valueMetricJSONHandler :: "platform \<Rightarrow> ('s, 'a) handlers \<Rightarrow> ('s \<times> 'a) handler" where
  "valueMetricJSONHandler pf h r w =
     (case decode_stream (decode_metric (pf_float pf)) (r_body r) of
        None \<Rightarrow> (http_Error ''Invalid JSON'' 400, w)
      | Some req \<Rightarrow>
          if MType req = TypeGauge then
            (case op_GetGauge (h_storage h) (ID req) (fst w) of
               ((value, Some err), s) \<Rightarrow> (http_Error ''Metric not found'' 404, (s, snd w))
             | ((value, None), s) \<Rightarrow> (value_response pf (h_key h) (req\<lparr>Value := Some value\<rparr>), (s, snd w)))
          else if MType req = TypeCounter then
            (case op_GetCounter (h_storage h) (ID req) (fst w) of
               ((value, Some err), s) \<Rightarrow> (http_Error ''Metric not found'' 404, (s, snd w))
             | ((value, None), s) \<Rightarrow> (value_response pf (h_key h) (req\<lparr>Delta := Some value\<rparr>), (s, snd w)))
          else (http_Error ''Invalid metric type'' 400, w))"

text \<open>\<open>decodeBody\<close>: a body that is still marked as gzip is decompressed here.\<close>

definition decodeBody :: "platform \<Rightarrow> (bytes \<Rightarrow> 'v option) \<Rightarrow> request \<Rightarrow> string + 'v" where
  "decodeBody pf dec r =
     (if req_header r ''Content-Encoding'' = ''gzip'' then
        (case gz_reader (pf_gzip pf) (r_body r) of
           Inl err \<Rightarrow> Inl (pf_error pf err)
         | Inr gz \<Rightarrow> (case decode_stream dec gz of None \<Rightarrow> Inl (pf_json_error pf gz) | Some v \<Rightarrow> Inr v))
      else
        (case decode_stream dec (r_body r) of
           None \<Rightarrow> Inl (pf_json_error pf (r_body r)) | Some v \<Rightarrow> Inr v))"

definition BatchUpdateMetrics :: "platform \<Rightarrow> ('s, 'a) handlers \<Rightarrow> ('s \<times> 'a) handler" where
  "BatchUpdateMetrics pf h r w =
     (case decodeBody pf (decode_list (pf_float pf)) r of
        Inl err \<Rightarrow> (http_Error err 400, w)
      | Inr metrics \<Rightarrow>
          if metrics = [] then (http_Error ''empty metrics batch'' 400, w)
          else
            (case op_BatchUpdate (h_storage h) metrics (fst w) of
               (Some err, s) \<Rightarrow> (http_Error (pf_error pf err) 500, (s, snd w))
             | (None, s) \<Rightarrow>
                 ([WriteHeader 200], (s, notifyAudit h r (map ID metrics) (snd w)))))"

text \<open>The common end of the update handler: the audit is notified only when the answer can be marshalled.\<close>

definition update_response ::
    "platform \<Rightarrow> ('s, 'a) handlers \<Rightarrow> request \<Rightarrow> metrics \<Rightarrow> 's \<Rightarrow> 'a \<Rightarrow> wcall list \<times> ('s \<times> 'a)" where
  "update_response pf h r metric s a =
     (case marshal_metric (pf_float pf) metric of
        None \<Rightarrow> (http_Error ''marshal error'' 500, (s, a))
      | Some body \<Rightarrow> (json_response pf body (h_key h), (s, notifyAudit h r [ID metric] a)))"

definition updateMetricJSONHandler :: "platform \<Rightarrow> ('s, 'a) handlers \<Rightarrow> ('s \<times> 'a) handler" where
  "updateMetricJSONHandler pf h r w =
     (case decode_stream (decode_metric (pf_float pf)) (r_body r) of
        None \<Rightarrow> (http_Error ''Invalid JSON'' 400, w)
      | Some metric \<Rightarrow>
          if MType metric = TypeGauge then
            (case Value metric of
               None \<Rightarrow> (http_Error ''Missing value for gauge'' 400, w)
             | Some v \<Rightarrow>
                 (case op_GetGauge (h_storage h) (ID metric)
                         (op_UpdateGauge (h_storage h) (ID metric) v (fst w)) of
                    ((val, _), s) \<Rightarrow> update_response pf h r (metric\<lparr>Value := Some val\<rparr>) s (snd w)))
          else if MType metric = TypeCounter then
            (case Delta metric of
               None \<Rightarrow> (http_Error ''Missing delta for counter'' 400, w)
             | Some d \<Rightarrow>
                 (case op_GetCounter (h_storage h) (ID metric)
                         (op_UpdateCounter (h_storage h) (ID metric) d (fst w)) of
                    ((delta, _), s) \<Rightarrow> update_response pf h r (metric\<lparr>Delta := Some delta\<rparr>) s (snd w)))
          else (http_Error ''Invalid metric type'' 400, w))"

definition unknown_type_message :: string where
  "unknown_type_message = ''Unknown metric type. Use '' @ [CHR 0x27] @ ''gauge'' @ [CHR 0x27] @ '' or ''
     @ [CHR 0x27] @ ''counter'' @ [CHR 0x27]"

text \<open>\<open>updateMetric\<close> also returns whether it succeeded.\<close>

definition ok_response :: "wcall list" where
  "ok_response = [SetHeader ''Content-Type'' ''text/plain; charset=utf-8'', WriteHeader 200,
     Write (''OK'' @ [CHR 0x0A])]"

definition updateMetric ::
    "platform \<Rightarrow> ('s, 'a) handlers \<Rightarrow> string \<Rightarrow> string \<Rightarrow> string \<Rightarrow> 's \<Rightarrow> bool \<times> wcall list \<times> 's" where
  "updateMetric pf h metricType metricName metricValue s =
     (if metricType = ''gauge'' then
        (case ft_parse (pf_float pf) metricValue of
           None \<Rightarrow> (False, http_Error ''Invalid gauge value'' 400, s)
         | Some v \<Rightarrow> (True, ok_response, op_UpdateGauge (h_storage h) metricName v s))
      else if metricType = ''counter'' then
        (case parse_int metricValue of
           None \<Rightarrow> (False, http_Error ''Invalid counter value'' 400, s)
         | Some v \<Rightarrow> (True, ok_response, op_UpdateCounter (h_storage h) metricName v s))
      else (False, http_Error unknown_type_message 400, s))"

definition updateHandlerChi :: "platform \<Rightarrow> ('s, 'a) handlers \<Rightarrow> ('s \<times> 'a) handler" where
  "updateHandlerChi pf h r w =
     (case updateMetric pf h (r_params r ''type'') (r_params r ''name'') (r_params r ''value'') (fst w) of
        (True, calls, s) \<Rightarrow> (calls, (s, notifyAudit h r [r_params r ''name''] (snd w)))
      | (False, calls, s) \<Rightarrow> (calls, (s, snd w)))"

definition text_plain :: wcall where
  "text_plain = SetHeader ''Content-Type'' ''text/plain; charset=utf-8''"

definition valueHandler :: "platform \<Rightarrow> ('s, 'a) handlers \<Rightarrow> ('s \<times> 'a) handler" where
  "valueHandler pf h r w =
     (let metricType = r_params r ''type''; metricName = r_params r ''name'' in
      if metricType = ''gauge'' then
        (case op_GetGauge (h_storage h) metricName (fst w) of
           ((value, Some err), s) \<Rightarrow> (text_plain # http_Error ''Metric not found'' 404, (s, snd w))
         | ((value, None), s) \<Rightarrow> ([text_plain, Write (ft_g (pf_float pf) value)], (s, snd w)))
      else if metricType = ''counter'' then
        (case op_GetCounter (h_storage h) metricName (fst w) of
           ((value, Some err), s) \<Rightarrow> (text_plain # http_Error ''Metric not found'' 404, (s, snd w))
         | ((value, None), s) \<Rightarrow> ([text_plain, Write (format_int (sint value))], (s, snd w)))
      else (text_plain # http_Error unknown_type_message 404, w))"

text \<open>\<open>gs\<close> and \<open>cs\<close> are the orders in which the storage visits its two maps.\<close>

definition rootHandler :: "platform \<Rightarrow> string list \<Rightarrow> string list \<Rightarrow> ('s, 'a) handlers \<Rightarrow> ('s \<times> 'a) handler" where
  "rootHandler pf gs cs h r w =
     (case op_GetAllMetrics (h_storage h) gs cs (fst w) of
        ((g, c), s) \<Rightarrow>
          (SetHeader ''Content-Type'' ''text/html; charset=utf-8'' # WriteHeader 200
             # map Write (pf_dashboard pf g c), (s, snd w)))"

section \<open>The routes\<close>

definition RegisterRoutes ::
    "platform \<Rightarrow> string list \<Rightarrow> string list \<Rightarrow> ('s, 'a) handlers \<Rightarrow> (string \<times> string \<times> ('s \<times> 'a) handler) list" where
  "RegisterRoutes pf gs cs h =
     [(''POST'', ''/update'', updateMetricJSONHandler pf h),
      (''POST'', ''/value'', valueMetricJSONHandler pf h),
      (''POST'', ''/updates'', BatchUpdateMetrics pf h),
      (''POST'', ''/update/{type}/{name}/{value}'', updateHandlerChi pf h),
      (''POST'', ''/update/{type}/{name}'', \<lambda>r w. (http_Error ''metric value is required'' 404, w)),
      (''POST'', ''/update/{type}'', \<lambda>r w. (http_Error ''metric name is required'' 404, w)),
      (''GET'', ''/value/{type}/{name}'', valueHandler pf h),
      (''GET'', ''/'', rootHandler pf gs cs h),
      (''GET'', ''/ping'', PingHandler h)]"

text \<open>
  chi's matching of a request against the registered methods and patterns is a parameter; it yields the
  index of a route and the URL parameters, or answers the request itself.
\<close>

datatype chi_match = Matched nat "string \<Rightarrow> string" | Refused "wcall list"

definition serve_routes ::
    "((string \<times> string) list \<Rightarrow> request \<Rightarrow> chi_match)
      \<Rightarrow> (string \<times> string \<times> 'w handler) list \<Rightarrow> 'w handler" where
  "serve_routes chi routes r w =
     (case chi (map (\<lambda>(m, p, h). (m, p)) routes) r of
        Matched i ps \<Rightarrow> snd (snd (routes ! i)) (r\<lparr>r_params := ps\<rparr>) w
      | Refused calls \<Rightarrow> (calls, w))"

end
