(* ===== verification/Router.thy ===== *)
theory Router
  imports Handlers
begin

text \<open>
  How \<open>cmd/server/main.go\<close> stacks the middlewares around the routes. \<open>StripSlashes\<close> and \<open>Recoverer\<close> of chi
  are parameters (they are the identity on requests without a trailing slash and on handlers that do not
  panic, which is all the properties use); the rest is the program's own.
\<close>

text \<open>
  What \<open>run\<close> configures: the private key loaded when CRYPTO_KEY is set, the trusted subnet, the signing
  key.
\<close>

record ('priv, 'ip) chain_config =
  cc_privKey :: "'priv option"
  cc_subnet :: "('ip \<Rightarrow> bool) option"
  cc_key :: string

definition inner_chain ::
    "platform \<Rightarrow> ('pub, 'priv) suite \<Rightarrow> (string \<Rightarrow> 'ip option) \<Rightarrow> ('priv, 'ip) chain_config
      \<Rightarrow> 'w handler \<Rightarrow> 'w handler" where
  "inner_chain pf su parse_ip cfg routes =
     (let sha = (if cc_key cfg \<noteq> '''' then NewSHA256CheckMiddleware (pf_mac pf) (cc_key cfg) routes else routes);
          gz = GzipMiddleware (pf_gzip pf) sha;
          subnet = TrustedSubnetMiddleware parse_ip (cc_subnet cfg) gz
      in (case cc_privKey cfg of
            None \<Rightarrow> subnet
          | Some key \<Rightarrow> DecryptMiddleware (pf_gzip pf) su (Some key) subnet))"

definition server_chain ::
    "('w handler \<Rightarrow> 'w handler) \<Rightarrow> (('w \<times> log_entry list) handler \<Rightarrow> ('w \<times> log_entry list) handler)
      \<Rightarrow> platform \<Rightarrow> ('pub, 'priv) suite \<Rightarrow> (string \<Rightarrow> 'ip option) \<Rightarrow> ('priv, 'ip) chain_config
      \<Rightarrow> 'w handler \<Rightarrow> ('w \<times> log_entry list) handler" where
  "server_chain recoverer strip_slashes pf su parse_ip cfg routes =
     strip_slashes (LoggingMiddleware (recoverer (inner_chain pf su parse_ip cfg routes)))"

section \<open>The second router\<close>

text \<open>\<open>internal/server/server.go\<close>: chi's own middlewares around the ping route alone.\<close>

record 'w http_server =
  srv_router :: "'w handler"

definition NewServer ::
    "(('s \<times> 'a) handler \<Rightarrow> ('s \<times> 'a) handler) \<Rightarrow> (('s \<times> 'a) handler \<Rightarrow> ('s \<times> 'a) handler)
      \<Rightarrow> (('s \<times> 'a) handler \<Rightarrow> ('s \<times> 'a) handler)
      \<Rightarrow> ((string \<times> string) list \<Rightarrow> request \<Rightarrow> chi_match) \<Rightarrow> ('s, 'a) handlers \<Rightarrow> ('s \<times> 'a) http_server" where
  "NewServer logger recoverer request_id chi h =
     \<lparr>srv_router = logger (recoverer (request_id (serve_routes chi [(''GET'', ''/ping'', PingHandler h)])))\<rparr>"

definition server_ServeHTTP :: "'w http_server \<Rightarrow> 'w handler" where
  "server_ServeHTTP s r w = srv_router s r w"

text \<open>With middlewares that pass a request on, a request the router matches gets the answer of the ping handler.\<close>

lemma second_router_pings:
  assumes "\<And>hd. logger hd r = hd r" "\<And>hd. recoverer hd r = hd r" "\<And>hd. request_id hd r = hd r"
    and "chi [(''GET'', ''/ping'')] r = Matched 0 params"
  shows "server_ServeHTTP (NewServer logger recoverer request_id chi h) r w = PingHandler h (r\<lparr>r_params := params\<rparr>) w"
  using assms by (simp add: server_ServeHTTP_def NewServer_def serve_routes_def)

end
