(* ===== verification/Persistence.thy ===== *)
theory Persistence
  imports Storage_Facts Metrics_Json
begin

text \<open>
  The file snapshot of \<open>cmd/server/main.go\<close>: \<open>saveMetrics\<close>, \<open>loadMetrics\<close>, \<open>dirOf\<close> and the
  write-through backend \<open>syncStorage\<close>. The file system is a map from paths to contents; every
  system call may fail, as an \<open>io_plan\<close> chosen by the environment says. A save returns the
  list of file-system states it goes through, so that killing the process at any moment is
  stopping at one of them.
\<close>

type_synonym file_system = "string \<rightharpoonup> bytes"

record io_plan =
  create_ok :: bool
  write_ok :: bool
  written :: nat
  close_ok :: bool
  rename_ok :: bool
  remove_ok :: bool
  rand_part :: string
  gauge_order :: "(string \<rightharpoonup> float64) \<Rightarrow> string list"
  counter_order :: "(string \<rightharpoonup> int64) \<Rightarrow> string list"

text \<open>The runtime ranges over each map completely.\<close>

definition ranges_ok :: "io_plan \<Rightarrow> mem_store \<Rightarrow> bool" where
  "ranges_ok p m \<longleftrightarrow> visits (gauges m) (gauge_order p (gauges m))
     \<and> visits (counters m) (counter_order p (counters m))"

definition io_good :: "io_plan \<Rightarrow> bool" where
  "io_good p \<longleftrightarrow> create_ok p \<and> write_ok p \<and> close_ok p \<and> rename_ok p"

section \<open>Temporary names\<close>

text \<open>\<open>dirOf\<close> scans from the end for a separator; the loop counts \<open>i\<close> down.\<close>

fun dir_scan :: "string \<Rightarrow> nat \<Rightarrow> string" where
  "dir_scan path 0 = ''.''"
| "dir_scan path (Suc i) =
     (if path ! i = CHR ''/'' \<or> path ! i = CHR 0x5C then take i path else dir_scan path i)"

definition dirOf :: "string \<Rightarrow> string" where
  "dirOf path = dir_scan path (length path)"

text \<open>\<open>os.CreateTemp\<close>: an empty directory means the system's directory for temporary files.\<close>

definition temp_dir :: string where
  "temp_dir = ''/tmp''"

definition create_temp_name :: "string \<Rightarrow> string \<Rightarrow> string" where
  "create_temp_name dir rnd =
     (let d = (if dir = '''' then temp_dir else dir)
      in (if last d = CHR ''/'' then d else d @ ''/'') @ ''metrics-'' @ rnd @ ''.tmp'')"

section \<open>Saving\<close>

definition snapshot_list :: "io_plan \<Rightarrow> mem_store \<Rightarrow> metrics list" where
  "snapshot_list p store =
     (case fst (mem_GetAllMetrics (gauge_order p (gauges store)) (counter_order p (counters store)) store)
      of (gs, cs) \<Rightarrow>
        map (\<lambda>(id, v). gauge_metric id v) (range_pairs gs (gauge_order p gs))
        @ map (\<lambda>(id, d). counter_metric id d) (range_pairs cs (counter_order p cs)))"

definition remove_file :: "io_plan \<Rightarrow> string \<Rightarrow> file_system \<Rightarrow> file_system" where
  "remove_file p name fs = (if remove_ok p then fs(name := None) else fs)"

text \<open>The states while \<open>n\<close> of the bytes of \<open>data\<close> reach the temporary file.\<close>

definition write_states :: "string \<Rightarrow> bytes \<Rightarrow> nat \<Rightarrow> file_system \<Rightarrow> file_system list" where
  "write_states tmp data n fs = map (\<lambda>k. fs(tmp \<mapsto> take k data)) [0..<Suc n]"

definition saveMetrics ::
    "float_text \<Rightarrow> io_plan \<Rightarrow> string \<Rightarrow> mem_store \<Rightarrow> file_system
      \<Rightarrow> go_error option \<times> file_system list" where
  "saveMetrics ft p path store fs =
     (case marshal_list ft (snapshot_list p store) of
        None \<Rightarrow> (Some (ErrOther ''json: unsupported value''), [fs])
      | Some data \<Rightarrow>
          (let tmp = create_temp_name (dirOf path) (rand_part p) in
           if \<not> create_ok p \<or> fs tmp \<noteq> None then
             (Some (ErrWrap ''create temp file'' (ErrOther ''open'')), [fs])
           else if \<not> write_ok p then
             (let ws = write_states tmp data (min (written p) (length data)) fs in
              (Some (ErrWrap ''write temp file'' (ErrOther ''write'')),
               fs # ws @ [remove_file p tmp (last ws)]))
           else
             (let ws = write_states tmp data (length data) fs; full = fs(tmp \<mapsto> data) in
              if \<not> close_ok p then
                (Some (ErrWrap ''close temp file'' (ErrOther ''close'')),
                 fs # ws @ [remove_file p tmp full])
              else if \<not> rename_ok p then
                (Some (ErrWrap ''rename temp file'' (ErrOther ''rename'')),
                 fs # ws @ [remove_file p tmp full])
              else
                (None, fs # ws @ [full(tmp := None, path \<mapsto> data)]))))"

section \<open>Loading\<close>

datatype read_outcome = NotExist | ReadFailed | Content bytes

definition read_file :: "bool \<Rightarrow> string \<Rightarrow> file_system \<Rightarrow> read_outcome" where
  "read_file readable path fs =
     (case fs path of None \<Rightarrow> NotExist | Some b \<Rightarrow> if readable then Content b else ReadFailed)"

fun load_loop :: "metrics list \<Rightarrow> mem_store \<Rightarrow> mem_store" where
  "load_loop [] store = store"
| "load_loop (m # ms) store =
     load_loop ms
       (if MType m = TypeGauge then
          (case Value m of None \<Rightarrow> store | Some v \<Rightarrow> mem_UpdateGauge (ID m) v store)
        else if MType m = TypeCounter then
          (case Delta m of None \<Rightarrow> store | Some d \<Rightarrow> mem_UpdateCounter (ID m) d store)
        else store)"

definition loadMetrics ::
    "float_text \<Rightarrow> bool \<Rightarrow> string \<Rightarrow> file_system \<Rightarrow> mem_store \<Rightarrow> go_error option \<times> mem_store" where
  "loadMetrics ft readable path fs store =
     (case read_file readable path fs of
        NotExist \<Rightarrow> (None, store)
      | ReadFailed \<Rightarrow> (Some (ErrOther ''read''), store)
      | Content data \<Rightarrow>
          (case unmarshal_list ft data of
             None \<Rightarrow> (Some (ErrOther ''json''), store)
           | Some ms \<Rightarrow> (None, load_loop ms store)))"

lemma load_loop_fold: "load_loop ms store = fold mem_apply ms store"
  by (induction ms arbitrary: store) (simp_all add: mem_apply_def)

section \<open>Write-through storage\<close>

text \<open>
  \<open>syncStorage\<close> embeds \<open>MetricsStorage\<close> and overrides the three writes; reads go to the
  embedded store. \<open>sv_plan n\<close> is the environment's plan for the \<open>n\<close>-th save. The errors of
  the saves are dropped, as the code does.
\<close>

record sync_state =
  inner :: mem_store
  disk :: file_system
  saves :: nat

definition sync_save :: "float_text \<Rightarrow> (nat \<Rightarrow> io_plan) \<Rightarrow> string \<Rightarrow> sync_state \<Rightarrow> sync_state" where
  "sync_save ft plan path s =
     s\<lparr>disk := last (snd (saveMetrics ft (plan (saves s)) path (inner s) (disk s))),
       saves := Suc (saves s)\<rparr>"

definition sync_UpdateGauge ::
    "float_text \<Rightarrow> (nat \<Rightarrow> io_plan) \<Rightarrow> string \<Rightarrow> string \<Rightarrow> float64 \<Rightarrow> sync_state \<Rightarrow> sync_state" where
  "sync_UpdateGauge ft plan path name v s =
     sync_save ft plan path (s\<lparr>inner := mem_UpdateGauge name v (inner s)\<rparr>)"

definition sync_UpdateCounter ::
    "float_text \<Rightarrow> (nat \<Rightarrow> io_plan) \<Rightarrow> string \<Rightarrow> string \<Rightarrow> int64 \<Rightarrow> sync_state \<Rightarrow> sync_state" where
  "sync_UpdateCounter ft plan path name d s =
     sync_save ft plan path (s\<lparr>inner := mem_UpdateCounter name d (inner s)\<rparr>)"

definition sync_BatchUpdate ::
    "float_text \<Rightarrow> (nat \<Rightarrow> io_plan) \<Rightarrow> string \<Rightarrow> metrics list \<Rightarrow> sync_state
      \<Rightarrow> go_error option \<times> sync_state" where
  "sync_BatchUpdate ft plan path ms s =
     (case mem_BatchUpdate ms (inner s) of
        (None, m') \<Rightarrow> (None, sync_save ft plan path (s\<lparr>inner := m'\<rparr>))
      | (Some e, m') \<Rightarrow> (Some e, s\<lparr>inner := m'\<rparr>))"

text \<open>A method promoted from the embedded store.\<close>

definition promote :: "(mem_store \<Rightarrow> 'r \<times> mem_store) \<Rightarrow> sync_state \<Rightarrow> 'r \<times> sync_state" where
  "promote f s = (case f (inner s) of (r, m') \<Rightarrow> (r, s\<lparr>inner := m'\<rparr>))"

definition sync_ops :: "float_text \<Rightarrow> (nat \<Rightarrow> io_plan) \<Rightarrow> string \<Rightarrow> sync_state storage_ops" where
  "sync_ops ft plan path =
     \<lparr>op_UpdateGauge = sync_UpdateGauge ft plan path,
      op_UpdateCounter = sync_UpdateCounter ft plan path,
      op_BatchUpdate = sync_BatchUpdate ft plan path,
      op_GetGauge = (\<lambda>n. promote (mem_GetGauge n)),
      op_GetCounter = (\<lambda>n. promote (mem_GetCounter n)),
      op_GetAllMetrics = (\<lambda>gs cs. promote (mem_GetAllMetrics gs cs)),
      op_Ping = promote mem_Ping, op_Close = promote mem_Close\<rparr>"

lemma sync_save_sel [simp]:
  "inner (sync_save ft plan path s) = inner s"
  "saves (sync_save ft plan path s) = Suc (saves s)"
  by (simp_all add: sync_save_def)

text \<open>
  The contract holds whatever happens to the disk: the laws speak of the embedded store only,
  which is exactly what a client of the interface can observe.
\<close>

interpretation wt: storage_contract "sync_ops ft plan path" "\<lambda>s. mem_abs (inner s)" "\<lambda>_. True" "\<lambda>_. True"
  for ft plan path
proof unfold_locales
  fix s n v k ms gs cs
  let ?o = "sync_ops ft plan path"
  let ?a = "\<lambda>s. mem_abs (inner s)"
  show "?a (op_UpdateGauge ?o n v s) = db_set n v (?a s) \<and> True"
    by (simp add: sync_ops_def sync_UpdateGauge_def store_simps)
  show "add_safe n k (?a s) \<Longrightarrow> ?a (op_UpdateCounter ?o n k s) = db_add n (sint k) (?a s) \<and> True"
    by (simp add: sync_ops_def sync_UpdateCounter_def store_simps)
  show "list_all known_type ms \<Longrightarrow> batch_safe ms (?a s) \<Longrightarrow>
      \<exists>s'. op_BatchUpdate ?o ms s = (None, s') \<and> ?a s' = fold db_apply ms (?a s) \<and> True"
    by (simp add: sync_ops_def sync_BatchUpdate_def mem_batch_known mem_abs_fold)
  show "\<not> list_all known_type ms \<Longrightarrow> fst (op_BatchUpdate ?o ms s) \<noteq> None"
    using mem_batch_unknown [of ms "inner s"]
    by (auto simp: sync_ops_def sync_BatchUpdate_def split: prod.splits option.splits)
  show "op_GetGauge ?o n s = ((case db_gauges (?a s) n of
      None \<Rightarrow> (0, Some ErrMetricNotFound) | Some v \<Rightarrow> (v, None)), s)"
    by (simp add: sync_ops_def promote_def mem_GetGauge_def split: option.splits)
  show "op_GetCounter ?o n s = ((case db_counters (?a s) n of
      None \<Rightarrow> (0, Some ErrMetricNotFound) | Some c \<Rightarrow> (word_of_int c, None)), s)"
    by (simp add: sync_ops_def promote_def mem_GetCounter_def split: option.splits)
  show "visits (db_gauges (?a s)) gs \<Longrightarrow> visits (db_counters (?a s)) cs \<Longrightarrow>
      op_GetAllMetrics ?o gs cs s = ((db_gauges (?a s), map_option word_of_int \<circ> db_counters (?a s)), s)"
    by (simp add: sync_ops_def promote_def mem_GetAllMetrics_def mem_abs_def put_range_pairs_copy)
qed

end
