(* ===== verification/Middleware_Facts.thy ===== *)
theory Middleware_Facts
  imports Middleware
begin

text \<open>
  What the middlewares guarantee: the gzip writer sends exactly one status before any body byte
  and is transparent to a client that decodes, the logging middleware outside it records what the
  client receives, and a rejected request never reaches the next handler.
\<close>

section \<open>One status, then the body\<close>

definition is_status :: "wcall \<Rightarrow> bool" where
  "is_status c \<longleftrightarrow> (case c of WriteHeader _ \<Rightarrow> True | _ \<Rightarrow> False)"

definition committed :: "wcall list \<Rightarrow> bool" where
  "committed calls \<longleftrightarrow> (\<exists>pre c post. calls = pre @ WriteHeader c # post
     \<and> list_all header_op pre \<and> list_all (\<lambda>x. \<not> is_status x) post)"

lemma is_status_simps [simp]:
  "is_status (WriteHeader c)" "\<not> is_status (Write b)" "\<not> is_status (SetHeader k v)" "\<not> is_status (DelHeader k)"
  by (simp_all add: is_status_def)

lemma header_op_not_status: "list_all header_op hs \<Longrightarrow> list_all (\<lambda>x. \<not> is_status x) hs"
  by (auto simp: list_all_iff is_status_def split: wcall.splits)

fun written :: "wcall list \<Rightarrow> bytes" where
  "written [] = []"
| "written (Write b # cs) = b @ written cs"
| "written (_ # cs) = written cs"

lemma written_append [simp]: "written (xs @ ys) = written xs @ written ys"
  by (induction xs rule: written.induct) simp_all

lemma written_header_ops: "list_all header_op hs \<Longrightarrow> written hs = []"
  by (induction hs rule: written.induct) simp_all

lemma fold_after_commit:
  assumes "list_all (\<lambda>x. \<not> is_status x) post" "w_committed w = Some (c, h)"
  shows "w_committed (fold write_step post w) = Some (c, h)
    \<and> w_out (fold write_step post w) = w_out w @ written post"
  using assms
proof (induction post arbitrary: w)
  case (Cons x post)
  then show ?case by (cases x) (simp_all add: commit_def)
qed simp

lemma respond_committed:
  assumes "list_all header_op pre" "list_all (\<lambda>x. \<not> is_status x) post"
  shows "respond (pre @ WriteHeader c # post)
    = \<lparr>resp_status = c, resp_header = header_after pre, resp_body = written post\<rparr>"
proof -
  let ?w = "\<lparr>w_header = header_after pre, w_committed = Some (c, header_after pre), w_out = []\<rparr>"
  have "fold write_step (pre @ [WriteHeader c]) fresh_writer = ?w"
    using fold_header_ops [OF assms(1), of fresh_writer]
    by (simp add: fresh_writer_def header_after_def commit_def)
  then have "respond (pre @ WriteHeader c # post) = finish (fold write_step post ?w)"
    by (simp add: respond_def)
  then show ?thesis
    using fold_after_commit [OF assms(2), of ?w c "header_after pre"] by (simp add: finish_def commit_def)
qed

lemma rw_fold_headers: "list_all header_op pre \<Longrightarrow> fold rw_step pre p = p"
proof (induction pre arbitrary: p)
  case (Cons x pre)
  then show ?case by (cases p; cases x) simp_all
qed simp

lemma rw_fold_body:
  "list_all (\<lambda>x. \<not> is_status x) post \<Longrightarrow> fold rw_step post (c, n) = (c, n + length (written post))"
proof (induction post arbitrary: n)
  case (Cons x post)
  then show ?case by (cases x) simp_all
qed simp

lemma rl_fold_headers: "list_all header_op pre \<Longrightarrow> fold rl_step pre p = p"
proof (induction pre arbitrary: p)
  case (Cons x pre)
  then show ?case by (cases p; cases x) simp_all
qed simp

lemma rl_fold_body:
  "list_all (\<lambda>x. \<not> is_status x) post \<Longrightarrow> c \<noteq> 0 \<Longrightarrow> fold rl_step post (c, n) = (c, n + length (written post))"
proof (induction post arbitrary: n)
  case (Cons x post)
  then show ?case by (cases x) simp_all
qed simp

lemma committed_log:
  assumes "committed calls"
  shows "fold rw_step calls p = (resp_status (respond calls), snd p + length (resp_body (respond calls)))"
proof -
  obtain pre c post where c: "calls = pre @ WriteHeader c # post" "list_all header_op pre"
    "list_all (\<lambda>x. \<not> is_status x) post"
    using assms by (auto simp: committed_def)
  have "fold rw_step calls p = fold rw_step post (c, snd p)"
    by (cases p) (simp add: c(1) rw_fold_headers [OF c(2)])
  then show ?thesis
    using respond_committed [OF c(2,3), of c] by (simp add: c(1) rw_fold_body [OF c(3)])
qed

lemma committed_http_Error [simp]: "committed (http_Error msg code)"
  unfolding committed_def http_Error_def
  by (rule exI [of _ "[DelHeader ''Content-Length'', SetHeader ''Content-Type'' ''text/plain; charset=utf-8'',
      SetHeader ''X-Content-Type-Options'' ''nosniff'']"]) simp

section \<open>The gzip writer\<close>

lemma gzip_steps_append:
  "gzip_steps cg (xs @ ys) g =
     (case gzip_steps cg xs g of (o1, g1) \<Rightarrow> (case gzip_steps cg ys g1 of (o2, g2) \<Rightarrow> (o1 @ o2, g2)))"
  by (induction xs arbitrary: g) (simp_all split: prod.splits)

text \<open>Before the first \<open>Write\<close> only header operations pass; from it on, no status does.\<close>

definition gzip_inv :: "wcall list \<Rightarrow> gzip_rw \<Rightarrow> bool" where
  "gzip_inv out g \<longleftrightarrow> (if gw_wrote g then committed out else list_all header_op out \<and> gw_gz g = None)"

lemma committed_extend:
  "committed out \<Longrightarrow> list_all (\<lambda>x. \<not> is_status x) extra \<Longrightarrow> committed (out @ extra)"
  by (force simp: committed_def)

lemma committed_start:
  "list_all header_op hs \<Longrightarrow> list_all (\<lambda>x. \<not> is_status x) post \<Longrightarrow> committed (hs @ WriteHeader c # post)"
  by (auto simp: committed_def)

lemma gzip_step_inv:
  assumes "gzip_inv out g" "gzip_step cg c g = (extra, g')"
  shows "gzip_inv (out @ extra) g'"
proof (cases c)
  case (Write data)
  show ?thesis
  proof (cases "gw_wrote g")
    case True
    with assms Write show ?thesis
      by (auto simp: gzip_inv_def gzip_start_def intro!: committed_extend split: option.splits)
  next
    case False
    with assms(1) have h: "list_all header_op out" "list_all header_op (out @ [SetHeader ''Content-Encoding'' ''gzip''])"
      "gw_gz g = None" by (simp_all add: gzip_inv_def)
    show ?thesis
      using assms(2) Write False h(3) committed_start [OF h(1), of "[Write data]" "gw_status g"]
        committed_start [OF h(2), of "[]" "gw_status g"]
      by (auto simp: gzip_inv_def gzip_start_def split: if_splits)
  qed
qed (use assms in \<open>auto simp: gzip_inv_def intro!: committed_extend split: if_splits\<close>)

lemma gzip_steps_inv:
  "gzip_inv out g \<Longrightarrow> gzip_steps cg cs g = (extra, g') \<Longrightarrow> gzip_inv (out @ extra) g'"
proof (induction cs arbitrary: out g extra g')
  case (Cons c cs)
  obtain o1 g1 where s: "gzip_step cg c g = (o1, g1)" by (cases "gzip_step cg c g")
  obtain o2 g2 where r: "gzip_steps cg cs g1 = (o2, g2)" by (cases "gzip_steps cg cs g1")
  have "gzip_inv ((out @ o1) @ o2) g2"
    using Cons.IH [OF gzip_step_inv [OF Cons.prems(1) s] r] .
  with Cons.prems(2) s r show ?case by simp
qed simp

lemma gzip_calls_committed: "committed (gzip_calls lib cg calls)"
proof -
  obtain out g where s: "gzip_steps cg calls newGzipResponseWriter = (out, g)"
    by (cases "gzip_steps cg calls newGzipResponseWriter")
  have "gzip_inv [] newGzipResponseWriter" by (simp add: gzip_inv_def newGzipResponseWriter_def)
  then have "gzip_inv ([] @ out) g" using s by (rule gzip_steps_inv)
  then have "gzip_inv out g" by simp
  then show ?thesis
    using committed_start [of out "[]" "gw_status g"]
    by (auto simp: gzip_calls_def s gzip_close_def gzip_inv_def intro!: committed_extend
        split: if_splits option.splits)
qed

section \<open>What the log records\<close>

text \<open>The entry the logging middleware writes for a request served through the gzip middleware has
  the status and the size of the response the client receives, whatever the handler does with its
  writer.\<close>
lemma logged_is_sent:
  "\<exists>calls w'. LoggingMiddleware (GzipMiddleware lib next) r (w, entries)
     = (calls, (w', entries @ [\<lparr>log_method = r_method r, log_uri = r_path r,
         log_status = resp_status (respond calls), log_size = length (resp_body (respond calls))\<rparr>]))"
proof -
  obtain calls w' where g: "GzipMiddleware lib next r w = (calls, w')"
    by (cases "GzipMiddleware lib next r w")
  then have "committed calls"
    by (auto simp: GzipMiddleware_def Let_def gzip_calls_committed split: if_splits sum.splits prod.splits)
  then show ?thesis
    by (simp add: LoggingMiddleware_def g committed_log)
qed

section \<open>Transparency of the gzip writer\<close>

lemma gzip_steps_headers:
  "list_all header_op hs \<Longrightarrow> gzip_steps cg hs g = (hs, g\<lparr>gw_header := fold header_step hs (gw_header g)\<rparr>)"
proof (induction hs arbitrary: g)
  case (Cons c hs)
  then show ?case by (cases c) simp_all
qed simp

lemma gzip_steps_plain:
  "gw_wrote g \<Longrightarrow> gw_gz g = None \<Longrightarrow> gzip_steps cg (map Write bs) g = (map Write bs, g)"
  by (induction bs) (simp_all add: gzip_start_def)

lemma gzip_steps_zip:
  "gw_wrote g \<Longrightarrow> gw_gz g = Some ch \<Longrightarrow>
   gzip_steps cg (map Write bs) g = ([], g\<lparr>gw_gz := Some (ch @ bs)\<rparr>)"
  by (induction bs arbitrary: g ch) (simp_all add: gzip_start_def)

text \<open>The calls that leave the writer for a handler that behaves as usual.\<close>

definition content_gzip :: "bool \<Rightarrow> wcall list \<Rightarrow> bytes list \<Rightarrow> bool" where
  "content_gzip cg hs bs \<longleftrightarrow> bs \<noteq> [] \<and> should_gzip cg (newGzipResponseWriter\<lparr>gw_header := header_after hs\<rparr>)"

lemma gzip_calls_in_order:
  assumes "list_all header_op hs"
  shows "gzip_calls lib cg (in_order hs code bs) =
    (let c = (case code of None \<Rightarrow> 200 | Some c \<Rightarrow> c) in
     if content_gzip cg hs bs
     then in_order (hs @ [SetHeader ''Content-Encoding'' ''gzip'']) (Some c) [gz_writer lib bs]
     else in_order hs (Some c) bs)"
proof -
  let ?g = "newGzipResponseWriter\<lparr>gw_header := header_after hs\<rparr>"
  let ?c = "case code of None \<Rightarrow> 200 | Some c \<Rightarrow> c"
  have h: "gzip_steps cg hs newGzipResponseWriter = (hs, ?g)"
    by (simp add: gzip_steps_headers [OF assms] header_after_def newGzipResponseWriter_def)
  have s: "gzip_steps cg (case code of None \<Rightarrow> [] | Some c \<Rightarrow> [WriteHeader c]) ?g = ([], ?g\<lparr>gw_status := ?c\<rparr>)"
    by (cases code) (simp_all add: newGzipResponseWriter_def)
  have d: "should_gzip cg (?g\<lparr>gw_status := ?c\<rparr>) = should_gzip cg ?g" by (simp add: should_gzip_def)
  show ?thesis
  proof (cases bs)
    case Nil
    with h s show ?thesis
      by (simp add: gzip_calls_def in_order_def gzip_steps_append content_gzip_def gzip_close_def
          newGzipResponseWriter_def Let_def)
  next
    case (Cons b bs')
    show ?thesis
    proof (cases "should_gzip cg ?g")
      case True
      with h s d Cons show ?thesis
        by (simp add: gzip_calls_def in_order_def gzip_steps_append content_gzip_def gzip_close_def
            gzip_start_def gzip_steps_zip newGzipResponseWriter_def Let_def)
    next
      case False
      with h s d Cons show ?thesis
        by (simp add: gzip_calls_def in_order_def gzip_steps_append content_gzip_def gzip_close_def
            gzip_start_def gzip_steps_plain newGzipResponseWriter_def Let_def)
    qed
  qed
qed

text \<open>A client that undoes the content encoding.\<close>

definition client_body :: "gzip_lib \<Rightarrow> response \<Rightarrow> bytes option" where
  "client_body lib resp =
     (if header_get (resp_header resp) ''Content-Encoding'' = ''gzip'' then
        (case gz_reader lib (resp_body resp, None) of Inr (b, None) \<Rightarrow> Some b | _ \<Rightarrow> None)
      else Some (resp_body resp))"

text \<open>C24: For a handler that sets its headers before it writes and sets no content encoding of its own,
  a client that undoes the content encoding receives the same status and the same body bytes with the
  gzip writer as without it, whether or not it accepts gzip.\<close>
theorem gzip_transparent:
  assumes "gzip_ok lib" and "ordered calls"
    and "header_get (resp_header (respond calls)) ''Content-Encoding'' = []"
  shows "resp_status (respond (gzip_calls lib cg calls)) = resp_status (respond calls)
    \<and> client_body lib (respond (gzip_calls lib cg calls)) = Some (resp_body (respond calls))"
proof -
  obtain hs code bs where c: "list_all header_op hs" "calls = in_order hs code bs"
    using assms(2) by (auto simp: ordered_def)
  have ce: "header_get (header_after hs) ''Content-Encoding'' = []"
    using assms(3) by (simp add: c http_simps)
  have h: "list_all header_op (hs @ [SetHeader ''Content-Encoding'' ''gzip''])" using c(1) by simp
  have "header_get (header_after (hs @ [SetHeader ''Content-Encoding'' ''gzip''])) ''Content-Encoding'' = ''gzip''"
    by (simp add: header_after_def header_get_def)
  then show ?thesis
    using assms(1) ce
    by (simp add: c gzip_calls_in_order Let_def respond_in_order [OF h] respond_in_order [OF c(1)]
        client_body_def gzip_ok_def)
qed

text \<open>A compression to evaluate on: the chunks behind a two-byte magic number.\<close>

definition magic_lib :: gzip_lib where
  "magic_lib = \<lparr>gz_reader = (\<lambda>(b, e). if take 2 b = [CHR 0x1F, CHR 0x8B] then Inr (drop 2 b, e)
       else Inl (ErrOther ''gzip: invalid header'')),
     gz_writer = (\<lambda>chunks. CHR 0x1F # CHR 0x8B # concat chunks)\<rparr>"

lemma magic_lib_ok [simp]: "gzip_ok magic_lib"
  by (simp add: gzip_ok_def magic_lib_def)

theorem gzip_transparent_witness:
  "resp_status (respond (gzip_calls magic_lib True
      [SetHeader ''Content-Type'' ''application/json'', WriteHeader 200, Write ''{}''])) = 200
   \<and> client_body magic_lib (respond (gzip_calls magic_lib True
      [SetHeader ''Content-Type'' ''application/json'', WriteHeader 200, Write ''{}''])) = Some ''{}''"
proof -
  let ?calls = "[SetHeader ''Content-Type'' ''application/json'', WriteHeader 200, Write ''{}'']"
  have o: "?calls = in_order [SetHeader ''Content-Type'' ''application/json''] (Some 200) [''{}'']"
    by (simp add: in_order_def)
  then have "respond ?calls = \<lparr>resp_status = 200, resp_header = [''Content-Type'' \<mapsto> ''application/json''], resp_body = ''{}''\<rparr>"
    by (simp add: http_simps header_after_def)
  then show ?thesis
    using gzip_transparent [OF magic_lib_ok, of ?calls True] orderedI [of "[SetHeader ''Content-Type'' ''application/json'']" "Some 200" "[''{}'']"]
    by (simp add: o [symmetric] header_get_def)
qed

section \<open>Rejected requests\<close>

text \<open>With a trusted subnet configured, a request whose X-Real-IP is missing, malformed or outside
  the subnet is answered 403 and changes nothing; any other request is the next handler's.\<close>
lemma subnet_decides:
  "TrustedSubnetMiddleware parse_ip (Some within) next r w =
     (if \<exists>ip. parse_ip (req_header r ''X-Real-IP'') = Some ip \<and> within ip then next r w
      else (http_Error ''forbidden'' 403, w))"
  by (auto simp: TrustedSubnetMiddleware_def split: option.splits)

text \<open>With a key configured, the next handler sees a request exactly when its body can be read and
  the HashSHA256 header is the hexadecimal HMAC of the body, and then it sees that same body; every
  other request is answered 400 and changes nothing.\<close>
lemma signature_decides:
  assumes "key \<noteq> []"
  shows "NewSHA256CheckMiddleware mac key next r w =
    (case r_body r of
       (b, None) \<Rightarrow> if req_header r ''HashSHA256'' = hex_encode (mac key b) then next r w
                    else (http_Error ''invalid hash'' 400, w)
     | (b, Some e) \<Rightarrow> (http_Error ''cannot read body'' 400, w))"
  using assms
  by (auto simp: same_body NewSHA256CheckMiddleware_def io_ReadAll_def ComputeHMAC_def split: prod.split option.split)

definition bare_request :: "bytes \<Rightarrow> request" where
  "bare_request b = \<lparr>r_method = ''GET'', r_path = ''/ping'', r_header = Map.empty, r_body = (b, None),
     r_remote = ''10.0.0.1:4711'', r_params = (\<lambda>_. ''''), r_now = 0\<rparr>"

lemma signature_decides_witness:
  "NewSHA256CheckMiddleware (\<lambda>k b. k @ b) ''k'' (\<lambda>r w. ([WriteHeader 200], w)) (bare_request ''x'') ()
     = (http_Error ''invalid hash'' 400, ())"
  by (simp add: signature_decides bare_request_def header_get_def hex_encode_Cons)

lemma subnet_nil [simp]: "TrustedSubnetMiddleware parse_ip None next = next"
  by (simp add: TrustedSubnetMiddleware_def fun_eq_iff)

lemma signature_no_key [simp]: "NewSHA256CheckMiddleware mac [] next = next"
  by (simp add: NewSHA256CheckMiddleware_def fun_eq_iff)

lemma decrypt_no_key [simp]: "DecryptMiddleware lib su None next = next"
  by (simp add: DecryptMiddleware_def fun_eq_iff)

lemma decrypt_bad_keeps:
  assumes "req_header r ''Content-Encoding'' = ''encrypted''" "io_ReadAll (r_body r) = Inr c"
    and "Decrypt su key c = Some (Inl e)"
  shows "DecryptMiddleware lib su (Some key) next r w = (http_Error ''bad request'' 400, w)"
  using assms by (simp add: DecryptMiddleware_def Let_def)

text \<open>The pooled buffer and writer leave no trace in what \<open>Compress\<close> returns.\<close>

lemma Compress_result [simp]: "fst (Compress lib buf gz data) = gz_writer lib [data]"
  by (simp add: Compress_def Let_def)

lemma Compress_inverse: "gzip_ok lib \<Longrightarrow> gz_reader lib (fst (Compress lib buf gz data), None) = Inr (data, None)"
  by (simp add: gzip_ok_def)

end
