(* ===== verification/Persistence_Facts.thy ===== *)
theory Persistence_Facts
  imports Persistence
begin

text \<open>
  What the snapshot guarantees: killing the process never leaves a damaged file, a saved store
  is loaded back unchanged, write-through storage keeps the file current. And where it falls
  short: one non-finite gauge blocks every later save, a rejected batch changes the memory and
  not the file, and a snapshot in the root directory is staged in another directory.
\<close>

section \<open>The list a save writes\<close>

definition snapshot_of :: "io_plan \<Rightarrow> mem_store \<Rightarrow> metrics list" where
  "snapshot_of p m =
     map (\<lambda>(id, v). gauge_metric id v) (range_pairs (gauges m) (gauge_order p (gauges m)))
     @ map (\<lambda>(id, d). counter_metric id d) (range_pairs (counters m) (counter_order p (counters m)))"

lemma snapshot_list_eq: "ranges_ok p m \<Longrightarrow> snapshot_list p m = snapshot_of p m"
  by (simp add: snapshot_list_def snapshot_of_def mem_GetAllMetrics_def ranges_ok_def
      put_range_pairs_copy)

definition persistable :: "mem_store \<Rightarrow> bool" where
  "persistable m \<longleftrightarrow>
     (\<forall>n \<in> dom (gauges m). valid_utf8 n) \<and> (\<forall>n \<in> dom (counters m). valid_utf8 n)
     \<and> (\<forall>v \<in> ran (gauges m). float_finite v)"

lemma snapshot_wire_ok: "persistable m \<Longrightarrow> list_all wire_ok (snapshot_of p m)"
  by (force simp: snapshot_of_def list_all_iff set_range_pairs persistable_def wire_ok_def ran_def)

lemma fold_gauges:
  "gauges (fold mem_apply (map (\<lambda>(id, v). gauge_metric id v) kvs) s) = put_pairs kvs (gauges s)
   \<and> counters (fold mem_apply (map (\<lambda>(id, v). gauge_metric id v) kvs) s) = counters s"
  by (induction kvs arbitrary: s) (auto simp: mem_UpdateGauge_def)

lemma fold_counters:
  assumes "distinct (map fst kvs)" "\<forall>k \<in> set (map fst kvs). counters s k = None"
  shows "counters (fold mem_apply (map (\<lambda>(id, d). counter_metric id d) kvs) s)
      = put_pairs kvs (counters s)
    \<and> gauges (fold mem_apply (map (\<lambda>(id, d). counter_metric id d) kvs) s) = gauges s"
  using assms
proof (induction kvs arbitrary: s)
  case (Cons kv kvs)
  obtain k d where kv: "kv = (k, d)" by (cases kv)
  have "map_index (counters s) k = 0" using Cons.prems kv by (simp add: map_index_def)
  moreover have "\<forall>j \<in> set (map fst kvs). counters (mem_apply (counter_metric k d) s) j = None"
    using Cons.prems kv by (auto simp: mem_UpdateCounter_def)
  ultimately show ?case
    using Cons.IH [of "mem_apply (counter_metric k d) s"] Cons.prems kv
    by (simp add: mem_UpdateCounter_def fun_upd_def)
qed simp

lemma load_snapshot:
  assumes "ranges_ok p m"
  shows "load_loop (snapshot_of p m) NewMemStorage = m"
proof -
  let ?gs = "range_pairs (gauges m) (gauge_order p (gauges m))"
  let ?cs = "range_pairs (counters m) (counter_order p (counters m))"
  let ?s = "fold mem_apply (map (\<lambda>(id, v). gauge_metric id v) ?gs) NewMemStorage"
  have v: "visits (gauges m) (gauge_order p (gauges m))" "visits (counters m) (counter_order p (counters m))"
    using assms by (simp_all add: ranges_ok_def)
  have g: "gauges ?s = gauges m" "counters ?s = Map.empty"
    using fold_gauges [of ?gs NewMemStorage] v by (simp_all add: put_range_pairs_copy)
  have "distinct (map fst ?cs)" using v(2) by (simp add: fst_range_pairs visits_def)
  then have "counters (fold mem_apply (map (\<lambda>(id, d). counter_metric id d) ?cs) ?s) = counters m
      \<and> gauges (fold mem_apply (map (\<lambda>(id, d). counter_metric id d) ?cs) ?s) = gauges m"
    using fold_counters [of ?cs ?s] g v(2) by (simp add: put_range_pairs_copy)
  then show ?thesis by (simp add: load_loop_fold snapshot_of_def)
qed

section \<open>Crash safety\<close>

lemma write_states_path: "fs' \<in> set (write_states tmp data n fs) \<Longrightarrow> tmp \<noteq> path \<Longrightarrow> fs' path = fs path"
  by (auto simp: write_states_def)

lemma save_trace_path:
  assumes "fs path = Some old" "fs' \<in> set (snd (saveMetrics ft p path m fs))"
  shows "fs' path = Some old \<or> (fst (saveMetrics ft p path m fs) = None
    \<and> fs' path = marshal_list ft (snapshot_list p m))"
proof (cases "marshal_list ft (snapshot_list p m)")
  case None
  with assms show ?thesis by (simp add: saveMetrics_def)
next
  case (Some data)
  let ?tmp = "create_temp_name (dirOf path) (rand_part p)"
  show ?thesis
  proof (cases "create_ok p \<and> fs ?tmp = None")
    case False
    with Some assms show ?thesis by (auto simp: saveMetrics_def Let_def split: if_splits)
  next
    case True
    with assms(1) have tmp: "?tmp \<noteq> path" by auto
    have "write_states ?tmp data n fs \<noteq> []" for n by (simp add: write_states_def)
    then have "last (write_states ?tmp data n fs) path = fs path" for n
      using write_states_path tmp last_in_set by metis
    with Some True tmp assms show ?thesis
      by (auto simp: saveMetrics_def Let_def remove_file_def dest: write_states_path split: if_splits)
  qed
qed

text \<open>Killing the process at any point of a save leaves the snapshot file either as it was or
  holding the complete new document, and the new one only if the save runs to its end: no partial
  write is ever visible under the snapshot's name.\<close>
lemma save_crash_safe:
  assumes "fs path = Some old" and "fs' \<in> set (snd (saveMetrics ft p path m fs))"
  shows "fs' path = Some old
    \<or> (fst (saveMetrics ft p path m fs) = None \<and> fs' path = marshal_list ft (snapshot_list p m))"
  using assms by (rule save_trace_path)

definition good_plan :: io_plan where
  "good_plan = \<lparr>create_ok = True, write_ok = True, written = 0, close_ok = True, rename_ok = True,
     remove_ok = True, rand_part = ''1'',
     gauge_order = (\<lambda>m. sorted_list_of_set (dom m)), counter_order = (\<lambda>m. sorted_list_of_set (dom m))\<rparr>"

definition broken_plan :: io_plan where
  "broken_plan = good_plan\<lparr>write_ok := False, written := 3\<rparr>"

lemma good_plan_ranges:
  "finite (dom (gauges m)) \<Longrightarrow> finite (dom (counters m)) \<Longrightarrow> ranges_ok good_plan m"
  by (simp add: ranges_ok_def good_plan_def visits_def)

lemma good_plan_good [simp]: "io_good good_plan"
  by (simp add: io_good_def good_plan_def)

lemma save_crash_safe_witness:
  "list_all (\<lambda>fs'. fs' ''d/m.json'' = Some ''old''
     \<or> (fst (saveMetrics bits_text broken_plan ''d/m.json'' NewMemStorage [''d/m.json'' \<mapsto> ''old'']) = None
        \<and> fs' ''d/m.json'' = marshal_list bits_text (snapshot_list broken_plan NewMemStorage)))
     (snd (saveMetrics bits_text broken_plan ''d/m.json'' NewMemStorage [''d/m.json'' \<mapsto> ''old'']))"
  unfolding list_all_iff
  by (rule ballI, rule save_crash_safe [of "[''d/m.json'' \<mapsto> ''old'']" _ "''old''"]) simp_all

section \<open>Saving and restoring\<close>

lemma save_success:
  assumes "float_text_ok ft" "ranges_ok p m" "persistable m" "io_good p"
    "fs (create_temp_name (dirOf path) (rand_part p)) = None"
  shows "\<exists>data. saveMetrics ft p path m fs = (None, snd (saveMetrics ft p path m fs))
    \<and> last (snd (saveMetrics ft p path m fs)) path = Some data
    \<and> unmarshal_list ft data = Some (snapshot_of p m)"
proof -
  obtain data where "marshal_list ft (snapshot_list p m) = Some data"
    "unmarshal_list ft data = Some (snapshot_of p m)"
    using marshal_list_roundtrip [OF assms(1) snapshot_wire_ok [OF assms(3), of p]]
    by (auto simp: snapshot_list_eq [OF assms(2)])
  then show ?thesis using assms(4,5) by (auto simp: saveMetrics_def Let_def io_good_def)
qed

text \<open>C26: A store whose names are valid UTF-8 and whose gauges are finite, saved without an I/O
  error and restored into a fresh store at the next start, is the same store, whatever the order in
  which the two runs range over the maps.\<close>
theorem save_load_roundtrip:
  assumes "float_text_ok ft" and "ranges_ok p m" and "persistable m" and "io_good p"
    and "fs (create_temp_name (dirOf path) (rand_part p)) = None"
  shows "fst (saveMetrics ft p path m fs) = None
    \<and> loadMetrics ft True path (last (snd (saveMetrics ft p path m fs))) NewMemStorage = (None, m)"
proof -
  obtain data where "saveMetrics ft p path m fs = (None, snd (saveMetrics ft p path m fs))"
    "last (snd (saveMetrics ft p path m fs)) path = Some data"
    "unmarshal_list ft data = Some (snapshot_of p m)"
    using save_success [OF assms(1-4), of fs path] assms(5) by blast
  then show ?thesis
    using load_snapshot [OF assms(2)] by (simp add: loadMetrics_def read_file_def) (metis fst_conv)
qed

theorem save_load_roundtrip_witness:
  "fst (saveMetrics bits_text good_plan ''d/m.json'' (mem_UpdateCounter ''PollCount'' 7 NewMemStorage) Map.empty)
     = None
   \<and> loadMetrics bits_text True ''d/m.json''
       (last (snd (saveMetrics bits_text good_plan ''d/m.json''
          (mem_UpdateCounter ''PollCount'' 7 NewMemStorage) Map.empty))) NewMemStorage
     = (None, mem_UpdateCounter ''PollCount'' 7 NewMemStorage)"
  by (rule save_load_roundtrip [OF bits_text_ok])
    (simp_all add: good_plan_ranges mem_UpdateCounter_def persistable_def
      valid_utf8_ascii byte_in_def)

text \<open>One NaN or infinite gauge in the store makes every save fail before any file is touched,
  whatever the plan of the environment: nothing is persisted from then on.\<close>
lemma nonfinite_gauge_blocks_save:
  assumes "ranges_ok p m" and "gauges m n = Some v" and "\<not> float_finite v"
  shows "\<exists>e. saveMetrics ft p path m fs = (Some e, [fs])"
proof -
  have "gauge_metric n v \<in> set (snapshot_of p m)"
    using assms by (force simp: snapshot_of_def set_range_pairs ranges_ok_def visits_def)
  then have "marshal_list ft (snapshot_list p m) = None"
    using assms(3) unfolding marshal_list_none snapshot_list_eq [OF assms(1)] by force
  then show ?thesis by (simp add: saveMetrics_def)
qed

lemma nonfinite_gauge_blocks_save_witness:
  "\<exists>e. saveMetrics bits_text good_plan ''d/m.json'' (mem_UpdateGauge ''x'' float_nan NewMemStorage)
     [''d/m.json'' \<mapsto> ''old''] = (Some e, [[''d/m.json'' \<mapsto> ''old'']])"
  by (rule nonfinite_gauge_blocks_save [where n = "''x''" and v = float_nan])
    (simp_all add: good_plan_ranges mem_UpdateGauge_def)

section \<open>Write-through storage\<close>

text \<open>The document alone decides what a file restores.\<close>

lemma document_restores:
  assumes "float_text_ok ft" "ranges_ok p m" "persistable m"
    and "fs path = marshal_list ft (snapshot_list p m)" "fs path \<noteq> None"
  shows "loadMetrics ft True path fs NewMemStorage = (None, m)"
  using marshal_list_roundtrip [OF assms(1) snapshot_wire_ok [OF assms(3), of p]] assms(4,5) load_snapshot [OF assms(2)]
  by (auto simp: loadMetrics_def read_file_def snapshot_list_eq [OF assms(2)])

text \<open>The file holds the store: loading it rebuilds what the memory holds.\<close>

definition current :: "float_text \<Rightarrow> string \<Rightarrow> sync_state \<Rightarrow> bool" where
  "current ft path s \<longleftrightarrow> loadMetrics ft True path (disk s) NewMemStorage = (None, inner s)"

lemma sync_save_current:
  assumes "float_text_ok ft" "ranges_ok (plan (saves s)) (inner s)" "persistable (inner s)"
    "io_good (plan (saves s))" "disk s (create_temp_name (dirOf path) (rand_part (plan (saves s)))) = None"
  shows "current ft path (sync_save ft plan path s)"
  using save_success [OF assms(1-4), of "disk s" path] load_snapshot [OF assms(2)] assms(5)
  by (auto simp: current_def sync_save_def loadMetrics_def read_file_def)

text \<open>In synchronous mode, once an update or a successful batch has returned and its save met no
  I/O error, a restart that loads the file finds exactly the state the update left in memory.\<close>
lemma sync_write_durable:
  assumes "float_text_ok ft" and "io_good (plan (saves s))"
    and "disk s (create_temp_name (dirOf path) (rand_part (plan (saves s)))) = None"
    and "sync_BatchUpdate ft plan path ms s = (None, s')"
    and "ranges_ok (plan (saves s)) (inner s')" and "persistable (inner s')"
  shows "current ft path s'"
proof -
  obtain m' where "mem_BatchUpdate ms (inner s) = (None, m')"
    and s': "s' = sync_save ft plan path (s\<lparr>inner := m'\<rparr>)"
    using assms(4) by (auto simp: sync_BatchUpdate_def split: prod.splits option.splits)
  then show ?thesis
    using assms sync_save_current [OF assms(1), of plan "s\<lparr>inner := m'\<rparr>" path] by simp
qed

lemma sync_write_durable_witness:
  "current bits_text ''d/m.json'' (snd (sync_BatchUpdate bits_text (\<lambda>_. good_plan) ''d/m.json''
     [counter_metric ''PollCount'' 7] \<lparr>inner = NewMemStorage, disk = Map.empty, saves = 0\<rparr>))"
proof -
  let ?s = "\<lparr>inner = NewMemStorage, disk = Map.empty, saves = 0\<rparr> :: sync_state"
  let ?r = "sync_BatchUpdate bits_text (\<lambda>_. good_plan) ''d/m.json'' [counter_metric ''PollCount'' 7] ?s"
  have i: "inner (snd ?r) = mem_UpdateCounter ''PollCount'' 7 NewMemStorage" "fst ?r = None"
    by (simp_all add: sync_BatchUpdate_def store_simps del: mem_BatchUpdate.simps(2))
  then have r: "?r = (None, snd ?r)" by (metis prod.collapse)
  show ?thesis
    by (rule sync_write_durable [OF bits_text_ok _ _ r])
      (simp_all add: i good_plan_ranges mem_UpdateCounter_def persistable_def
        valid_utf8_ascii byte_in_def)
qed

text \<open>In synchronous mode a batch rejected for an unknown type writes nothing to disk although the
  metrics before the bad one are already in memory: memory and file disagree after the error.\<close>
lemma sync_rejected_batch_not_saved:
  assumes "sync_BatchUpdate ft plan path ms s = (Some e, s')"
  shows "disk s' = disk s \<and> (\<exists>pre x post. ms = pre @ x # post \<and> \<not> known_type x
    \<and> inner s' = fold mem_apply pre (inner s))"
proof -
  obtain m' where m': "mem_BatchUpdate ms (inner s) = (Some e, m')" "s' = s\<lparr>inner := m'\<rparr>"
    using assms by (auto simp: sync_BatchUpdate_def split: prod.splits option.splits)
  then show ?thesis using mem_batch_error_iff [of ms "inner s" e m'] by auto
qed

lemma sync_rejected_batch_not_saved_witness:
  "disk (snd (sync_BatchUpdate bits_text (\<lambda>_. good_plan) ''m'' [counter_metric ''a'' 1, zero_metrics]
      \<lparr>inner = NewMemStorage, disk = Map.empty, saves = 0\<rparr>)) = Map.empty
   \<and> counters (inner (snd (sync_BatchUpdate bits_text (\<lambda>_. good_plan) ''m''
      [counter_metric ''a'' 1, zero_metrics] \<lparr>inner = NewMemStorage, disk = Map.empty, saves = 0\<rparr>))) ''a''
     = Some 1"
proof -
  let ?s = "\<lparr>inner = NewMemStorage, disk = Map.empty, saves = 0\<rparr> :: sync_state"
  let ?s' = "\<lparr>inner = mem_UpdateCounter ''a'' 1 NewMemStorage, disk = Map.empty, saves = 0\<rparr> :: sync_state"
  have r: "sync_BatchUpdate bits_text (\<lambda>_. good_plan) ''m'' [counter_metric ''a'' 1, zero_metrics] ?s
      = (Some (ErrUnknownType ''''), ?s')"
    by (simp add: sync_BatchUpdate_def zero_metrics_def TypeGauge_def TypeCounter_def
        mem_UpdateCounter_def counter_metric_def)
  show ?thesis
    using sync_rejected_batch_not_saved [OF r] r
    by (simp add: mem_UpdateCounter_def)
qed

section \<open>The directory of the temporary file\<close>

definition is_sep :: "char \<Rightarrow> bool" where
  "is_sep c \<longleftrightarrow> c = CHR ''/'' \<or> c = CHR 0x5C"

lemma dir_scan_skip:
  "i \<le> length path \<Longrightarrow> \<forall>j. i \<le> j \<and> j < length path \<longrightarrow> \<not> is_sep (path ! j) \<Longrightarrow>
   dir_scan path (length path) = dir_scan path i"
proof (induction "length path - i" arbitrary: i)
  case 0
  then show ?case by simp
next
  case (Suc k)
  have "dir_scan path (length path) = dir_scan path (Suc i)"
    by (rule Suc.hyps(1)) (use Suc in auto)
  moreover have "\<not> is_sep (path ! i)" using Suc by simp
  ultimately show ?case by (simp add: is_sep_def)
qed

lemma dirOf_split:
  assumes "is_sep c" "\<forall>x \<in> set base. \<not> is_sep x"
  shows "dirOf (d @ c # base) = d"
proof -
  let ?p = "d @ c # base"
  have "dir_scan ?p (length ?p) = dir_scan ?p (Suc (length d))"
    by (rule dir_scan_skip) (use assms(2) in \<open>auto simp: nth_append nth_Cons'\<close>)
  then show ?thesis using assms(1) by (simp add: dirOf_def is_sep_def)
qed

lemma dirOf_plain:
  assumes "\<forall>x \<in> set path. \<not> is_sep x"
  shows "dirOf path = ''.''"
  using dir_scan_skip [of 0 path] assms by (simp add: dirOf_def)

text \<open>The staging file of a snapshot stands beside it, except when the snapshot lies directly in
  the root directory: then it is staged in the directory for temporary files, where the final
  rename may cross file systems.\<close>
lemma staging_directory:
  assumes "\<forall>x \<in> set base. \<not> is_sep x" and "d \<noteq> ''''" and "last d \<noteq> CHR ''/''"
  shows "create_temp_name (dirOf (d @ ''/'' @ base)) rnd = d @ ''/metrics-'' @ rnd @ ''.tmp''
    \<and> create_temp_name (dirOf base) rnd = ''./metrics-'' @ rnd @ ''.tmp''
    \<and> create_temp_name (dirOf (''/'' @ base)) rnd = ''/tmp/metrics-'' @ rnd @ ''.tmp''"
  using dirOf_split [of "CHR ''/''" base d] dirOf_split [of "CHR ''/''" base "[]"] dirOf_plain [of base] assms
  by (simp add: is_sep_def create_temp_name_def temp_dir_def Let_def)

lemma staging_directory_witness:
  "create_temp_name (dirOf (''data'' @ ''/'' @ ''m.json'')) ''1'' = ''data'' @ ''/metrics-'' @ ''1'' @ ''.tmp''
   \<and> create_temp_name (dirOf ''m.json'') ''1'' = ''./metrics-'' @ ''1'' @ ''.tmp''
   \<and> create_temp_name (dirOf (''/'' @ ''m.json'')) ''1'' = ''/tmp/metrics-'' @ ''1'' @ ''.tmp''"
  by (rule staging_directory) (simp_all add: is_sep_def)

end
