(* ===== verification/Handlers_Facts.thy ===== *)
theory Handlers_Facts
  imports Handlers Persistence Postgres_Facts Middleware_Facts Persistence_Facts
begin

text \<open>
  The handlers against the storage contract, proved once for every backend that keeps it and read off
  for the in-memory store, the synchronous store and PostgreSQL; validation, auditing and the shape of
  the responses.
\<close>

section \<open>Responses\<close>

lemma json_response_in_order:
  "json_response pf b key = in_order (SetHeader ''Content-Type'' ''application/json''
     # (if key = '''' then [] else [SetHeader ''HashSHA256'' (ComputeHMAC (pf_mac pf) b key)])) (Some 200) [b]"
  by (simp add: json_response_def writeSignedResponse_def in_order_def)

lemma json_response_respond [simp]:
  "resp_status (respond (json_response pf b key)) = 200" "resp_body (respond (json_response pf b key)) = b"
  by (simp_all add: json_response_in_order http_simps)

lemma ok_response_in_order:
  "ok_response = in_order [SetHeader ''Content-Type'' ''text/plain; charset=utf-8''] (Some 200) [''OK'' @ [CHR 0x0A]]"
  by (simp add: ok_response_def in_order_def)

lemma ok_response_respond [simp]: "resp_status (respond ok_response) = 200"
  by (simp add: ok_response_in_order http_simps)

lemma decode_stream_whole [simp]: "decode_stream dec (b, None) = dec b"
  by (simp add: decode_stream_def)

section \<open>Any backend that keeps the contract\<close>

context storage_contract begin

lemma update_json_gauge:
  assumes "h_storage h = ops" "float_text_ok (pf_float pf)" "ready s" "name_ok (ID m)"
    and "wire_ok m" "MType m = TypeGauge" "Value m = Some v"
    and "marshal_metric (pf_float pf) m = Some b" "r_body r = (b, None)"
  shows "\<exists>s'. updateMetricJSONHandler pf h r (s, a)
      = (json_response pf b (h_key h), (s', notifyAudit h r [ID m] a))
    \<and> abs s' = db_set (ID m) v (abs s) \<and> ready s'"
proof -
  have d: "decode_metric (pf_float pf) b = Some m"
    using marshal_metric_decode [OF assms(2,5)] assms(8) by auto
  let ?s = "op_UpdateGauge ops (ID m) v s"
  have u: "abs ?s = db_set (ID m) v (abs s)" "ready ?s" using set_gauge [OF assms(3,4)] by simp_all
  then have "op_GetGauge ops (ID m) ?s = ((v, None), ?s)" by (simp add: get_gauge db_set_def)
  moreover have same: "m\<lparr>Value := Some v\<rparr> = m" using assms(7) by simp
  ultimately show ?thesis
    using assms u by (simp add: updateMetricJSONHandler_def d update_response_def same)
qed

lemma update_json_counter:
  assumes "h_storage h = ops" "float_text_ok (pf_float pf)" "ready s" "name_ok (ID m)"
    and "wire_ok m" "MType m = TypeCounter" "Delta m = Some d" "add_safe (ID m) d (abs s)"
    and "marshal_metric (pf_float pf) m = Some b" "r_body r = (b, None)"
  shows "\<exists>s' b'. updateMetricJSONHandler pf h r (s, a)
      = (json_response pf b' (h_key h), (s', notifyAudit h r [ID m] a))
    \<and> decode_metric (pf_float pf) b' = Some (m\<lparr>Delta := Some (word_of_int (db_count (abs s) (ID m)) + d)\<rparr>)
    \<and> abs s' = db_add (ID m) (sint d) (abs s) \<and> ready s'"
proof -
  have d: "decode_metric (pf_float pf) b = Some m"
    using marshal_metric_decode [OF assms(2,5)] assms(9) by auto
  let ?s = "op_UpdateCounter ops (ID m) d s"
  let ?m = "m\<lparr>Delta := Some (word_of_int (db_count (abs s) (ID m)) + d)\<rparr>"
  have u: "abs ?s = db_add (ID m) (sint d) (abs s)" "ready ?s"
    using add_counter [OF assms(3,4,8)] by simp_all
  then have g: "op_GetCounter ops (ID m) ?s = ((word_of_int (db_count (abs s) (ID m)) + d, None), ?s)"
    by (simp add: get_counter db_add_def)
  obtain b' where b': "marshal_metric (pf_float pf) ?m = Some b'" "decode_metric (pf_float pf) b' = Some ?m"
    using marshal_metric_decode [OF assms(2), of ?m] assms(5) by (auto simp: wire_ok_def)
  show ?thesis
    by (rule exI [of _ ?s], rule exI [of _ b'])
      (use assms u g b' in \<open>simp add: updateMetricJSONHandler_def d update_response_def TypeGauge_def TypeCounter_def\<close>)
qed

lemma value_json_gauge:
  assumes "h_storage h = ops" "float_text_ok (pf_float pf)" "ready s"
    and "wire_ok q" "MType q = TypeGauge" "db_gauges (abs s) (ID q) = Some v" "float_finite v"
    and "marshal_metric (pf_float pf) q = Some b" "r_body r = (b, None)"
  shows "\<exists>b'. valueMetricJSONHandler pf h r (s, a) = (json_response pf b' (h_key h), (s, a))
    \<and> decode_metric (pf_float pf) b' = Some (q\<lparr>Value := Some v\<rparr>)"
proof -
  have d: "decode_metric (pf_float pf) b = Some q"
    using marshal_metric_decode [OF assms(2,4)] assms(8) by auto
  obtain b' where b': "marshal_metric (pf_float pf) (q\<lparr>Value := Some v\<rparr>) = Some b'"
    "decode_metric (pf_float pf) b' = Some (q\<lparr>Value := Some v\<rparr>)"
    using marshal_metric_decode [OF assms(2), of "q\<lparr>Value := Some v\<rparr>"] assms(4,7) by (auto simp: wire_ok_def)
  show ?thesis
    by (rule exI [of _ b']) (use assms d b' in \<open>simp add: valueMetricJSONHandler_def value_response_def get_gauge\<close>)
qed

text \<open>A read of a missing metric is answered 404 and leaves the backend alone.\<close>

lemma value_url_missing:
  assumes "h_storage h = ops" "ready s" "r_params r ''type'' = ''gauge''" "db_gauges (abs s) (r_params r ''name'') = None"
  shows "valueHandler pf h r (s, a) = (text_plain # http_Error ''Metric not found'' 404, (s, a))"
  using assms missing_gauge_error by (simp add: valueHandler_def Let_def)

text \<open>A batch of known types within range is applied as the abstract database says and audited.\<close>

lemma batch_handler:
  assumes "h_storage h = ops" "float_text_ok (pf_float pf)" "ready s"
    and "list_all wire_ok ms" "ms \<noteq> []" "list_all known_type ms" "list_all (name_ok \<circ> ID) ms" "batch_safe ms (abs s)"
    and "marshal_list (pf_float pf) ms = Some b" "r_body r = (b, None)" "req_header r ''Content-Encoding'' \<noteq> ''gzip''"
  shows "\<exists>s'. BatchUpdateMetrics pf h r (s, a) = ([WriteHeader 200], (s', notifyAudit h r (map ID ms) a))
    \<and> abs s' = fold db_apply ms (abs s) \<and> ready s'"
proof -
  have "decode_list (pf_float pf) b = Some ms"
    using marshal_list_roundtrip [OF assms(2,4)] assms(9) by auto
  moreover obtain s' where "op_BatchUpdate ops ms s = (None, s')" "abs s' = fold db_apply ms (abs s)" "ready s'"
    using batch [OF assms(3,6,7,8)] by blast
  ultimately show ?thesis
    using assms by (simp add: BatchUpdateMetrics_def decodeBody_def)
qed

end

section \<open>Reading back what was written\<close>

definition demo_platform :: platform where
  "demo_platform = \<lparr>pf_float = bits_text, pf_mac = (\<lambda>k b. k @ b), pf_gzip = magic_lib,
     pf_error = (\<lambda>_. ''error''), pf_json_error = (\<lambda>_. ''invalid JSON''), pf_dashboard = (\<lambda>g c. [''<html>''])\<rparr>"

lemma demo_platform_sel [simp]:
  "pf_float demo_platform = bits_text" "pf_gzip demo_platform = magic_lib" "pf_mac demo_platform k b = k @ b"
  by (simp_all add: demo_platform_def)

definition record_audit :: "event \<Rightarrow> event list \<Rightarrow> event list" where
  "record_audit e es = es @ [e]"

lemma wire_ok_gauge: "valid_utf8 n \<Longrightarrow> float_finite v \<Longrightarrow> wire_ok (gauge_metric n v)"
  by (simp add: wire_ok_def gauge_metric_def)

lemma valid_names [simp]: "valid_utf8 ''Alloc''" "valid_utf8 ''c''"
  by (simp_all add: valid_utf8_ascii byte_in_def)

text \<open>A gauge posted as JSON to /update and then asked for at /value is answered 200 both times, and
  the second answer decodes to the metric asked for with exactly the value posted.\<close>
lemma gauge_update_then_value:
  assumes "h_storage h = mem_ops" and "float_text_ok (pf_float pf)"
    and "wire_ok m" and "MType m = TypeGauge" and "Value m = Some v"
    and "wire_ok q" and "MType q = TypeGauge" and "ID q = ID m"
    and "marshal_metric (pf_float pf) m = Some b" and "r_body r = (b, None)"
    and "marshal_metric (pf_float pf) q = Some c" and "r_body r' = (c, None)"
  shows "\<exists>calls calls' w. updateMetricJSONHandler pf h r (s, a) = (calls, w)
    \<and> valueMetricJSONHandler pf h r' w = (calls', w)
    \<and> resp_status (respond calls) = 200 \<and> resp_status (respond calls') = 200
    \<and> decode_metric (pf_float pf) (resp_body (respond calls')) = Some (q\<lparr>Value := Some v\<rparr>)"
proof -
  obtain s' where u: "updateMetricJSONHandler pf h r (s, a)
      = (json_response pf b (h_key h), (s', notifyAudit h r [ID m] a))" "mem_abs s' = db_set (ID m) v (mem_abs s)"
    using mem.update_json_gauge [OF assms(1,2) _ _ assms(3-5,9,10), of s a] by auto
  have "db_gauges (mem_abs s') (ID q) = Some v" "float_finite v"
    using assms(3,5,8) unfolding u(2) by (simp_all add: db_set_def wire_ok_def)
  then obtain b' where "valueMetricJSONHandler pf h r' (s', notifyAudit h r [ID m] a)
      = (json_response pf b' (h_key h), (s', notifyAudit h r [ID m] a))"
    "decode_metric (pf_float pf) b' = Some (q\<lparr>Value := Some v\<rparr>)"
    using mem.value_json_gauge [OF assms(1,2) _ assms(6,7) _ _ assms(11,12)] by blast
  with u(1) show ?thesis by simp
qed

lemma gauge_update_then_value_witness:
  "\<exists>b calls calls' w.
     updateMetricJSONHandler demo_platform (NewHandlers mem_ops '''' (Some record_audit)) (bare_request b)
       (NewMemStorage, []) = (calls, w)
     \<and> valueMetricJSONHandler demo_platform (NewHandlers mem_ops '''' (Some record_audit)) (bare_request b) w = (calls', w)
     \<and> resp_status (respond calls) = 200 \<and> resp_status (respond calls') = 200
     \<and> decode_metric bits_text (resp_body (respond calls')) = Some (gauge_metric ''Alloc'' 0)"
proof -
  let ?m = "gauge_metric ''Alloc'' 0"
  have w: "wire_ok ?m" by (simp add: wire_ok_gauge)
  obtain b where b: "marshal_metric bits_text ?m = Some b"
    using marshal_metric_decode [OF bits_text_ok w] by blast
  have same: "?m\<lparr>Value := Some 0\<rparr> = ?m" by simp
  show ?thesis
    by (rule exI [of _ b])
      (use gauge_update_then_value [of "NewHandlers mem_ops '''' (Some record_audit)" demo_platform ?m 0 ?m b
          "bare_request b" b "bare_request b" NewMemStorage "[]"] w b same in
        \<open>simp add: NewHandlers_def bits_text_ok bare_request_def\<close>)
qed

text \<open>C35: With PostgreSQL as the backend and no failure pending, a counter posted as JSON whose name the column can
  hold (valid UTF-8 without a zero character, at most 255 characters) and whose sum with the stored total fits in
  64 bits is answered with the new total, the stored total is the old one plus the delta, and the audit is told the
  metric's name. (A counter outside these bounds is refused by the database, which the handler does not notice.)\<close>
theorem counter_update_answers_total:
  assumes "h_storage h = pg_ops" and "float_text_ok (pf_float pf)" and "pg_ready s" and "name_storable (ID m)"
    and "wire_ok m" and "MType m = TypeCounter" and "Delta m = Some d" and "add_safe (ID m) d (pg_abs s)"
    and "marshal_metric (pf_float pf) m = Some b" and "r_body r = (b, None)"
  shows "\<exists>calls s'. updateMetricJSONHandler pf h r (s, a) = (calls, (s', notifyAudit h r [ID m] a))
    \<and> resp_status (respond calls) = 200
    \<and> decode_metric (pf_float pf) (resp_body (respond calls))
        = Some (m\<lparr>Delta := Some (word_of_int (db_count (pg_abs s) (ID m)) + d)\<rparr>)
    \<and> pg_abs s' = db_add (ID m) (sint d) (pg_abs s)"
  using pg.update_json_counter [OF assms(1-8) assms(9,10), of a] by fastforce

definition idle_pg :: pg_state where
  "idle_pg = \<lparr>tables = no_tables, script = [], waits = []\<rparr>"

lemma idle_pg_facts [simp]:
  "pg_ready idle_pg" "db_count (pg_abs idle_pg) n = 0" "add_safe n d (pg_abs idle_pg)"
  by (simp_all add: idle_pg_def pg_ready_def pg_abs_def no_tables_def db_count_def add_safe_def map_index_def)

lemma one_counter_facts [simp]:
  "ID one_counter = ''c''" "MType one_counter = TypeCounter" "Delta one_counter = Some 2" "wire_ok one_counter"
  by (simp_all add: one_counter_def wire_ok_def)

theorem counter_update_answers_total_witness:
  "\<exists>b calls s'. marshal_metric bits_text one_counter = Some b
     \<and> updateMetricJSONHandler demo_platform (NewHandlers pg_ops '''' (Some record_audit)) (bare_request b) (idle_pg, [])
         = (calls, (s', [\<lparr>TS = 0, Metrics = Some [''c''], IPAddress = ''10.0.0.1''\<rparr>]))
     \<and> resp_status (respond calls) = 200 \<and> decode_metric bits_text (resp_body (respond calls)) = Some one_counter
     \<and> pg_abs s' = db_add ''c'' 2 (pg_abs idle_pg)"
proof -
  let ?h = "NewHandlers pg_ops '''' (Some record_audit)"
  obtain b where b: "marshal_metric bits_text one_counter = Some b"
    using marshal_metric_decode [OF bits_text_ok] by (metis one_counter_facts(4))
  have same: "one_counter\<lparr>Delta := Some 2\<rparr> = one_counter" by simp
  have n: "notifyAudit ?h (bare_request b) [''c''] []
      = [\<lparr>TS = 0, Metrics = Some [''c''], IPAddress = ''10.0.0.1''\<rparr>]"
    by (simp add: notifyAudit_def NewHandlers_def record_audit_def bare_request_def extractIP_def header_get_def
        split_host_port_def)
  show ?thesis
    by (rule exI [of _ b])
      (use counter_update_answers_total [of ?h demo_platform idle_pg one_counter 2 b "bare_request b" "[]"] b same n in
        \<open>simp add: NewHandlers_def bits_text_ok bare_request_def\<close>)
qed

section \<open>Batches\<close>

text \<open>C34: A non-empty batch of well-formed metrics of known types posted to /updates of a server that saves
  on every write, none of its sums leaving 64 bits, is answered 200, is applied to the store as the abstract
  database prescribes, and the audit is told all names in order.\<close>
theorem batch_applied_and_audited:
  assumes "h_storage h = sync_ops ft plan path" and "float_text_ok (pf_float pf)"
    and "list_all wire_ok ms" and "ms \<noteq> []" and "list_all known_type ms" and "batch_safe ms (mem_abs (inner s))"
    and "marshal_list (pf_float pf) ms = Some b" and "r_body r = (b, None)"
    and "req_header r ''Content-Encoding'' \<noteq> ''gzip''"
  shows "\<exists>s'. BatchUpdateMetrics pf h r (s, a) = ([WriteHeader 200], (s', notifyAudit h r (map ID ms) a))
    \<and> mem_abs (inner s') = fold db_apply ms (mem_abs (inner s))"
proof -
  have "list_all ((\<lambda>_. True) \<circ> ID) ms" by (simp add: list_all_iff)
  then show ?thesis
    using wt.batch_handler [OF assms(1,2) _ assms(3-5) _ assms(6-9), of a] by auto
qed

theorem batch_applied_and_audited_witness:
  "\<exists>b s'. marshal_list bits_text [one_counter] = Some b
     \<and> BatchUpdateMetrics demo_platform (NewHandlers (sync_ops bits_text (\<lambda>_. good_plan) ''/db'') '''' (Some record_audit))
         (bare_request b) (\<lparr>inner = NewMemStorage, disk = Map.empty, saves = 0\<rparr>, [])
       = ([WriteHeader 200], (s', [\<lparr>TS = 0, Metrics = Some [''c''], IPAddress = ''10.0.0.1''\<rparr>]))
     \<and> mem_abs (inner s') = db_add ''c'' 2 (mem_abs NewMemStorage)"
proof -
  let ?h = "NewHandlers (sync_ops bits_text (\<lambda>_. good_plan) ''/db'') '''' (Some record_audit)"
  let ?s = "\<lparr>inner = NewMemStorage, disk = Map.empty, saves = 0\<rparr>"
  obtain b where b: "marshal_list bits_text [one_counter] = Some b"
    using marshal_list_roundtrip [OF bits_text_ok, of "[one_counter]"] by auto
  have n: "notifyAudit ?h (bare_request b) [''c''] []
      = [\<lparr>TS = 0, Metrics = Some [''c''], IPAddress = ''10.0.0.1''\<rparr>]"
    by (simp add: notifyAudit_def NewHandlers_def record_audit_def bare_request_def extractIP_def header_get_def
        split_host_port_def)
  have "batch_safe [one_counter] (mem_abs NewMemStorage)"
    by (simp add: metric_safe_def add_safe_def db_count_def int64_range_def map_index_def)
  then show ?thesis
    using batch_applied_and_audited [of ?h bits_text "\<lambda>_. good_plan" "''/db''" demo_platform "[one_counter]" ?s b
        "bare_request b" "[]"] b n
    by (simp add: NewHandlers_def bits_text_ok bare_request_def known_type_def db_apply_def header_get_def)
qed

section \<open>Auditing and validation\<close>

definition audit_entry :: "request \<Rightarrow> string list \<Rightarrow> event" where
  "audit_entry r names = \<lparr>TS = r_now r, Metrics = Some names, IPAddress = extractIP r\<rparr>"

lemma notifyAudit_on: "h_audit h = Some notify \<Longrightarrow> notifyAudit h r names a = notify (audit_entry r names) a"
  by (simp add: notifyAudit_def audit_entry_def)

text \<open>C36: Each of the three writing handlers tells the audit about a request exactly when it answers 200,
  once, with the request's time and client address and the names of the metrics in it.\<close>
theorem audited_iff_accepted:
  assumes "h_audit h = Some notify"
  shows "snd (snd (updateHandlerChi pf h r (s, a)))
      = (if resp_status (respond (fst (updateHandlerChi pf h r (s, a)))) = 200
         then notify (audit_entry r [r_params r ''name'']) a else a)
    \<and> snd (snd (updateMetricJSONHandler pf h r (s, a)))
      = (if resp_status (respond (fst (updateMetricJSONHandler pf h r (s, a)))) = 200
         then notify (audit_entry r [ID (the (decode_stream (decode_metric (pf_float pf)) (r_body r)))]) a else a)
    \<and> snd (snd (BatchUpdateMetrics pf h r (s, a)))
      = (if resp_status (respond (fst (BatchUpdateMetrics pf h r (s, a)))) = 200
         then notify (audit_entry r (map ID (projr (decodeBody pf (decode_list (pf_float pf)) r)))) a else a)"
  using assms
  by (auto simp: updateHandlerChi_def updateMetric_def updateMetricJSONHandler_def update_response_def
      BatchUpdateMetrics_def notifyAudit_on split: option.splits prod.splits sum.splits)

theorem audited_iff_accepted_witness:
  "snd (snd (BatchUpdateMetrics demo_platform (NewHandlers mem_ops '''' (Some record_audit)) (bare_request ''[]'')
     (NewMemStorage, []))) = []"
proof -
  have "decode_list bits_text ''[]'' = Some []"
    using marshal_list_roundtrip [OF bits_text_ok, of "[]"] by simp
  then show ?thesis
    using audited_iff_accepted [of "NewHandlers mem_ops '''' (Some record_audit)" record_audit demo_platform
        "bare_request ''[]''" NewMemStorage "[]"]
    by (simp add: NewHandlers_def BatchUpdateMetrics_def decodeBody_def bare_request_def header_get_def)
qed

text \<open>An update through the URL is accepted exactly when the type is gauge or counter and the value
  parses as a number of that type; every other request is answered 400 and changes neither the storage nor
  the audit.\<close>
lemma url_update_validation:
  "resp_status (respond (fst (updateHandlerChi pf h r w))) =
     (if r_params r ''type'' = ''gauge'' \<and> ft_parse (pf_float pf) (r_params r ''value'') \<noteq> None
         \<or> r_params r ''type'' = ''counter'' \<and> parse_int (r_params r ''value'') \<noteq> None
      then 200 else 400)
   \<and> (resp_status (respond (fst (updateHandlerChi pf h r w))) = 200 \<or> snd (updateHandlerChi pf h r w) = w)"
  by (cases w) (auto simp: updateHandlerChi_def updateMetric_def split: option.splits)

section \<open>Two defects\<close>

text \<open>With a float parser that accepts NaN, as strconv.ParseFloat does, NaN posted as a gauge through the
  URL is accepted with 200, and from then on asking for that gauge as JSON is answered 500.\<close>
lemma nan_gauge_unreadable:
  assumes "h_storage h = mem_ops" and "r_params r ''type'' = ''gauge''"
    and "ft_parse (pf_float pf) (r_params r ''value'') = Some v" and "\<not> float_finite v"
    and "decode_stream (decode_metric (pf_float pf)) (r_body r') = Some q"
    and "MType q = TypeGauge" and "ID q = r_params r ''name''"
  shows "\<exists>w. updateHandlerChi pf h r (s, a) = (ok_response, w)
    \<and> valueMetricJSONHandler pf h r' w = (http_Error ''marshal error'' 500, w)"
proof -
  have "marshal_metric (pf_float pf) (q\<lparr>Value := Some v\<rparr>) = None"
    using assms(4) by (simp add: marshal_metric_def metrics_json_none)
  then show ?thesis
    using assms
    by (simp add: updateHandlerChi_def updateMetric_def valueMetricJSONHandler_def value_response_def
        mem_UpdateGauge_def mem_GetGauge_def)
qed

text \<open>When the database refuses a counter update with an error that is not retried, the handler still
  answers 200, and the tables are as they were.\<close>
lemma failed_write_answered_ok:
  assumes "h_storage h = pg_ops" and "script s = [Fault e]" and "\<not> isRetriableDBError e"
    and "r_params r ''type'' = ''counter''" and "parse_int (r_params r ''value'') = Some d"
  shows "\<exists>s' a'. updateHandlerChi pf h r (s, a) = (ok_response, (s', a')) \<and> tables s' = tables s"
proof -
  have "pg_exec (upsert_counter (r_params r ''name'') d) s = (Some e, s\<lparr>script := []\<rparr>)"
    using assms(2) by (simp add: pg_exec_def next_trip_def)
  then have "pg_UpdateCounter (r_params r ''name'') d s = s\<lparr>script := []\<rparr>"
    using assms(3) by (simp add: pg_UpdateCounter_def withRetry_final)
  then show ?thesis
    using assms by (simp add: updateHandlerChi_def updateMetric_def)
qed

definition url_request :: "string \<Rightarrow> string \<Rightarrow> string \<Rightarrow> request" where
  "url_request ty n v = (bare_request [])\<lparr>r_params :=
     (\<lambda>k. if k = ''type'' then ty else if k = ''name'' then n else if k = ''value'' then v else '''')\<rparr>"

lemma url_request_params [simp]:
  "r_params (url_request ty n v) ''type'' = ty" "r_params (url_request ty n v) ''name'' = n"
  "r_params (url_request ty n v) ''value'' = v"
  by (simp_all add: url_request_def)

lemma parse_seven: "parse_int ''7'' = Some 7"
  by (simp add: parse_int_def parse_nat_def is_digit_def digit_val_def int64_range_def)

lemma failed_write_answered_ok_witness:
  "\<exists>s' a'. updateHandlerChi demo_platform (NewHandlers pg_ops '''' None) (url_request ''counter'' ''c'' ''7'')
      (idle_pg\<lparr>script := [Fault (ErrPg ''53100'')]\<rparr>, ()) = (ok_response, (s', a')) \<and> tables s' = no_tables"
  using failed_write_answered_ok [of "NewHandlers pg_ops '''' None" "idle_pg\<lparr>script := [Fault (ErrPg ''53100'')]\<rparr>"
      "ErrPg ''53100''" "url_request ''counter'' ''c'' ''7''" 7 demo_platform "()"]
    parse_seven
  by (simp add: NewHandlers_def isRetriableDBError_def idle_pg_def)

lemma nan_gauge_unreadable_witness:
  "\<exists>b w. updateHandlerChi demo_platform (NewHandlers mem_ops '''' None) (url_request ''gauge'' ''Alloc'' ''NaN'')
       (NewMemStorage, ()) = (ok_response, w)
     \<and> valueMetricJSONHandler demo_platform (NewHandlers mem_ops '''' None) (bare_request b) w
       = (http_Error ''marshal error'' 500, w)"
proof -
  let ?m = "gauge_metric ''Alloc'' 0"
  obtain b where b: "marshal_metric bits_text ?m = Some b" "decode_metric bits_text b = Some ?m"
    using marshal_metric_decode [OF bits_text_ok, of ?m] by (auto simp: wire_ok_gauge)
  have "ft_parse bits_text ''NaN'' = Some float_nan" by (simp add: bits_text_def)
  then show ?thesis
    using nan_gauge_unreadable [of "NewHandlers mem_ops '''' None" "url_request ''gauge'' ''Alloc'' ''NaN''"
        demo_platform float_nan "bare_request b" ?m NewMemStorage "()"] b(2)
    by (auto simp: NewHandlers_def bare_request_def intro!: exI [of _ b])
qed

section \<open>Every handler behaves as the gzip writer expects\<close>

lemma ordered_responses [simp]: "ordered (json_response pf b key)" "ordered ok_response"
  unfolding json_response_in_order ok_response_in_order by (simp_all add: orderedI)

lemma ordered_value_response [simp]: "ordered (value_response pf key q)"
  by (simp add: value_response_def split: option.split)

lemma handlers_ordered:
  "ordered (fst (updateMetricJSONHandler pf h r w))" "ordered (fst (valueMetricJSONHandler pf h r w))"
  "ordered (fst (BatchUpdateMetrics pf h r w))" "ordered (fst (updateHandlerChi pf h r w))"
  "ordered (fst (valueHandler pf h r w))" "ordered (fst (rootHandler pf gs cs h r w))"
  "ordered (fst (PingHandler h r w))"
  by (auto simp: updateMetricJSONHandler_def update_response_def valueMetricJSONHandler_def BatchUpdateMetrics_def
      updateHandlerChi_def updateMetric_def valueHandler_def rootHandler_def PingHandler_def text_plain_def Let_def
      split: option.splits prod.splits sum.splits)

end
