(* ===== verification/End_To_End.thy ===== *)
theory End_To_End
  imports Sender Router Handlers_Facts
begin

text \<open>
  Agent and server together: what \<open>Sender.post\<close> puts on the wire is what the middleware chain of the
  server takes off again, so that the handler sees exactly the marshalled metric, and a metric sent by
  the agent is in the server's storage when \<open>SendMetric\<close> returns without an error.
\<close>

section \<open>The request on the server's side\<close>

text \<open>
  How a request of the agent arrives: body and set headers unchanged, headers the program looks at absent
  when they were not set. Other headers (User-Agent, Accept-Encoding) are the client's own.
\<close>

definition arrives :: "out_request \<Rightarrow> request \<Rightarrow> bool" where
  "arrives o' r \<longleftrightarrow> r_body r = (o_body o', None)
     \<and> (\<forall>k \<in> {''Content-Encoding'', ''HashSHA256'', ''X-Real-IP''}. r_header r k = o_header o' k)"

text \<open>Sender and server are configured for each other.\<close>

definition matching ::
    "('n, 'pub, 'priv) agent_env \<Rightarrow> platform \<Rightarrow> 'pub sender \<Rightarrow> ('priv, 'ip) chain_config
      \<Rightarrow> (string \<Rightarrow> 'ip option) \<Rightarrow> bool" where
  "matching env pf s cfg parse_ip \<longleftrightarrow>
     ae_mac env = pf_mac pf \<and> ae_gzip env = pf_gzip pf \<and> gzip_ok (pf_gzip pf) \<and> gcm_ok (ae_suite env)
     \<and> (\<forall>n. entropy_ok (fst (ae_entropy env n)))
     \<and> sd_key s = cc_key cfg
     \<and> (case (sd_publicKey s, cc_privKey cfg) of
          (None, None) \<Rightarrow> True
        | (Some pub, Some priv) \<Rightarrow> key_pair_ok (ae_suite env) pub priv
        | _ \<Rightarrow> False)
     \<and> (case cc_subnet cfg of
          None \<Rightarrow> True
        | Some within \<Rightarrow> sd_localIP s \<noteq> '''' \<and> (\<exists>ip. parse_ip (sd_localIP s) = Some ip \<and> within ip))"

text \<open>What reaches the routes.\<close>

definition delivered_request :: "request \<Rightarrow> bytes \<Rightarrow> request" where
  "delivered_request r body =
     r\<lparr>r_body := (body, None), r_header := (r_header r)(''Content-Encoding'' := None)\<rparr>"

lemma build_request_headers [simp]:
  "o_header (build_request env s path body ce payload) ''Content-Encoding'' = Some ce"
  "o_header (build_request env s path body ce payload) ''HashSHA256''
     = (if sd_key s = '''' then None else Some (hex_encode (ae_mac env (sd_key s) body)))"
  "o_header (build_request env s path body ce payload) ''X-Real-IP''
     = (if sd_localIP s = '''' then None else Some (sd_localIP s))"
  "o_body (build_request env s path body ce payload) = payload"
  by (simp_all add: build_request_def Let_def ComputeHMAC_def)

text \<open>The signature check on a request that is signed for one body and carries another.\<close>

lemma signature_compares:
  assumes "r_body r = (body, None)" "r_header r ''HashSHA256'' = (if key = '''' then None else Some (hex_encode (mac key hashed)))"
  shows "NewSHA256CheckMiddleware mac key next r w
    = (if key = '''' \<or> mac key body = mac key hashed then next r w else (http_Error ''invalid hash'' 400, w))"
  using assms by (auto simp: same_body NewSHA256CheckMiddleware_def io_ReadAll_def ComputeHMAC_def header_get_def hex_encode_inj)

lemma signature_stage:
  "(if key \<noteq> '''' then NewSHA256CheckMiddleware mac key routes else routes) = NewSHA256CheckMiddleware mac key routes"
  by simp

lemma subnet_passes:
  assumes "case subnet of None \<Rightarrow> True | Some within \<Rightarrow>
      (\<exists>ip. parse_ip (req_header r ''X-Real-IP'') = Some ip \<and> within ip)"
  shows "TrustedSubnetMiddleware parse_ip subnet next r w = next r w"
  using assms by (auto simp: TrustedSubnetMiddleware_def split: option.splits)

text \<open>Up to the signature check the chain undoes what sealing a body did, whatever the request is signed for.\<close>

lemma chain_unseals:
  assumes "matching env pf s cfg parse_ip"
    and "seal_payload env s body n = (Inr (ce, payload), n1)"
    and "arrives (build_request env s path hashed ce payload) r"
  shows "inner_chain pf (ae_suite env) parse_ip cfg routes r w =
    (case NewSHA256CheckMiddleware (pf_mac pf) (cc_key cfg) routes (delivered_request r body) w of (calls, w') \<Rightarrow>
       (gzip_calls (pf_gzip pf) (contains (req_header r ''Accept-Encoding'') ''gzip'') calls, w'))"
proof -
  have h: "r_header r ''Content-Encoding'' = Some ce" "r_body r = (payload, None)"
    "r_header r ''X-Real-IP'' = (if sd_localIP s = '''' then None else Some (sd_localIP s))"
    using assms(1,3) by (simp_all add: arrives_def matching_def)
  have subnet: "TrustedSubnetMiddleware parse_ip (cc_subnet cfg) nxt r' w' = nxt r' w'"
    if "r_header r' ''X-Real-IP'' = r_header r ''X-Real-IP''" for nxt :: "'w handler" and r' w'
    using assms(1) h(3) that
    by (intro subnet_passes) (auto simp: matching_def header_get_def split: option.splits)
  have gzok: "gz_reader (pf_gzip pf) (gz_writer (pf_gzip pf) [body], None) = Inr (body, None)"
    using assms(1) by (simp add: matching_def gzip_ok_def)
  show ?thesis
  proof (cases "sd_publicKey s")
    case None
    with assms(1,2) have "cc_privKey cfg = None" "ce = ''gzip''" "payload = gz_writer (pf_gzip pf) [body]"
      by (auto simp: matching_def seal_payload_def split: option.splits)
    then show ?thesis
      using h(1,2) gzok
      by (simp add: inner_chain_def Let_def signature_stage subnet GzipMiddleware_def header_get_def
          delivered_request_def fun_upd_def)
  next
    case (Some pub)
    then obtain priv where priv: "cc_privKey cfg = Some priv" "key_pair_ok (ae_suite env) pub priv"
      using assms(1) by (auto simp: matching_def split: option.splits)
    obtain rnd where e: "ce = ''encrypted''" "entropy_ok rnd"
      "Encrypt (ae_suite env) rnd pub (gz_writer (pf_gzip pf) [body]) = Inr payload"
      using assms(1,2) Some
      by (auto simp: seal_payload_def matching_def split: prod.splits sum.splits) (metis fst_conv)
    have "Decrypt (ae_suite env) priv payload = Some (Inr (gz_writer (pf_gzip pf) [body]))"
      using assms(1) by (intro decrypt_of_encrypt [OF priv(2) _ e(2,3)]) (simp add: matching_def)
    then show ?thesis
      using h(1,2) gzok priv(1) e(1)
      by (simp add: inner_chain_def Let_def signature_stage DecryptMiddleware_def header_get_def io_ReadAll_def
          subnet GzipMiddleware_def delivered_request_def fun_upd_def)
  qed
qed

lemma chain_delivers:
  assumes "matching env pf s cfg parse_ip"
    and "seal_payload env s body n = (Inr (ce, payload), n1)"
    and "arrives (build_request env s path body ce payload) r"
  shows "inner_chain pf (ae_suite env) parse_ip cfg routes r w =
    (case routes (delivered_request r body) w of (calls, w') \<Rightarrow>
       (gzip_calls (pf_gzip pf) (contains (req_header r ''Accept-Encoding'') ''gzip'') calls, w'))"
proof -
  have "NewSHA256CheckMiddleware (pf_mac pf) (cc_key cfg) routes (delivered_request r body) w
      = routes (delivered_request r body) w"
    using assms(1,3)
      signature_compares [of "delivered_request r body" body "cc_key cfg" "pf_mac pf" body routes w]
    by (simp add: delivered_request_def arrives_def matching_def)
  then show ?thesis by (simp add: chain_unseals [OF assms])
qed



section \<open>A metric on its way\<close>

text \<open>The server as the agent's network: the client gets the status of the response.\<close>

definition server_link :: "'w handler \<Rightarrow> (out_request \<Rightarrow> request) \<Rightarrow> out_request \<Rightarrow> 'w \<Rightarrow> (go_error + nat) \<times> 'w" where
  "server_link srv to_req o' w =
     (case srv (to_req o') w of (calls, w') \<Rightarrow> (Inr (resp_status (respond calls)), w'))"

lemma gzip_calls_status: "ordered calls \<Longrightarrow> resp_status (respond (gzip_calls lib cg calls)) = resp_status (respond calls)"
proof -
  assume "ordered calls"
  then obtain hs code bs where c: "list_all header_op hs" "calls = in_order hs code bs"
    by (auto simp: ordered_def)
  have h: "list_all header_op (hs @ [SetHeader ''Content-Encoding'' ''gzip''])" using c(1) by simp
  show ?thesis
    by (simp add: c gzip_calls_in_order Let_def respond_in_order [OF h] respond_in_order [OF c(1)])
qed

lemma retryOnConnErr_None: "fn n = (None, n') \<Longrightarrow> retryOnConnErr wait fn n = (None, n')"
  by (simp add: retryOnConnErr_def retryDelays_def)

text \<open>C37: On a server whose chain matches the agent's configuration, a body exchanged on the way is found out: a
  request that carries the signature the agent made for one
  body, but another body in its place (compressed and encrypted as the server expects it), reaches the routes
  exactly when no key is configured or both bodies have the same HMAC under the key; otherwise the whole chain
  answers 400 and changes nothing.\<close>
theorem exchanged_body_refused:
  assumes "matching env pf s cfg parse_ip"
    and "seal_payload env s body n = (Inr (ce, payload), n1)"
    and "arrives (build_request env s path hashed ce payload) r"
  shows "if cc_key cfg = '''' \<or> pf_mac pf (cc_key cfg) body = pf_mac pf (cc_key cfg) hashed
    then inner_chain pf (ae_suite env) parse_ip cfg routes r w =
      (case routes (delivered_request r body) w of (calls, w') \<Rightarrow>
         (gzip_calls (pf_gzip pf) (contains (req_header r ''Accept-Encoding'') ''gzip'') calls, w'))
    else resp_status (respond (fst (inner_chain pf (ae_suite env) parse_ip cfg routes r w))) = 400
      \<and> snd (inner_chain pf (ae_suite env) parse_ip cfg routes r w) = w"
proof -
  have "NewSHA256CheckMiddleware (pf_mac pf) (cc_key cfg) routes (delivered_request r body) w
      = (if cc_key cfg = '''' \<or> pf_mac pf (cc_key cfg) body = pf_mac pf (cc_key cfg) hashed
         then routes (delivered_request r body) w else (http_Error ''invalid hash'' 400, w))"
    using assms(1,3)
    by (intro signature_compares) (simp_all add: delivered_request_def arrives_def matching_def)
  then show ?thesis by (simp add: chain_unseals [OF assms] gzip_calls_status)
qed

text \<open>C1: When the agent sends a counter with a valid UTF-8 name to a server with its metrics in memory whose chain
  matches its configuration, sealing the body and building the request succeed, the network delivers the request
  and the response, and the new total fits in 64 bits, then SendCounter returns without an error, the server's
  counter has grown by exactly the delta, and the audit has been told the metric's name once.
  Of the router it is only required that it sends requests for \<open>POST /update\<close> to the first route.\<close>
theorem sent_counter_is_stored:
  assumes "matching env pf snd' cfg parse_ip" and "pf_float pf = ae_float env" and "float_text_ok (ae_float env)"
    and "ae_do env = server_link (inner_chain pf (ae_suite env) parse_ip cfg
            (serve_routes chi (RegisterRoutes pf gs cs h))) to_req"
    and "\<And>o'. arrives o' (to_req o')"
    and "\<And>o' x. o_url o' = sd_baseURL snd' @ ''/update'' \<Longrightarrow>
      \<exists>ps. chi (map (\<lambda>(m, p, h). (m, p)) (RegisterRoutes pf gs cs h)) (delivered_request (to_req o') x) = Matched 0 ps"
    and "ae_newreq env (sd_baseURL snd' @ ''/update'') = None" and "h_storage h = mem_ops"
    and "valid_utf8 name" and "add_safe name d (mem_abs s)"
    and "marshal_metric (ae_float env) (counter_metric name d) = Some b"
    and "seal_payload env snd' b (s, a) = (Inr (ce, payload), (s, a))"
  shows "\<exists>s' r. SendCounter env snd' name d (s, a) = (None, (s', notifyAudit h r [name] a))
    \<and> mem_abs s' = db_add name (sint d) (mem_abs s)"
proof -
  let ?o = "build_request env snd' ''/update'' b ce payload"
  have url: "o_url ?o = sd_baseURL snd' @ ''/update''" by (simp add: build_request_def Let_def)
  obtain ps where ps: "chi (map (\<lambda>(m, p, h). (m, p)) (RegisterRoutes pf gs cs h)) (delivered_request (to_req ?o) b) = Matched 0 ps"
    using assms(6) [OF url] by blast
  let ?r = "(delivered_request (to_req ?o) b)\<lparr>r_params := ps\<rparr>"
  have w: "wire_ok (counter_metric name d)" using assms(9) by (simp add: wire_ok_def)
  obtain s' b' where u: "updateMetricJSONHandler pf h ?r (s, a)
      = (json_response pf b' (h_key h), (s', notifyAudit h ?r [name] a))" "mem_abs s' = db_add name (sint d) (mem_abs s)"
    using mem.update_json_counter [where h = h and pf = pf and s = s and m = "counter_metric name d" and d = d
        and b = b and r = ?r and a = a] assms(2,3,8,10,11) w
    by (auto simp: delivered_request_def)
  have "serve_routes chi (RegisterRoutes pf gs cs h) (delivered_request (to_req ?o) b) (s, a)
      = updateMetricJSONHandler pf h ?r (s, a)"
    by (simp add: serve_routes_def ps) (simp add: RegisterRoutes_def)
  with u(1) have "ae_do env ?o (s, a) = (Inr 200, (s', notifyAudit h ?r [name] a))"
    by (simp add: assms(4) server_link_def chain_delivers [OF assms(1,12,5)] gzip_calls_status)
  then have "post env snd' ''/update'' b (s, a) = (None, (s', notifyAudit h ?r [name] a))"
    by (simp add: post_def assms(7,12))
  then have "SendCounter env snd' name d (s, a) = (None, (s', notifyAudit h ?r [name] a))"
    by (simp add: SendCounter_def sendJSON_def assms(11) retryOnConnErr_None)
  with u(2) show ?thesis by blast
qed

section \<open>A deployment to evaluate on\<close>

text \<open>Encryption, signing and a trusted subnet all on; the transport passes requests on unchanged.\<close>

definition demo_cfg :: "(unit, string) chain_config" where
  "demo_cfg = \<lparr>cc_privKey = Some (), cc_subnet = Some (\<lambda>ip. ip = ''10.0.0.1''), cc_key = ''k''\<rparr>"

definition demo_parse_ip :: "string \<Rightarrow> string option" where
  "demo_parse_ip x = (if x = '''' then None else Some x)"

definition demo_sender :: "unit sender" where
  "demo_sender = NewSender ''http://srv'' ''k'' (Some ()) (Some ''10.0.0.1'')"

definition demo_to_req :: "out_request \<Rightarrow> request" where
  "demo_to_req o' = (bare_request [])\<lparr>r_method := ''POST'', r_path := drop 10 (o_url o'), r_header := o_header o',
     r_body := (o_body o', None)\<rparr>"

definition demo_handlers :: "(mem_store, event list) handlers" where
  "demo_handlers = NewHandlers mem_ops ''k'' (Some record_audit)"

text \<open>A router that knows patterns without parameters.\<close>

definition demo_chi :: "(string \<times> string) list \<Rightarrow> request \<Rightarrow> chi_match" where
  "demo_chi pats r =
     (case filter (\<lambda>i. pats ! i = (r_method r, r_path r)) [0..<length pats] of
        i # _ \<Rightarrow> Matched i (\<lambda>_. '''')
      | [] \<Rightarrow> Refused (http_Error ''404 page not found'' 404))"

lemma demo_chi_update [simp]:
  "demo_chi (map (\<lambda>(m, p, h). (m, p)) (RegisterRoutes pf gs cs h))
     (delivered_request (demo_to_req o') x) = Matched 0 (\<lambda>_. '''')" if "o_url o' = ''http://srv'' @ ''/update''"
  using that by (simp add: demo_chi_def RegisterRoutes_def demo_to_req_def delivered_request_def upt_rec)

definition demo_env :: "(mem_store \<times> event list, unit, unit) agent_env" where
  "demo_env = \<lparr>ae_float = bits_text, ae_mac = pf_mac demo_platform, ae_gzip = magic_lib, ae_suite = plain_suite,
     ae_entropy = Pair fixed_entropy, ae_newreq = (\<lambda>_. None),
     ae_do = server_link (inner_chain demo_platform plain_suite demo_parse_ip demo_cfg
       (serve_routes demo_chi (RegisterRoutes demo_platform [] [] demo_handlers))) demo_to_req,
     ae_wait = no_wait\<rparr>"

lemma demo_env_sel [simp]:
  "ae_float demo_env = bits_text" "ae_suite demo_env = plain_suite" "ae_gzip demo_env = magic_lib"
  "ae_newreq demo_env u = None" "ae_entropy demo_env n = (fixed_entropy, n)" "ae_mac demo_env = pf_mac demo_platform"
  "sd_key demo_sender = ''k''" "sd_baseURL demo_sender = ''http://srv''" "sd_publicKey demo_sender = Some ()" "sd_localIP demo_sender = ''10.0.0.1''"
  "cc_key demo_cfg = ''k''" "cc_privKey demo_cfg = Some ()" "cc_subnet demo_cfg = Some (\<lambda>ip. ip = ''10.0.0.1'')"
  by (simp_all add: demo_env_def demo_sender_def NewSender_def outboundIP_def demo_cfg_def)

lemma demo_matching: "matching demo_env demo_platform demo_sender demo_cfg demo_parse_ip"
  by (simp add: matching_def demo_parse_ip_def)

lemma demo_arrives: "arrives o' (demo_to_req o')"
  by (simp add: arrives_def demo_to_req_def)

definition demo_payload :: "bytes \<Rightarrow> bytes" where
  "demo_payload b = plain_message (gz_writer magic_lib [b])"

lemma demo_seal: "seal_payload demo_env demo_sender b n = (Inr (''encrypted'', demo_payload b), n)"
  by (simp add: seal_payload_def Encrypt_plain demo_payload_def)


theorem exchanged_body_refused_witness:
  "resp_status (respond (fst (inner_chain demo_platform plain_suite demo_parse_ip demo_cfg (\<lambda>r w. ([WriteHeader 200], r # w))
     (demo_to_req (build_request demo_env demo_sender ''/update'' ''{}'' ''encrypted'' (demo_payload ''[]''))) []))) = 400"
  using exchanged_body_refused [OF demo_matching demo_seal demo_arrives,
      where path = "''/update''" and body = "''[]''" and hashed = "''{}''" and w = "[]"
        and routes = "\<lambda>r w. ([WriteHeader 200], r # w)"]
  by (simp add: demo_platform_def)

theorem sent_counter_is_stored_witness:
  "\<exists>s' r. SendCounter demo_env demo_sender ''c'' 5 (NewMemStorage, [])
      = (None, (s', notifyAudit demo_handlers r [''c''] []))
    \<and> mem_abs s' = db_add ''c'' 5 (mem_abs NewMemStorage)"
proof -
  obtain b where b: "marshal_metric bits_text (counter_metric ''c'' 5) = Some b"
    using marshal_metric_decode [OF bits_text_ok, of "counter_metric ''c'' 5"] by (auto simp: wire_ok_def)
  have "\<exists>s' r. SendCounter demo_env demo_sender ''c'' 5 (NewMemStorage, [])
      = (None, (s', notifyAudit demo_handlers r [''c''] []))
    \<and> mem_abs s' = db_add ''c'' (sint (5 :: int64)) (mem_abs NewMemStorage)"
  proof (rule sent_counter_is_stored)
    show "matching demo_env demo_platform demo_sender demo_cfg demo_parse_ip" by (rule demo_matching)
    show "pf_float demo_platform = ae_float demo_env" "float_text_ok (ae_float demo_env)" by (simp_all add: bits_text_ok)
    show "ae_do demo_env = server_link (inner_chain demo_platform (ae_suite demo_env) demo_parse_ip demo_cfg
        (serve_routes demo_chi (RegisterRoutes demo_platform [] [] demo_handlers))) demo_to_req"
      by (simp add: demo_env_def)
    show "marshal_metric (ae_float demo_env) (counter_metric ''c'' 5) = Some b" using b by simp
    show "seal_payload demo_env demo_sender b (NewMemStorage, []) = (Inr (''encrypted'', demo_payload b), (NewMemStorage, []))"
      by (rule demo_seal)
    show "add_safe ''c'' 5 (mem_abs NewMemStorage)"
      by (simp add: add_safe_def db_count_def int64_range_def map_index_def)
  qed (simp_all add: demo_arrives demo_handlers_def NewHandlers_def)
  then show ?thesis by simp
qed

end
