(* ===== verification/Delivery.thy ===== *)
theory Delivery
  imports End_To_End Grpc
begin

text \<open>
  What becomes of one metric the agent sends over HTTP when the network may lose a request or its answer: the
  retry loop of \<open>SendMetric\<close> around the whole server. The interface of the link (locale \<open>metric_link\<close>) says
  what one attempt does to the server's store; the model of the server behind its middleware chain provides it.
\<close>

section \<open>What the agent sends\<close>

text \<open>A metric as a collector makes it; its value survives the wire when it is a number.\<close>

definition collected :: "metrics \<Rightarrow> bool" where
  "collected m \<longleftrightarrow> canonical m \<and> valid_utf8 (ID m)"

definition finite_value :: "metrics \<Rightarrow> bool" where
  "finite_value m \<longleftrightarrow> (case Value m of None \<Rightarrow> True | Some v \<Rightarrow> float_finite v)"

lemma collected_cases:
  assumes "collected m"
  obtains n v where "m = gauge_metric n v" "n \<noteq> ''''" "valid_utf8 n"
    | n d where "m = counter_metric n d" "n \<noteq> ''''" "valid_utf8 n"
  using assms unfolding collected_def canonical_def by metis

lemma collected_metric [simp]:
  "collected (gauge_metric n v) \<longleftrightarrow> n \<noteq> '''' \<and> valid_utf8 n"
  "collected (counter_metric n d) \<longleftrightarrow> n \<noteq> '''' \<and> valid_utf8 n"
  by (auto simp: collected_def canonical_def)

lemma finite_value_metric [simp]:
  "finite_value (gauge_metric n v) \<longleftrightarrow> float_finite v" "finite_value (counter_metric n d)"
  by (simp_all add: finite_value_def)

lemma collected_wire: "collected m \<Longrightarrow> finite_value m \<Longrightarrow> wire_ok m"
  by (auto elim!: collected_cases simp: wire_ok_def)

lemma marshal_collected:
  assumes "float_text_ok ft" "collected m"
  shows "(\<exists>b. marshal_metric ft m = Some b) \<longleftrightarrow> finite_value m"
proof (cases "finite_value m")
  case True
  then show ?thesis using marshal_metric_decode [OF assms(1) collected_wire [OF assms(2)]] by blast
next
  case False
  then have "metrics_to_json ft m = None" by (auto simp: metrics_json_none finite_value_def split: option.splits)
  with False show ?thesis by (simp add: marshal_metric_def)
qed

section \<open>The link\<close>

text \<open>The operation the loop repeats, with the fates of its calls in front of the server.\<close>

definition next_fate :: "rpc_fate list \<Rightarrow> rpc_fate" where
  "next_fate fates = (case fates of [] \<Rightarrow> Answered | f # _ \<Rightarrow> f)"

definition fated ::
    "(rpc_fate \<Rightarrow> metrics \<Rightarrow> 'w \<Rightarrow> go_error option \<times> 'w) \<Rightarrow> metrics \<Rightarrow> rpc_fate list \<times> 'w
      \<Rightarrow> go_error option \<times> (rpc_fate list \<times> 'w)" where
  "fated attempt m fw =
     (case attempt (next_fate (fst fw)) m (snd fw) of (e, w') \<Rightarrow> (e, (tl (fst fw), w')))"

text \<open>
  One attempt to send one metric: a lost request leaves the server alone, a request that arrives is applied
  once whether or not the answer comes back, and a missing answer is an error that the loop retries.
\<close>

locale metric_link =
  fixes attempt :: "rpc_fate \<Rightarrow> metrics \<Rightarrow> 'w \<Rightarrow> go_error option \<times> 'w"
    and store_of :: "'w \<Rightarrow> mem_store"
  assumes answered: "collected m \<Longrightarrow> finite_value m \<Longrightarrow>
      \<exists>w'. attempt Answered m w = (None, w') \<and> store_of w' = mem_apply m (store_of w)"
    and answer_lost: "collected m \<Longrightarrow> finite_value m \<Longrightarrow>
      \<exists>e w'. attempt Answer_Lost m w = (Some e, w') \<and> isRetriableNetError e \<and> store_of w' = mem_apply m (store_of w)"
    and call_lost: "collected m \<Longrightarrow> finite_value m \<Longrightarrow>
      \<exists>e. attempt Call_Lost m w = (Some e, w) \<and> isRetriableNetError e"
    and unsendable: "collected m \<Longrightarrow> \<not> finite_value m \<Longrightarrow>
      \<exists>e. attempt fate m w = (Some e, w) \<and> \<not> isRetriableNetError e"
begin

text \<open>How many times an attempt applies its metric.\<close>

lemma attempt_applies:
  assumes "collected m"
  shows "store_of (snd (attempt fate m w))
    = (if finite_value m \<and> fate \<noteq> Call_Lost then mem_apply m (store_of w) else store_of w)"
proof (cases "finite_value m")
  case True
  with answered [OF assms] answer_lost [OF assms] call_lost [OF assms] show ?thesis
    by (cases fate) (metis rpc_fate.distinct snd_conv)+
next
  case False
  with unsendable [OF assms] show ?thesis by (metis snd_conv)
qed

lemma attempt_result:
  assumes "collected m"
  shows "fst (attempt fate m w) = None \<longleftrightarrow> finite_value m \<and> fate = Answered"
    and "fst (attempt fate m w) = Some e \<Longrightarrow> isRetriableNetError e \<longleftrightarrow> finite_value m"
proof -
  show "fst (attempt fate m w) = None \<longleftrightarrow> finite_value m \<and> fate = Answered"
    using answered [OF assms] answer_lost [OF assms] call_lost [OF assms] unsendable [OF assms]
    by (cases "finite_value m"; cases fate) (metis fst_conv option.distinct(1) rpc_fate.distinct)+
  show "fst (attempt fate m w) = Some e \<Longrightarrow> isRetriableNetError e \<longleftrightarrow> finite_value m"
    using answered [OF assms, of w] answer_lost [OF assms, of w] call_lost [OF assms, of w] unsendable [OF assms, of fate w]
    by (cases "finite_value m"; cases fate) auto
qed

lemma fated_once:
  assumes "fated attempt m fw = (e, fw')" "collected m" "finite_value m"
  shows "\<exists>k \<le> 1. store_of (snd fw') = (mem_apply m ^^ k) (store_of (snd fw)) \<and> (e = None \<longrightarrow> k = 1)"
proof -
  let ?f = "next_fate (fst fw)"
  have "e = fst (attempt ?f m (snd fw))" "snd fw' = snd (attempt ?f m (snd fw))"
    using assms(1) by (auto simp: fated_def split: prod.splits)
  then show ?thesis
    using attempt_applies [OF assms(2), of ?f "snd fw"] attempt_result(1) [OF assms(2), of ?f "snd fw"] assms(3)
    by (cases "?f = Call_Lost") (auto intro: exI [of _ 0] exI [of _ 1])
qed

lemma retryDelays_length: "length retryDelays = 3"
  by (simp add: retryDelays_def)

text \<open>The whole loop makes at most four of them, and is content only when one was answered.\<close>

lemma fated_loop:
  assumes "collected m" "finite_value m" "\<And>d fw. snd (wait d fw) = fw"
    and "retry_range isRetriableNetError ds wait (fated attempt m) err fw = (e, fw')"
  shows "\<exists>k \<le> length ds. store_of (snd fw') = (mem_apply m ^^ k) (store_of (snd fw))
    \<and> (e = None \<longrightarrow> err = None \<or> 0 < k)"
  using assms(4)
proof (induction ds arbitrary: err fw)
  case (Cons d ds)
  show ?case
  proof (cases "\<exists>x. err = Some x \<and> isRetriableNetError x \<and> fst (wait d fw) = None")
    case False
    then have "fw' = fw \<and> (e = None \<longrightarrow> err = None)"
      using Cons.prems assms(3) [of d fw] by (auto split: option.splits if_splits prod.splits)
    then show ?thesis by (auto intro: exI [of _ 0])
  next
    case True
    have "wait d fw = (None, fw)" using True assms(3) [of d fw] by (metis prod.collapse)
    then obtain err' fw1 where 1: "fated attempt m fw = (err', fw1)"
      "retry_range isRetriableNetError ds wait (fated attempt m) err' fw1 = (e, fw')"
      using Cons.prems True by (auto split: prod.splits)
    obtain j where j: "j \<le> 1" "store_of (snd fw1) = (mem_apply m ^^ j) (store_of (snd fw))" "err' = None \<longrightarrow> j = 1"
      using fated_once [OF 1(1) assms(1,2)] by blast
    obtain k where k: "k \<le> length ds" "store_of (snd fw') = (mem_apply m ^^ k) (store_of (snd fw1))"
      "e = None \<longrightarrow> err' = None \<or> 0 < k" using Cons.IH [OF 1(2)] by blast
    have "store_of (snd fw') = (mem_apply m ^^ (k + j)) (store_of (snd fw))" using k(2) j(2) by (simp add: funpow_add)
    then show ?thesis using k j by (intro exI [of _ "k + j"]) auto
  qed
qed (auto intro: exI [of _ 0])

lemma fated_send:
  assumes "collected m" "finite_value m" "\<And>d fw. snd (wait d fw) = fw"
    and "retryOnConnErr wait (fated attempt m) fw = (e, fw')"
  shows "\<exists>k \<le> 4. store_of (snd fw') = (mem_apply m ^^ k) (store_of (snd fw)) \<and> (e = None \<longrightarrow> 0 < k)"
proof -
  obtain err fw1 where 1: "fated attempt m fw = (err, fw1)"
    "retry_range isRetriableNetError retryDelays wait (fated attempt m) err fw1 = (e, fw')"
    using assms(4) by (auto simp: retryOnConnErr_def split: prod.splits)
  obtain j where j: "j \<le> 1" "store_of (snd fw1) = (mem_apply m ^^ j) (store_of (snd fw))" "err = None \<longrightarrow> j = 1"
    using fated_once [OF 1(1) assms(1,2)] by blast
  obtain k where k: "k \<le> 3" "store_of (snd fw') = (mem_apply m ^^ k) (store_of (snd fw1))" "e = None \<longrightarrow> err = None \<or> 0 < k"
    using fated_loop [OF assms(1-3) 1(2)] by (metis retryDelays_length)
  have "store_of (snd fw') = (mem_apply m ^^ (k + j)) (store_of (snd fw))" using k(2) j(2) by (simp add: funpow_add)
  then show ?thesis using k j by (intro exI [of _ "k + j"]) auto
qed

end

section \<open>The server at the other end\<close>

text \<open>One pass of the operation \<open>sendJSON\<close> repeats; the marshalling error is not one the loop retries.\<close>

definition send_once ::
    "('n, 'pub, 'priv) agent_env \<Rightarrow> 'pub sender \<Rightarrow> metrics \<Rightarrow> 'n \<Rightarrow> go_error option \<times> 'n" where
  "send_once env s m n =
     (case marshal_metric (ae_float env) m of
        None \<Rightarrow> (Some (ErrWrap ''marshal'' (ErrOther ''json: unsupported value'')), n)
      | Some body \<Rightarrow> post env s ''/update'' body n)"

lemma SendMetric_once: "SendMetric env s m n = retryOnConnErr (ae_wait env) (send_once env s m) n"
proof (cases "marshal_metric (ae_float env) m")
  case None
  then show ?thesis
    by (simp add: SendMetric_def sendJSON_def send_once_def retryOnConnErr_def retryDelays_def)
next
  case (Some body)
  then have "send_once env s m = post env s ''/update'' body" by (intro ext) (simp add: send_once_def)
  with Some show ?thesis by (simp add: SendMetric_def sendJSON_def)
qed

text \<open>The network in front of a server: each call meets its fate.\<close>

definition faulty_link ::
    "'w handler \<Rightarrow> (out_request \<Rightarrow> request) \<Rightarrow> rpc_fate \<Rightarrow> out_request \<Rightarrow> 'w \<Rightarrow> (go_error + nat) \<times> 'w" where
  "faulty_link srv to_req fate o' w =
     (case fate of
        Call_Lost \<Rightarrow> (Inl (ErrNet True), w)
      | Answered \<Rightarrow> server_link srv to_req o' w
      | Answer_Lost \<Rightarrow> (Inl (ErrNet True), snd (server_link srv to_req o' w)))"

text \<open>
  A deployment: an agent's sender and a server with its storage, its audit state and its log. The storage keeps
  the metrics in memory, alone or as the embedded store of the synchronous mode; \<open>dp_store\<close> reads them.
\<close>

type_synonym ('s, 'a) server_side = "('s \<times> 'a) \<times> log_entry list"

record ('s, 'a, 'pub, 'priv, 'ip) deployment =
  dp_env :: "(('s, 'a) server_side, 'pub, 'priv) agent_env"
  dp_sender :: "'pub sender"
  dp_platform :: platform
  dp_config :: "('priv, 'ip) chain_config"
  dp_parse_ip :: "string \<Rightarrow> 'ip option"
  dp_recoverer :: "('s \<times> 'a) handler \<Rightarrow> ('s \<times> 'a) handler"
  dp_strip :: "('s, 'a) server_side handler \<Rightarrow> ('s, 'a) server_side handler"
  dp_chi :: "(string \<times> string) list \<Rightarrow> request \<Rightarrow> chi_match"
  dp_handlers :: "('s, 'a) handlers"
  dp_store :: "'s \<Rightarrow> mem_store"
  dp_to_req :: "out_request \<Rightarrow> request"

definition dp_server :: "('s, 'a, 'pub, 'priv, 'ip) deployment \<Rightarrow> ('s, 'a) server_side handler" where
  "dp_server d =
     server_chain (dp_recoverer d) (dp_strip d) (dp_platform d) (ae_suite (dp_env d)) (dp_parse_ip d) (dp_config d)
       (serve_routes (dp_chi d) (RegisterRoutes (dp_platform d) [] [] (dp_handlers d)))"

definition server_store :: "('s, 'a, 'pub, 'priv, 'ip) deployment \<Rightarrow> ('s, 'a) server_side \<Rightarrow> mem_store" where
  "server_store d w = dp_store d (fst (fst w))"

text \<open>A storage over a store in memory: its writes are the store's, its reads answer from it and change nothing.\<close>

definition mem_backed :: "'s storage_ops \<Rightarrow> ('s \<Rightarrow> mem_store) \<Rightarrow> bool" where
  "mem_backed ops st \<longleftrightarrow> (\<forall>n s.
     (\<forall>v. st (op_UpdateGauge ops n v s) = mem_UpdateGauge n v (st s))
     \<and> (\<forall>k. st (op_UpdateCounter ops n k s) = mem_UpdateCounter n k (st s))
     \<and> op_GetGauge ops n s = (fst (mem_GetGauge n (st s)), s)
     \<and> op_GetCounter ops n s = (fst (mem_GetCounter n (st s)), s))"

lemma mem_backed_mem: "mem_backed mem_ops (\<lambda>s. s)"
  by (auto simp: mem_backed_def mem_GetGauge_def mem_GetCounter_def split: option.splits)

lemma mem_backed_sync: "mem_backed (sync_ops ft plan path) inner"
  by (auto simp: mem_backed_def sync_ops_def promote_def sync_UpdateGauge_def sync_UpdateCounter_def
      mem_GetGauge_def mem_GetCounter_def split: option.splits)

definition store_op :: "'s storage_ops \<Rightarrow> metrics \<Rightarrow> 's \<Rightarrow> 's" where
  "store_op ops m s =
     (if MType m = TypeGauge then op_UpdateGauge ops (ID m) (the (Value m)) s
      else op_UpdateCounter ops (ID m) (the (Delta m)) s)"

lemma store_op_mem: "mem_backed ops st \<Longrightarrow> collected m \<Longrightarrow> st (store_op ops m s) = mem_apply m (st s)"
  by (auto elim!: collected_cases simp: store_op_def mem_backed_def TypeGauge_def TypeCounter_def)

definition link_attempt ::
    "('s, 'a, 'pub, 'priv, 'ip) deployment \<Rightarrow> rpc_fate \<Rightarrow> metrics \<Rightarrow> ('s, 'a) server_side \<Rightarrow> go_error option \<times> ('s, 'a) server_side" where
  "link_attempt d fate m w =
     send_once ((dp_env d)\<lparr>ae_do := faulty_link (dp_server d) (dp_to_req d) fate\<rparr>) (dp_sender d) m w"

text \<open>
  The parts fit: both sides are configured for each other, requests arrive as they were sent, the router sends
  \<open>POST /update\<close> to its handler, chi's own middlewares let such requests through, and sealing succeeds.
\<close>

definition deployed :: "('s, 'a, 'pub, 'priv, 'ip) deployment \<Rightarrow> bool" where
  "deployed d \<longleftrightarrow>
     (\<forall>f. matching ((dp_env d)\<lparr>ae_do := f\<rparr>) (dp_platform d) (dp_sender d) (dp_config d) (dp_parse_ip d))
     \<and> pf_float (dp_platform d) = ae_float (dp_env d) \<and> float_text_ok (ae_float (dp_env d))
     \<and> ae_newreq (dp_env d) (sd_baseURL (dp_sender d) @ ''/update'') = None
     \<and> (\<forall>f b w. \<exists>ce p. seal_payload ((dp_env d)\<lparr>ae_do := f\<rparr>) (dp_sender d) b w = (Inr (ce, p), w))
     \<and> mem_backed (h_storage (dp_handlers d)) (dp_store d)
     \<and> (\<forall>o'. arrives o' (dp_to_req d o'))
     \<and> (\<forall>hd r w. dp_recoverer d hd r w = hd r w) \<and> (\<forall>hd o' w. dp_strip d hd (dp_to_req d o') w = hd (dp_to_req d o') w)
     \<and> (\<forall>o' b. o_url o' = sd_baseURL (dp_sender d) @ ''/update'' \<longrightarrow>
          (\<exists>ps. dp_chi d (map (\<lambda>(m, p, h). (m, p)) (RegisterRoutes (dp_platform d) [] [] (dp_handlers d)))
                  (delivered_request (dp_to_req d o') b) = Matched 0 ps))"

lemma metric_update_value [simp]:
  "gauge_metric n v\<lparr>Value := Some v'\<rparr> = gauge_metric n v'" "counter_metric n c\<lparr>Delta := Some c'\<rparr> = counter_metric n c'"
  by (simp_all add: gauge_metric_def counter_metric_def)

lemma update_json_mem:
  assumes "mem_backed (h_storage h) st" "float_text_ok (pf_float pf)" "collected m" "finite_value m"
    and "marshal_metric (pf_float pf) m = Some b" "r_body r = (b, None)"
  shows "\<exists>b'. updateMetricJSONHandler pf h r (s, a)
    = (json_response pf b' (h_key h), (store_op (h_storage h) m s, notifyAudit h r [ID m] a))"
proof -
  have w: "wire_ok m" using assms(3,4) by (rule collected_wire)
  have d: "decode_metric (pf_float pf) b = Some m"
    using marshal_metric_decode [OF assms(2) w] assms(5) by auto
  from assms(3) show ?thesis
  proof (cases rule: collected_cases)
    case (1 n v)
    then show ?thesis using assms d
      by (intro exI [of _ b]) (simp add: updateMetricJSONHandler_def update_response_def store_op_def mem_backed_def mem_GetGauge_def mem_UpdateGauge_def)
  next
    case (2 n c)
    let ?m = "counter_metric n (map_index (counters (st s)) n + c)"
    have "wire_ok ?m" using 2 by (intro collected_wire) simp_all
    then obtain b' where "marshal_metric (pf_float pf) ?m = Some b'" using marshal_metric_decode [OF assms(2)] by blast
    with 2(1) assms(1,6) d show ?thesis
      by (intro exI [of _ b']) (simp add: updateMetricJSONHandler_def update_response_def store_op_def mem_backed_def mem_GetCounter_def mem_UpdateCounter_def
          TypeGauge_def TypeCounter_def)
  qed
qed

lemma server_applies:
  assumes "deployed d" "collected m" "finite_value m" "marshal_metric (ae_float (dp_env d)) m = Some b"
    and "seal_payload ((dp_env d)\<lparr>ae_do := f\<rparr>) (dp_sender d) b w0 = (Inr (ce, p), n1)"
  shows "\<exists>w'. server_link (dp_server d) (dp_to_req d)
      (build_request ((dp_env d)\<lparr>ae_do := f\<rparr>) (dp_sender d) ''/update'' b ce p) w = (Inr 200, w')
    \<and> fst (fst w') = store_op (h_storage (dp_handlers d)) m (fst (fst w))"
proof -
  let ?env = "(dp_env d)\<lparr>ae_do := f\<rparr>"
  let ?o = "build_request ?env (dp_sender d) ''/update'' b ce p"
  let ?pf = "dp_platform d" and ?h = "dp_handlers d"
  let ?routes = "serve_routes (dp_chi d) (RegisterRoutes ?pf [] [] ?h)"
  let ?inner = "inner_chain ?pf (ae_suite (dp_env d)) (dp_parse_ip d) (dp_config d) ?routes"
  obtain st a log where w: "w = ((st, a), log)" by (metis prod.collapse)
  have "o_url ?o = sd_baseURL (dp_sender d) @ ''/update''" by (simp add: build_request_def Let_def)
  then obtain ps where ps: "dp_chi d (map (\<lambda>(m, p, h). (m, p)) (RegisterRoutes ?pf [] [] ?h))
      (delivered_request (dp_to_req d ?o) b) = Matched 0 ps"
    using assms(1) unfolding deployed_def by blast
  let ?r = "(delivered_request (dp_to_req d ?o) b)\<lparr>r_params := ps\<rparr>"
  obtain b' where u: "updateMetricJSONHandler ?pf ?h ?r (st, a)
      = (json_response ?pf b' (h_key ?h), (store_op (h_storage ?h) m st, notifyAudit ?h ?r [ID m] a))"
    using update_json_mem [of ?h "dp_store d" ?pf m b ?r st a] assms by (auto simp: deployed_def delivered_request_def)
  have route: "?routes (delivered_request (dp_to_req d ?o) b) (st, a) = updateMetricJSONHandler ?pf ?h ?r (st, a)"
    by (simp add: serve_routes_def ps) (simp add: RegisterRoutes_def)
  have "matching ?env ?pf (dp_sender d) (dp_config d) (dp_parse_ip d)" "arrives ?o (dp_to_req d ?o)"
    using assms(1) unfolding deployed_def by blast+
  from chain_delivers [OF this(1) assms(5) this(2), of ?routes "(st, a)"]
  obtain calls where inner: "?inner (dp_to_req d ?o) (st, a) = (calls, (store_op (h_storage ?h) m st, notifyAudit ?h ?r [ID m] a))"
    "resp_status (respond calls) = 200"
    by (simp add: route u gzip_calls_status)
  have "dp_recoverer d hd r u = hd r u" "dp_strip d hd2 (dp_to_req d x) v = hd2 (dp_to_req d x) v" for hd r u hd2 x v
    using assms(1) unfolding deployed_def by blast+
  note passes = this
  have "dp_recoverer d ?inner = ?inner" by (intro ext passes)
  moreover have "dp_server d (dp_to_req d ?o) w = LoggingMiddleware (dp_recoverer d ?inner) (dp_to_req d ?o) w"
    by (simp add: dp_server_def server_chain_def passes)
  ultimately show ?thesis using inner by (auto simp: server_link_def LoggingMiddleware_def w split: prod.splits)
qed

text \<open>The deployment keeps the contract of the link.\<close>

lemma post_fate:
  assumes "seal_payload ((dp_env d)\<lparr>ae_do := faulty_link srv to_req fate\<rparr>) s b w = (Inr (ce, p), w)"
    and "ae_newreq (dp_env d) (sd_baseURL s @ ''/update'') = None"
    and "server_link srv to_req (build_request ((dp_env d)\<lparr>ae_do := faulty_link srv to_req fate\<rparr>) s ''/update'' b ce p) w
        = (Inr 200, w')"
  shows "post ((dp_env d)\<lparr>ae_do := faulty_link srv to_req fate\<rparr>) s ''/update'' b w
    = (case fate of Call_Lost \<Rightarrow> (Some (ErrNet True), w) | Answered \<Rightarrow> (None, w') | Answer_Lost \<Rightarrow> (Some (ErrNet True), w'))"
  using assms by (cases fate) (simp_all add: post_def faulty_link_def)

lemma deployed_attempt:
  assumes "deployed d" "collected m" "finite_value m"
  shows "\<exists>w'. link_attempt d fate m w
      = (case fate of Call_Lost \<Rightarrow> (Some (ErrNet True), w) | Answered \<Rightarrow> (None, w') | Answer_Lost \<Rightarrow> (Some (ErrNet True), w'))
    \<and> fst (fst w') = store_op (h_storage (dp_handlers d)) m (fst (fst w))
    \<and> server_store d w' = mem_apply m (server_store d w)"
proof -
  let ?f = "faulty_link (dp_server d) (dp_to_req d) fate"
  have "float_text_ok (ae_float (dp_env d))" and new: "ae_newreq (dp_env d) (sd_baseURL (dp_sender d) @ ''/update'') = None"
    using assms(1) unfolding deployed_def by blast+
  with marshal_collected assms(2,3) obtain b where b: "marshal_metric (ae_float (dp_env d)) m = Some b" by blast
  obtain ce p where seal: "seal_payload ((dp_env d)\<lparr>ae_do := ?f\<rparr>) (dp_sender d) b w = (Inr (ce, p), w)"
    using assms(1) unfolding deployed_def by blast
  obtain w' where w': "server_link (dp_server d) (dp_to_req d)
      (build_request ((dp_env d)\<lparr>ae_do := ?f\<rparr>) (dp_sender d) ''/update'' b ce p) w = (Inr 200, w')"
    "fst (fst w') = store_op (h_storage (dp_handlers d)) m (fst (fst w))"
    using server_applies [OF assms b seal] by blast
  have "mem_backed (h_storage (dp_handlers d)) (dp_store d)" using assms(1) unfolding deployed_def by blast
  from store_op_mem [OF this assms(2)] have "server_store d w' = mem_apply m (server_store d w)"
    by (simp add: server_store_def w'(2))
  with post_fate [OF seal new w'(1)] w'(2) show ?thesis
    by (intro exI [of _ w']) (simp add: link_attempt_def send_once_def b)
qed

lemma deployed_link:
  assumes "deployed d"
  shows "metric_link (link_attempt d) (server_store d)"
proof
  fix m w assume c: "collected m" and f: "finite_value m"
  show "\<exists>w'. link_attempt d Answered m w = (None, w') \<and> server_store d w' = mem_apply m (server_store d w)"
    using deployed_attempt [OF assms c f, of Answered w] by (simp del: split_paired_Ex) blast
  obtain w' where "link_attempt d Answer_Lost m w = (Some (ErrNet True), w')"
    "server_store d w' = mem_apply m (server_store d w)"
    using deployed_attempt [OF assms c f, of Answer_Lost w] by (simp del: split_paired_Ex) blast
  then show "\<exists>e w'. link_attempt d Answer_Lost m w = (Some e, w') \<and> isRetriableNetError e
      \<and> server_store d w' = mem_apply m (server_store d w)"
    by (intro exI [of _ "ErrNet True"] exI [of _ w']) simp
  show "\<exists>e. link_attempt d Call_Lost m w = (Some e, w) \<and> isRetriableNetError e"
    using deployed_attempt [OF assms c f, of Call_Lost w] by auto
next
  fix m w fate assume c: "collected m" and f: "\<not> finite_value m"
  have "float_text_ok (ae_float (dp_env d))" using assms unfolding deployed_def by blast
  with marshal_collected c f have "marshal_metric (ae_float (dp_env d)) m = None" by (metis option.exhaust)
  then show "\<exists>e. link_attempt d fate m w = (Some e, w) \<and> \<not> isRetriableNetError e"
    by (simp add: link_attempt_def send_once_def)
qed

section \<open>A metric through the retry loop\<close>

text \<open>\<open>SendMetric\<close> over a network whose calls meet the given fates in turn (and are answered after that).\<close>

definition over_network ::
    "('s, 'a, 'pub, 'priv, 'ip) deployment
      \<Rightarrow> (nat \<Rightarrow> rpc_fate list \<times> ('s, 'a) server_side \<Rightarrow> go_error option \<times> (rpc_fate list \<times> ('s, 'a) server_side))
      \<Rightarrow> (rpc_fate list \<times> ('s, 'a) server_side, 'pub, 'priv) agent_env" where
  "over_network d wait = (let env = dp_env d in
     \<lparr>ae_float = ae_float env, ae_mac = ae_mac env, ae_gzip = ae_gzip env, ae_suite = ae_suite env,
      ae_entropy = (\<lambda>fw. case ae_entropy env (snd fw) of (rnd, w') \<Rightarrow> (rnd, (fst fw, w'))),
      ae_newreq = ae_newreq env,
      ae_do = (\<lambda>o' fw. case faulty_link (dp_server d) (dp_to_req d) (next_fate (fst fw)) o' (snd fw) of
                 (res, w') \<Rightarrow> (res, (tl (fst fw), w'))),
      ae_wait = wait\<rparr>)"

lemma over_network_sel [simp]:
  "ae_float (over_network d wait) = ae_float (dp_env d)" "ae_wait (over_network d wait) = wait"
  "ae_newreq (over_network d wait) = ae_newreq (dp_env d)"
  by (simp_all add: over_network_def Let_def)

lemma over_network_seal:
  assumes "seal_payload ((dp_env d)\<lparr>ae_do := f\<rparr>) s b w = (Inr (ce, p), w)"
  shows "seal_payload (over_network d wait) s b (fates, w) = (Inr (ce, p), (fates, w))"
  using assms by (auto simp: seal_payload_def over_network_def Let_def split: option.splits sum.splits prod.splits)

lemma over_network_request:
  "build_request (over_network d wait) = build_request ((dp_env d)\<lparr>ae_do := f\<rparr>)"
  by (intro ext) (simp add: build_request_def over_network_def Let_def)

lemma over_network_once:
  fixes d :: "('s, 'a, 'pub, 'priv, 'ip) deployment"
  assumes "deployed d" "collected m" "finite_value m"
  shows "send_once (over_network d wait) (dp_sender d) m = fated (link_attempt d) m"
proof
  fix fw :: "rpc_fate list \<times> ('s, 'a) server_side"
  obtain fates w where fw: "fw = (fates, w)" by (cases fw)
  let ?env = "(dp_env d)\<lparr>ae_do := faulty_link (dp_server d) (dp_to_req d) (next_fate fates)\<rparr>"
  have new: "ae_newreq (dp_env d) (sd_baseURL (dp_sender d) @ ''/update'') = None"
    and "float_text_ok (ae_float (dp_env d))" using assms(1) unfolding deployed_def by blast+
  with marshal_collected assms(2,3) obtain b where b: "marshal_metric (ae_float (dp_env d)) m = Some b" by blast
  obtain ce p where seal: "seal_payload ?env (dp_sender d) b w = (Inr (ce, p), w)"
    using assms(1) unfolding deployed_def by blast
  have req: "build_request (over_network d wait) = build_request ?env" by (rule over_network_request)
  have "post (over_network d wait) (dp_sender d) ''/update'' b (fates, w)
      = (case post ?env (dp_sender d) ''/update'' b w of (e, w') \<Rightarrow> (e, (tl fates, w')))"
    unfolding post_def over_network_seal [OF seal] seal req
    by (simp add: new, simp add: over_network_def Let_def split: prod.splits sum.splits)
  then show "send_once (over_network d wait) (dp_sender d) m fw = fated (link_attempt d) m fw"
    by (simp add: fw fated_def link_attempt_def send_once_def b)
qed

text \<open>C4: A metric of the agent sent over a network that may lose requests and answers, through the whole server:
  it is applied at most four times, and if \<open>SendMetric\<close> reports success, at least once. A gauge then has the value
  sent; a counter has grown by a multiple of the delta.\<close>
theorem sent_metric_applied:
  assumes "deployed d" and "collected m" and "finite_value m" and "\<And>n fw. snd (wait n fw) = fw"
    and "SendMetric (over_network d wait) (dp_sender d) m (fates, w) = (e, (fates', w'))"
  shows "\<exists>k \<le> 4. server_store d w' = (mem_apply m ^^ k) (server_store d w) \<and> (e = None \<longrightarrow> 0 < k)"
proof -
  have "retryOnConnErr wait (fated (link_attempt d) m) (fates, w) = (e, (fates', w'))"
    using assms(5) by (simp add: SendMetric_once over_network_once [OF assms(1-3)])
  from metric_link.fated_send [OF deployed_link [OF assms(1)] assms(2-4) this] show ?thesis by simp
qed

lemma gauge_again [simp]: "(mem_apply (gauge_metric n v) ^^ k) st = (if k = 0 then st else mem_UpdateGauge n v st)"
  by (induction k) (auto simp: mem_UpdateGauge_def)

lemma counter_times: "map_index (counters ((mem_apply (counter_metric n c) ^^ k) st)) n = map_index (counters st) n + of_nat k * c"
proof (induction k)
  case (Suc k)
  have "map_index (counters (mem_apply (counter_metric n c) st')) n = map_index (counters st') n + c" for st'
    by (simp add: mem_UpdateCounter_def)
  with Suc show ?case by (simp add: distrib_right del: mem_apply_metric)
qed simp

text \<open>A gauge whose sending is reported as a success is the server's value.\<close>
lemma sent_gauge_current:
  assumes "deployed d" "n \<noteq> ''''" "valid_utf8 n" "float_finite v" "\<And>n fw. snd (wait n fw) = fw"
    and "SendMetric (over_network d wait) (dp_sender d) (gauge_metric n v) (fates, w) = (None, (fates', w'))"
  shows "gauges (server_store d w') n = Some v"
  using sent_metric_applied [OF assms(1) _ _ assms(5,6)] assms(2-4) by (auto simp: mem_UpdateGauge_def)

section \<open>A deployment with everything switched on\<close>

definition demo_over :: "'s storage_ops \<Rightarrow> ('s \<Rightarrow> mem_store) \<Rightarrow> ('s, event list, unit, unit, string) deployment" where
  "demo_over ops st = \<lparr>
     dp_env = \<lparr>ae_float = bits_text, ae_mac = pf_mac demo_platform, ae_gzip = magic_lib, ae_suite = plain_suite,
       ae_entropy = Pair fixed_entropy, ae_newreq = (\<lambda>_. None), ae_do = (\<lambda>_ w. (Inl (ErrNet True), w)), ae_wait = no_wait\<rparr>,
     dp_sender = demo_sender, dp_platform = demo_platform, dp_config = demo_cfg, dp_parse_ip = demo_parse_ip,
     dp_recoverer = (\<lambda>h. h), dp_strip = (\<lambda>h. h), dp_chi = demo_chi,
     dp_handlers = NewHandlers ops ''k'' (Some record_audit), dp_store = st, dp_to_req = demo_to_req\<rparr>"

lemma demo_over_sel [simp]:
  "dp_sender (demo_over ops st) = demo_sender" "dp_platform (demo_over ops st) = demo_platform"
  "dp_config (demo_over ops st) = demo_cfg" "dp_parse_ip (demo_over ops st) = demo_parse_ip"
  "dp_recoverer (demo_over ops st) = (\<lambda>h. h)" "dp_strip (demo_over ops st) = (\<lambda>h. h)" "dp_chi (demo_over ops st) = demo_chi"
  "dp_handlers (demo_over ops st) = NewHandlers ops ''k'' (Some record_audit)" "dp_to_req (demo_over ops st) = demo_to_req"
  "ae_float (dp_env (demo_over ops st)) = bits_text" "ae_newreq (dp_env (demo_over ops st)) u = None"
  "ae_wait (dp_env (demo_over ops st)) = no_wait" "dp_store (demo_over ops st) = st"
  "server_store (demo_over ops st) w = st (fst (fst w))"
  by (simp_all add: demo_over_def server_store_def)

lemma demo_over_deployed:
  assumes "mem_backed ops st"
  shows "deployed (demo_over ops st)"
proof -
  have "matching ((dp_env (demo_over ops st))\<lparr>ae_do := f\<rparr>) demo_platform demo_sender demo_cfg demo_parse_ip" for f
    by (simp add: matching_def demo_parse_ip_def demo_over_def)
  moreover have "seal_payload ((dp_env (demo_over ops st))\<lparr>ae_do := f\<rparr>) demo_sender b w
      = (Inr (''encrypted'', demo_payload b), w)" for f b w
    by (simp add: seal_payload_def Encrypt_plain demo_payload_def demo_over_def)
  ultimately show ?thesis
    by (simp add: deployed_def bits_text_ok demo_arrives NewHandlers_def assms)
qed

text \<open>With the store in memory, and with the store of the synchronous mode.\<close>

abbreviation demo_link :: "(mem_store, event list, unit, unit, string) deployment" where
  "demo_link \<equiv> demo_over mem_ops (\<lambda>s. s)"

abbreviation sync_link :: "(nat \<Rightarrow> io_plan) \<Rightarrow> string \<Rightarrow> (sync_state, event list, unit, unit, string) deployment" where
  "sync_link plan path \<equiv> demo_over (sync_ops bits_text plan path) inner"

lemmas demo_deployed = demo_over_deployed [OF mem_backed_mem]

lemmas sync_deployed = demo_over_deployed [OF mem_backed_sync]

interpretation demo: metric_link "link_attempt demo_link" "server_store demo_link"
  by (rule deployed_link [OF demo_deployed])

interpretation sync_demo: metric_link "link_attempt (sync_link plan path)" "server_store (sync_link plan path)" for plan path
  by (rule deployed_link [OF sync_deployed])

abbreviation fresh_server :: "(mem_store, event list) server_side" where
  "fresh_server \<equiv> ((NewMemStorage, []), [])"

abbreviation demo_send :: "metrics \<Rightarrow> rpc_fate list \<Rightarrow> go_error option \<times> (rpc_fate list \<times> (mem_store, event list) server_side)" where
  "demo_send m fates \<equiv> SendMetric (over_network demo_link no_wait) demo_sender m (fates, fresh_server)"

lemma demo_send_fated: "collected m \<Longrightarrow> finite_value m \<Longrightarrow>
    demo_send m fates = retryOnConnErr no_wait (fated (link_attempt demo_link) m) (fates, fresh_server)"
  using over_network_once [OF demo_deployed, of m no_wait] by (simp add: SendMetric_once)

theorem sent_metric_applied_witness:
  "\<exists>k \<le> 4. fst (fst (snd (snd (demo_send (counter_metric ''c'' 5) [Call_Lost]))))
      = (mem_apply (counter_metric ''c'' 5) ^^ k) NewMemStorage"
proof -
  obtain e fates' w' where r: "demo_send (counter_metric ''c'' 5) [Call_Lost] = (e, (fates', w'))" by (metis prod.collapse)
  then have "SendMetric (over_network demo_link no_wait) (dp_sender demo_link) (counter_metric ''c'' 5)
      ([Call_Lost], fresh_server) = (e, (fates', w'))" by simp
  from sent_metric_applied [OF demo_deployed _ _ _ this] r show ?thesis by (auto simp: no_wait_def)
qed

text \<open>When the answer to a request that was carried out is lost, the loop sends the increment again: \<open>SendMetric\<close>
  reports success and the counter has grown by twice the delta.\<close>
lemma lost_answer_counts_twice:
  "\<exists>w'. demo_send (counter_metric ''c'' 5) [Answer_Lost] = (None, ([], w'))
     \<and> map_index (counters (fst (fst w'))) ''c'' = 10"
proof -
  let ?m = "counter_metric ''c'' 5"
  have m: "collected ?m" "finite_value ?m" by simp_all
  obtain w1 where w1: "link_attempt demo_link Answer_Lost ?m fresh_server = (Some (ErrNet True), w1)"
    "server_store demo_link w1 = mem_apply ?m NewMemStorage"
    using deployed_attempt [OF demo_deployed m, of Answer_Lost fresh_server] by (simp del: split_paired_Ex) blast
  obtain w2 where w2: "link_attempt demo_link Answered ?m w1 = (None, w2)"
    "server_store demo_link w2 = mem_apply ?m (server_store demo_link w1)"
    using deployed_attempt [OF demo_deployed m, of Answered w1] by (simp del: split_paired_Ex) blast
  have "demo_send ?m [Answer_Lost] = (None, ([], w2))"
    unfolding demo_send_fated [OF m]
    by (simp add: retryOnConnErr_def retryDelays_def fated_def next_fate_def w1 w2 no_wait_def)
  moreover have "map_index (counters (fst (fst w2))) ''c'' = 10"
    using w1(2) w2(2) by (simp add: mem_UpdateCounter_def NewMemStorage_def map_index_def)
  ultimately show ?thesis by blast
qed

end
