(* ===== verification/Collector_Buffer.thy ===== *)
theory Collector_Buffer
  imports Collector_Facts Delivery
begin

text \<open>
  The buffered path of \<open>internal/agent/collector.go\<close> under concurrency: \<open>AddMetric\<close> and the ticker of
  \<open>StartFlusher\<close> start goroutines that run \<open>sendBatch\<close>; the mutex of the collector makes each of these steps one.
\<close>

record 'n buffer_state =
  bf_collector :: collector
  bf_senders :: nat
  bf_net :: 'n
  bf_added :: "metrics list"
  bf_cleared :: "metrics list"

definition start_buffer :: "int \<Rightarrow> string \<Rightarrow> 'n \<Rightarrow> 'n buffer_state" where
  "start_buffer batchSize endpoint n =
     \<lparr>bf_collector = NewCollector batchSize endpoint, bf_senders = 0, bf_net = n, bf_added = [], bf_cleared = []\<rparr>"

text \<open>\<open>bf_cleared\<close> remembers what \<open>sendBatch\<close> has taken out of the buffer; a tick starts a sender unless the buffer is empty.\<close>

inductive buffer_step ::
    "(('n \<Rightarrow> go_error option \<times> 'n) \<Rightarrow> 'n \<Rightarrow> go_error option \<times> 'n) \<Rightarrow> ('n, 'pub, 'priv) agent_env
      \<Rightarrow> 'n buffer_state \<Rightarrow> 'n buffer_state \<Rightarrow> bool"
  for retry and env :: "('n, 'pub, 'priv) agent_env" where
  add: "AddMetric m (bf_collector s) = (c', full) \<Longrightarrow>
    buffer_step retry env s (s\<lparr>bf_collector := c', bf_senders := (if full then Suc (bf_senders s) else bf_senders s),
      bf_added := bf_added s @ [m]\<rparr>)"
| tick: "buffer_step retry env s
    (s\<lparr>bf_senders := (if StartFlusher_tick (bf_collector s) then Suc (bf_senders s) else bf_senders s)\<rparr>)"
| send: "bf_senders s = Suc k \<Longrightarrow> sendBatch retry env (bf_collector s) (bf_net s) = (c', n') \<Longrightarrow>
    buffer_step retry env s (s\<lparr>bf_collector := c', bf_senders := k, bf_net := n',
      bf_cleared := bf_cleared s @ (if c_buffer c' = [] then c_buffer (bf_collector s) else [])\<rparr>)"

section \<open>Nothing leaves the buffer on its own\<close>

lemma sendBatch_buffer: "c_buffer (fst (sendBatch retry env c n)) \<in> {c_buffer c, []}"
  by (auto simp: sendBatch_def Let_def split: option.splits sum.splits prod.splits)

lemma AddMetric_buffer: "AddMetric m c = (c', full) \<Longrightarrow> c_buffer c' = c_buffer c @ [m] \<and> c_BatchSize c' = c_BatchSize c"
  by (auto simp: AddMetric_def Let_def)

text \<open>What was added is what was taken out, in order, and then what is still there.\<close>

lemma buffer_fifo:
  assumes "(buffer_step retry env)\<^sup>*\<^sup>* (start_buffer b u n) s"
  shows "bf_added s = bf_cleared s @ c_buffer (bf_collector s)"
  using assms
proof (induction rule: rtranclp_induct)
  case base
  show ?case by (simp add: start_buffer_def NewCollector_def)
next
  case (step y z)
  from step.hyps(2) step.IH show ?case
  proof cases
    case (add m c' full)
    then show ?thesis using step.IH AddMetric_buffer [OF add(2)] by simp
  next
    case (send k c' n')
    then show ?thesis using step.IH sendBatch_buffer [of retry env "bf_collector y" "bf_net y"] by auto
  qed simp
qed

section \<open>A value that cannot be marshalled\<close>

lemma marshal_blocked: "marshal_list ft xs = None \<Longrightarrow> marshal_list ft (xs @ ys) = None"
  by (auto simp: marshal_list_none)

text \<open>A metric whose value is not a number stops the buffer for good: every later flush gives up before it posts,
  nothing is ever sent again and the buffer only grows.\<close>

lemma poisoned_buffer_never_sent:
  assumes "(buffer_step retry env)\<^sup>*\<^sup>* s s'" "m \<in> set (c_buffer (bf_collector s))" "\<not> finite_value m"
  shows "bf_net s' = bf_net s \<and> bf_cleared s' = bf_cleared s
    \<and> (\<exists>later. c_buffer (bf_collector s') = c_buffer (bf_collector s) @ later)"
  using assms(1)
proof (induction rule: rtranclp_induct)
  case (step y z)
  have "marshal_list (ae_float env) (c_buffer (bf_collector s)) = None"
    using assms(2,3) by (auto simp: marshal_list_none finite_value_def split: option.splits)
  note poisoned = this
  from step obtain later where l: "c_buffer (bf_collector y) = c_buffer (bf_collector s) @ later" by blast
  with poisoned marshal_blocked have none: "marshal_list (ae_float env) (c_buffer (bf_collector y)) = None" by metis
  from step.hyps(2) show ?case
  proof cases
    case (add m c' full)
    then show ?thesis using step.IH l AddMetric_buffer [OF add(2)] by simp
  next
    case (send k c' n')
    have "sendBatch retry env (bf_collector y) (bf_net y) = (bf_collector y, bf_net y)"
      using none by (simp add: sendBatch_def)
    with send step.IH l none show ?thesis by (auto simp: marshal_list_def)
  qed (use step.IH in simp)
qed simp

end
