(* ===== verification/Agent_Main.thy ===== *)
theory Agent_Main
  imports Sender Grpc Go_Chan
begin

text \<open>
  \<open>cmd/agent/main.go\<close>: the set-up and, as a step relation, the reporter, the jobs channel and the worker
  pool with the shutdown signal and the drain context. A \<open>select\<close> with several ready cases may take any of
  them, so each ready case is a step. Time passes in seconds; the drain context is created at start-up and
  ends \<open>drainTimeout\<close> later.
\<close>

section \<open>Set-up\<close>

definition server_url :: "string \<Rightarrow> string" where
  "server_url address =
     (if \<not> has_prefix address ''http://'' \<and> \<not> has_prefix address ''https://'' then ''http://'' @ address else address)"

definition setup_sender ::
    "'pub key_library \<Rightarrow> string \<Rightarrow> string \<Rightarrow> string \<Rightarrow> string option \<Rightarrow> go_error + 'pub sender" where
  "setup_sender lib url key cryptoKey dialled =
     (if cryptoKey \<noteq> '''' then
        (case LoadPublicKey lib cryptoKey of
           Inl err \<Rightarrow> Inl (ErrWrap ''load public key'' err)
         | Inr pk \<Rightarrow> Inr (NewSender url key (Some pk) dialled))
      else Inr (NewSender url key None dialled))"

text \<open>The gRPC reporter: a tick sends what there is, the shutdown sends once more.\<close>

definition grpc_report_tick ::
    "((string \<Rightarrow> string list) \<Rightarrow> pb_metric list \<Rightarrow> 'n \<Rightarrow> grpc_status option \<times> 'n) \<Rightarrow> grpc_sender
      \<Rightarrow> metrics list \<Rightarrow> 'n \<Rightarrow> 'n" where
  "grpc_report_tick invoke g metrics n = (if metrics = [] then n else snd (grpc_SendBatch invoke g metrics n))"

definition grpc_report_flush ::
    "((string \<Rightarrow> string list) \<Rightarrow> pb_metric list \<Rightarrow> 'n \<Rightarrow> grpc_status option \<times> 'n) \<Rightarrow> grpc_sender
      \<Rightarrow> metrics list \<Rightarrow> 'n \<Rightarrow> 'n" where
  "grpc_report_flush invoke g metrics n = snd (grpc_SendBatch invoke g metrics n)"

section \<open>Reporter and workers\<close>

definition drainTimeout :: nat where
  "drainTimeout = 30"

datatype reporter =
    Waiting
  | Dispatching "metrics list"
  | Flushing "metrics list"
  | Returned

text \<open>\<open>Sending m d\<close>: the worker is in \<open>SendMetric\<close>, with the drain context when \<open>d\<close>.\<close>

datatype worker = Idle | Sending metrics bool | Exited

text \<open>
  \<open>a_snapshot\<close> is what the collector would return now. The last four fields are history: what was put into
  the channel, what was taken out, whose sending has ended, and what the reporter gave up on.
\<close>

record agent_state =
  a_cancelled :: bool
  a_time :: nat
  a_snapshot :: "metrics list"
  a_rep :: reporter
  a_jobs :: "metrics chan"
  a_workers :: "worker list"
  a_handed :: "metrics list"
  a_taken :: "metrics list"
  a_finished :: "metrics list"
  a_given_up :: "metrics list"

definition start_agent :: "nat \<Rightarrow> agent_state" where
  "start_agent rateLimit = \<lparr>a_cancelled = False, a_time = 0, a_snapshot = [], a_rep = Waiting,
     a_jobs = make_chan (rateLimit * 2), a_workers = replicate rateLimit Idle,
     a_handed = [], a_taken = [], a_finished = [], a_given_up = []\<rparr>"

definition drain_over :: "agent_state \<Rightarrow> bool" where
  "drain_over s \<longleftrightarrow> a_time s \<ge> drainTimeout"

text \<open>The reporter returns: its deferred \<open>close(jobs)\<close> runs (it would panic on a closed channel).\<close>

definition reporter_return :: "metrics list \<Rightarrow> agent_state \<Rightarrow> agent_state option" where
  "reporter_return rest s =
     (case chan_close (a_jobs s) of
        None \<Rightarrow> None
      | Some c \<Rightarrow> Some (s\<lparr>a_jobs := c, a_rep := Returned, a_given_up := a_given_up s @ rest\<rparr>))"

definition hand_over :: "metrics \<Rightarrow> reporter \<Rightarrow> agent_state \<Rightarrow> agent_state option" where
  "hand_over m rep' s =
     (case chan_put m (a_jobs s) of
        None \<Rightarrow> None
      | Some c \<Rightarrow> Some (s\<lparr>a_jobs := c, a_rep := rep', a_handed := a_handed s @ [m]\<rparr>))"

inductive env_step :: "agent_state \<Rightarrow> agent_state \<Rightarrow> bool" where
  collect: "env_step s (s\<lparr>a_snapshot := ms\<rparr>)"
| signal: "env_step s (s\<lparr>a_cancelled := True\<rparr>)"
| second: "env_step s (s\<lparr>a_time := Suc (a_time s)\<rparr>)"
| tick: "a_rep s = Waiting \<Longrightarrow> env_step s (s\<lparr>a_rep := Dispatching (a_snapshot s)\<rparr>)"

inductive own_step :: "agent_state \<Rightarrow> agent_state \<Rightarrow> bool" where
  dispatch: "a_rep s = Dispatching (m # ms) \<Longrightarrow> hand_over m (Dispatching ms) s = Some s' \<Longrightarrow> own_step s s'"
| dispatched: "a_rep s = Dispatching [] \<Longrightarrow> own_step s (s\<lparr>a_rep := Waiting\<rparr>)"
| dispatch_cancel: "a_rep s = Dispatching (m # ms) \<Longrightarrow> a_cancelled s \<Longrightarrow>
    reporter_return (m # ms) s = Some s' \<Longrightarrow> own_step s s'"
| flush_start: "a_rep s = Waiting \<Longrightarrow> a_cancelled s \<Longrightarrow> own_step s (s\<lparr>a_rep := Flushing (a_snapshot s)\<rparr>)"
| flush: "a_rep s = Flushing (m # ms) \<Longrightarrow> hand_over m (Flushing ms) s = Some s' \<Longrightarrow> own_step s s'"
| flushed: "a_rep s = Flushing [] \<Longrightarrow> reporter_return [] s = Some s' \<Longrightarrow> own_step s s'"
| flush_drain: "a_rep s = Flushing (m # ms) \<Longrightarrow> drain_over s \<Longrightarrow> reporter_return (m # ms) s = Some s' \<Longrightarrow> own_step s s'"
| take_job: "i < length (a_workers s) \<Longrightarrow> a_workers s ! i = Idle \<Longrightarrow> chan_take (a_jobs s) = Some (m, c) \<Longrightarrow>
    own_step s (s\<lparr>a_jobs := c, a_workers := (a_workers s)[i := Sending m (a_cancelled s)], a_taken := a_taken s @ [m]\<rparr>)"
| job_done: "i < length (a_workers s) \<Longrightarrow> a_workers s ! i = Sending m d \<Longrightarrow>
    own_step s (s\<lparr>a_workers := (a_workers s)[i := Idle], a_finished := a_finished s @ [m]\<rparr>)"
| worker_exit: "i < length (a_workers s) \<Longrightarrow> a_workers s ! i = Idle \<Longrightarrow> chan_recv (a_jobs s) = ChanClosed \<Longrightarrow>
    own_step s (s\<lparr>a_workers := (a_workers s)[i := Exited]\<rparr>)"

definition agent_step :: "agent_state \<Rightarrow> agent_state \<Rightarrow> bool" where
  "agent_step s s' \<longleftrightarrow> env_step s s' \<or> own_step s s'"

definition agent_reachable :: "nat \<Rightarrow> agent_state \<Rightarrow> bool" where
  "agent_reachable n s \<longleftrightarrow> agent_step\<^sup>*\<^sup>* (start_agent n) s"

definition all_exited :: "agent_state \<Rightarrow> bool" where
  "all_exited s \<longleftrightarrow> (\<forall>w \<in> set (a_workers s). w = Exited)"

section \<open>The invariant\<close>

definition sending :: "agent_state \<Rightarrow> metrics list" where
  "sending s = concat (map (\<lambda>w. case w of Sending m d \<Rightarrow> [m] | _ \<Rightarrow> []) (a_workers s))"

definition agent_inv :: "nat \<Rightarrow> agent_state \<Rightarrow> bool" where
  "agent_inv n s \<longleftrightarrow>
     a_handed s = a_taken s @ ch_buf (a_jobs s)
     \<and> length (ch_buf (a_jobs s)) \<le> ch_cap (a_jobs s) \<and> ch_cap (a_jobs s) = 2 * n
     \<and> length (a_workers s) = n
     \<and> mset (a_taken s) = mset (a_finished s) + mset (sending s)
     \<and> (ch_closed (a_jobs s) \<longleftrightarrow> a_rep s = Returned)
     \<and> (Exited \<in> set (a_workers s) \<longrightarrow> ch_closed (a_jobs s) \<and> ch_buf (a_jobs s) = [])
     \<and> (a_given_up s \<noteq> [] \<longrightarrow> a_rep s = Returned \<and> a_cancelled s)"

lemma sending_update:
  assumes "i < length ws"
  shows "mset (concat (map f (ws[i := w]))) + mset (f (ws ! i)) = mset (concat (map f ws)) + mset (f w)"
  using assms
proof (induction ws arbitrary: i)
  case (Cons x ws)
  then show ?case by (cases i) (simp_all add: ac_simps)
qed simp

lemma agent_inv_start: "agent_inv n (start_agent n)"
  by (auto simp: agent_inv_def start_agent_def make_chan_def sending_def map_replicate)

lemma agent_inv_env: "env_step s s' \<Longrightarrow> agent_inv n s \<Longrightarrow> agent_inv n s'"
  by (cases rule: env_step.cases) (auto simp: agent_inv_def sending_def)

lemma hand_over_inv:
  assumes "agent_inv n s" "hand_over m rep' s = Some s'" "a_rep s \<noteq> Returned" "rep' \<noteq> Returned"
  shows "agent_inv n s'"
proof -
  obtain c where c: "chan_put m (a_jobs s) = Some c"
    "s' = s\<lparr>a_jobs := c, a_rep := rep', a_handed := a_handed s @ [m]\<rparr>"
    using assms(2) by (auto simp: hand_over_def split: option.splits)
  have h: "\<not> ch_closed (a_jobs s)" "a_handed s = a_taken s @ ch_buf (a_jobs s)"
    "length (ch_buf (a_jobs s)) \<le> ch_cap (a_jobs s)"
    using assms(1,3) by (simp_all add: agent_inv_def)
  from ch.put_keeps_order [OF h c(1)] assms show ?thesis
    by (auto simp: agent_inv_def c(2) sending_def)
qed

lemma reporter_return_inv:
  assumes "agent_inv n s" "reporter_return rest s = Some s'" "rest = [] \<or> a_cancelled s"
  shows "agent_inv n s'"
  using assms
  by (auto simp: agent_inv_def reporter_return_def chan_close_def sending_def split: option.splits if_splits)

lemma set_list_update_exited: "Exited \<in> set (ws[i := w]) \<Longrightarrow> w \<noteq> Exited \<Longrightarrow> Exited \<in> set ws"
  using set_update_subset_insert [of ws i w] by auto

text \<open>A flush only starts once the signal has come.\<close>

definition flush_inv :: "agent_state \<Rightarrow> bool" where
  "flush_inv s \<longleftrightarrow> ((\<exists>ms. a_rep s = Flushing ms) \<longrightarrow> a_cancelled s)"

lemma agent_inv_own:
  assumes "own_step s s'" "agent_inv n s" "flush_inv s"
  shows "agent_inv n s'"
  using assms(1)
proof cases
  case (dispatch m ms)
  then show ?thesis using hand_over_inv [OF assms(2)] by simp
next
  case dispatched
  then show ?thesis using assms(2) by (auto simp: agent_inv_def sending_def)
next
  case (dispatch_cancel m ms)
  then show ?thesis using reporter_return_inv assms(2) by blast
next
  case flush_start
  then show ?thesis using assms(2) by (auto simp: agent_inv_def sending_def)
next
  case (flush m ms)
  then show ?thesis using hand_over_inv [OF assms(2)] by simp
next
  case flushed
  then show ?thesis using reporter_return_inv assms(2) by blast
next
  case (flush_drain m ms)
  then show ?thesis using reporter_return_inv assms(2,3) by (auto simp: flush_inv_def)
next
  case (take_job i m c)
  have "a_handed s = a_taken s @ ch_buf (a_jobs s)" using assms(2) by (simp add: agent_inv_def)
  from ch.take_keeps_order [OF this take_job(4)]
  have c: "a_handed s = (a_taken s @ [m]) @ ch_buf c" "length (ch_buf c) \<le> length (ch_buf (a_jobs s))"
    "ch_cap c = ch_cap (a_jobs s)" "ch_closed c = ch_closed (a_jobs s)" "ch_buf (a_jobs s) \<noteq> []"
    by auto
  have "mset (sending s') = mset (sending s) + {#m#}"
    using sending_update [OF take_job(2), of "\<lambda>w. case w of Sending m d \<Rightarrow> [m] | _ \<Rightarrow> []" "Sending m (a_cancelled s)"]
    by (simp add: sending_def take_job)
  then show ?thesis
    using assms(2) c take_job set_list_update_exited [of "a_workers s" i] by (auto simp: agent_inv_def)
next
  case (job_done i m d)
  have "mset (sending s') + {#m#} = mset (sending s)"
    using sending_update [OF job_done(2), of "\<lambda>w. case w of Sending m d \<Rightarrow> [m] | _ \<Rightarrow> []" Idle]
    by (simp add: sending_def job_done)
  then show ?thesis
    using assms(2) job_done set_list_update_exited [of "a_workers s" i Idle] by (auto simp: agent_inv_def)
next
  case (worker_exit i)
  have "mset (sending s') = mset (sending s)"
    using sending_update [OF worker_exit(2), of "\<lambda>w. case w of Sending m d \<Rightarrow> [m] | _ \<Rightarrow> []" Exited]
    by (simp add: sending_def worker_exit)
  moreover have "ch_closed (a_jobs s)" "ch_buf (a_jobs s) = []"
    using worker_exit(4) by (auto simp: chan_recv_def split: list.splits if_splits)
  ultimately show ?thesis using assms(2) worker_exit by (auto simp: agent_inv_def)
qed

lemma flush_inv_step: "agent_step s s' \<Longrightarrow> flush_inv s \<Longrightarrow> flush_inv s'"
  unfolding agent_step_def
  by (elim disjE env_step.cases own_step.cases)
    (auto simp: flush_inv_def hand_over_def reporter_return_def split: option.splits)

lemma agent_invs:
  assumes "agent_reachable n s"
  shows "agent_inv n s \<and> flush_inv s"
  using assms unfolding agent_reachable_def
proof (induction rule: rtranclp_induct)
  case base
  have "flush_inv (start_agent n)" by (simp add: flush_inv_def start_agent_def)
  then show ?case using agent_inv_start by blast
next
  case (step s s')
  then show ?case
    using agent_inv_env agent_inv_own flush_inv_step unfolding agent_step_def by blast
qed

section \<open>Safety\<close>

text \<open>C22: In every reachable state of the agent the metrics taken from the channel are the first ones put
  in, in order, the channel holds at most twice the worker count, and every metric taken is either finished
  or in exactly one worker's hands; the reporter never sends on a closed channel or closes it twice.\<close>
theorem agent_pipeline_fifo:
  assumes "agent_reachable n s"
  shows "a_handed s = a_taken s @ ch_buf (a_jobs s) \<and> length (ch_buf (a_jobs s)) \<le> 2 * n
    \<and> mset (a_taken s) = mset (a_finished s) + mset (sending s)
    \<and> (ch_closed (a_jobs s) \<longleftrightarrow> a_rep s = Returned)"
  using agent_invs [OF assms] by (auto simp: agent_inv_def)

lemma drained:
  assumes "agent_inv n s" "0 < n" "all_exited s"
  shows "mset (a_finished s) = mset (a_handed s)"
proof -
  have "Exited \<in> set (a_workers s)"
    using assms by (cases "a_workers s") (auto simp: agent_inv_def all_exited_def)
  moreover have "sending s = []" using assms(3) by (auto simp: sending_def all_exited_def)
  ultimately show ?thesis using assms(1) by (simp add: agent_inv_def)
qed

text \<open>When all workers have exited, every metric that was put into the channel has been through
  \<open>SendMetric\<close>, none twice.\<close>
lemma agent_drains_queue:
  assumes "agent_reachable n s" and "0 < n" and "all_exited s"
  shows "mset (a_finished s) = mset (a_handed s)"
  using agent_invs [OF assms(1)] drained assms(2,3) by blast

section \<open>Shutdown ends\<close>

definition worker_weight :: "worker \<Rightarrow> nat" where
  "worker_weight w = (case w of Idle \<Rightarrow> 1 | Sending _ _ \<Rightarrow> 2 | Exited \<Rightarrow> 0)"

text \<open>\<open>k\<close> bounds the size of the snapshot the final flush will take.\<close>

definition reporter_weight :: "nat \<Rightarrow> agent_state \<Rightarrow> nat" where
  "reporter_weight k s =
     (case a_rep s of
        Waiting \<Rightarrow> 3 * k + 2
      | Dispatching ms \<Rightarrow> 3 * length ms + 3 * k + 3
      | Flushing ms \<Rightarrow> 3 * length ms + 1
      | Returned \<Rightarrow> 0)"

definition work_within :: "nat \<Rightarrow> agent_state \<Rightarrow> nat" where
  "work_within k s = reporter_weight k s + 2 * length (ch_buf (a_jobs s)) + sum_list (map worker_weight (a_workers s))"

definition work_left :: "agent_state \<Rightarrow> nat" where
  "work_left s = work_within (length (a_snapshot s)) s"

lemma hand_over_weight:
  assumes "hand_over m rep' s = Some s'"
  shows "length (ch_buf (a_jobs s')) = Suc (length (ch_buf (a_jobs s))) \<and> a_rep s' = rep'
    \<and> a_snapshot s' = a_snapshot s \<and> a_workers s' = a_workers s"
  using assms by (auto simp: hand_over_def chan_put_def chan_send_def split: option.splits send_result.splits if_splits)

lemma reporter_return_weight:
  assumes "reporter_return rest s = Some s'"
  shows "ch_buf (a_jobs s') = ch_buf (a_jobs s) \<and> a_rep s' = Returned \<and> a_workers s' = a_workers s \<and> a_snapshot s' = a_snapshot s"
  using assms by (auto simp: reporter_return_def chan_close_def split: option.splits if_splits)

lemma sum_list_worker_update:
  "i < length ws \<Longrightarrow> sum_list (map f (ws[i := w])) + f (ws ! i) = sum_list (map f ws) + (f w :: nat)"
proof (induction ws arbitrary: i)
  case (Cons x ws)
  then show ?case by (cases i) simp_all
qed simp

lemma own_step_within:
  assumes "own_step s s'" "a_rep s = Waiting \<Longrightarrow> a_rep s' \<noteq> Waiting \<Longrightarrow> length (a_snapshot s) \<le> k"
  shows "work_within k s' < work_within k s"
  using assms(1)
proof cases
  case (dispatch m ms)
  then show ?thesis using hand_over_weight by (fastforce simp: work_within_def reporter_weight_def)
next
  case dispatched
  then show ?thesis by (simp add: work_within_def reporter_weight_def)
next
  case (dispatch_cancel m ms)
  then show ?thesis using reporter_return_weight [OF dispatch_cancel(3)] by (simp add: work_within_def reporter_weight_def)
next
  case flush_start
  then show ?thesis using assms(2) by (simp add: work_within_def reporter_weight_def)
next
  case (flush m ms)
  then show ?thesis using hand_over_weight [OF flush(2)] by (simp add: work_within_def reporter_weight_def)
next
  case flushed
  then show ?thesis using reporter_return_weight [OF flushed(2)] by (simp add: work_within_def reporter_weight_def)
next
  case (flush_drain m ms)
  then show ?thesis using reporter_return_weight [OF flush_drain(3)] by (simp add: work_within_def reporter_weight_def)
next
  case (take_job i m c)
  have "length (ch_buf (a_jobs s)) = Suc (length (ch_buf c))"
    using take_job(4) by (auto simp: chan_take_def chan_recv_def split: list.splits if_splits)
  with sum_list_worker_update [OF take_job(2), of worker_weight "Sending m (a_cancelled s)"] take_job(1,3)
  show ?thesis by (simp add: work_within_def reporter_weight_def worker_weight_def split: reporter.split)
next
  case (job_done i m d)
  with sum_list_worker_update [OF job_done(2), of worker_weight Idle]
  show ?thesis by (simp add: work_within_def reporter_weight_def worker_weight_def split: reporter.split)
next
  case (worker_exit i)
  with sum_list_worker_update [OF worker_exit(2), of worker_weight Exited]
  show ?thesis by (simp add: work_within_def reporter_weight_def worker_weight_def split: reporter.split)
qed

lemma own_step_snapshot: "own_step s s' \<Longrightarrow> a_snapshot s' = a_snapshot s"
  by (cases rule: own_step.cases) (auto simp: hand_over_weight reporter_return_weight)

lemma own_step_weight: "own_step s s' \<Longrightarrow> work_left s' < work_left s"
  using own_step_within [of s s' "length (a_snapshot s)"] own_step_snapshot [of s s'] by (simp add: work_left_def)

text \<open>A worker that has not exited can always act when the channel holds something or is closed.\<close>

lemma worker_can_act:
  assumes "w \<in> set (a_workers s)" "w \<noteq> Exited" "ch_buf (a_jobs s) \<noteq> [] \<or> ch_closed (a_jobs s)"
  shows "\<exists>s'. own_step s s'"
proof -
  obtain i where i: "i < length (a_workers s)" "a_workers s ! i = w" using assms(1) by (metis in_set_conv_nth)
  show ?thesis
  proof (cases w)
    case Idle
    show ?thesis
    proof (cases "chan_recv (a_jobs s)")
      case (Received m c)
      then have "chan_take (a_jobs s) = Some (m, c)" by (simp add: chan_take_def)
      then show ?thesis using own_step.take_job i Idle by blast
    next
      case ChanClosed
      then show ?thesis using own_step.worker_exit i Idle by blast
    next
      case RecvBlock
      then show ?thesis using assms(3) by (auto simp: chan_recv_def split: list.splits if_splits)
    qed
  next
    case (Sending m d)
    then show ?thesis using own_step.job_done i by blast
  qed (use assms(2) in simp)
qed

lemma shutdown_not_stuck:
  assumes "agent_inv n s" "0 < n" "a_cancelled s" "\<not> all_exited s"
  shows "\<exists>s'. own_step s s'"
proof -
  obtain w where w: "w \<in> set (a_workers s)" "w \<noteq> Exited" using assms(4) by (auto simp: all_exited_def)
  have full: "\<exists>s'. own_step s s'" if "chan_put m (a_jobs s) = None" "\<not> ch_closed (a_jobs s)" for m
  proof -
    have "ch_cap (a_jobs s) \<le> length (ch_buf (a_jobs s))"
      using that by (auto simp: chan_put_def chan_send_def split: if_splits)
    then have "ch_buf (a_jobs s) \<noteq> []" using assms(1,2) by (auto simp: agent_inv_def)
    then show ?thesis using worker_can_act [OF w] by simp
  qed
  have closed: "ch_closed (a_jobs s) \<longleftrightarrow> a_rep s = Returned" using assms(1) by (simp add: agent_inv_def)
  show ?thesis
  proof (cases "a_rep s")
    case Waiting
    then show ?thesis using own_step.flush_start assms(3) by blast
  next
    case (Dispatching ms)
    then show ?thesis
    proof (cases ms)
      case (Cons m ms')
      obtain s' where "reporter_return (m # ms') s = Some s'"
        using closed Dispatching by (auto simp: reporter_return_def chan_close_def)
      then show ?thesis using own_step.dispatch_cancel Dispatching Cons assms(3) by blast
    qed (use own_step.dispatched in blast)
  next
    case (Flushing ms)
    show ?thesis
    proof (cases ms)
      case Nil
      obtain s' where "reporter_return [] s = Some s'"
        using closed Flushing by (auto simp: reporter_return_def chan_close_def)
      then show ?thesis using own_step.flushed Flushing Nil by blast
    next
      case (Cons m ms')
      show ?thesis
      proof (cases "chan_put m (a_jobs s)")
        case None
        then show ?thesis using full closed Flushing by simp
      next
        case (Some c)
        then obtain s' where "hand_over m (Flushing ms') s = Some s'" by (simp add: hand_over_def)
        then show ?thesis using own_step.flush Flushing Cons by blast
      qed
    qed
  next
    case Returned
    then show ?thesis using worker_can_act [OF w] closed by simp
  qed
qed

lemma own_step_keeps:
  "own_step s s' \<Longrightarrow> a_cancelled s' = a_cancelled s"
  by (cases rule: own_step.cases) (auto simp: hand_over_def reporter_return_def split: option.splits)

text \<open>Once the signal has come, the agent comes to an end by its own steps: from a reachable cancelled
  state with at least one worker it can make at most \<open>work_left\<close> of them, and as long as a worker is left it
  can make another; when none is left, every metric put into the channel has been sent.\<close>
lemma agent_shutdown_ends:
  assumes "agent_reachable n s" and "0 < n" and "a_cancelled s" and "(own_step ^^ k) s s'"
  shows "k \<le> work_left s
    \<and> (if all_exited s' then mset (a_finished s') = mset (a_handed s') else \<exists>s''. own_step s' s'')"
proof -
  have "agent_reachable n s' \<and> a_cancelled s' \<and> work_left s' + k \<le> work_left s"
    using assms(4)
  proof (induction k arbitrary: s')
    case (Suc k)
    then obtain y where y: "(own_step ^^ k) s y" "own_step y s'" by auto
    then have "agent_step y s'" by (simp add: agent_step_def)
    with Suc.IH [OF y(1)] y(2) show ?case
      using own_step_keeps own_step_weight [of y s'] unfolding agent_reachable_def
      by (auto intro: rtranclp.rtrancl_into_rtrancl)
  qed (use assms(1,3) in simp)
  then show ?thesis
    using shutdown_not_stuck [of n s'] drained [of n s'] agent_invs [of n s'] assms(2) by auto
qed

section \<open>Runs to evaluate\<close>

lemma reach_env: "agent_reachable n s \<Longrightarrow> env_step s s' \<Longrightarrow> agent_reachable n s'"
  and reach_own: "agent_reachable n s \<Longrightarrow> own_step s s' \<Longrightarrow> agent_reachable n s'"
  unfolding agent_reachable_def by (auto simp: agent_step_def intro: rtranclp.rtrancl_into_rtrancl)

lemma reach_start: "agent_reachable n (start_agent n)"
  by (simp add: agent_reachable_def)

lemma reach_time: "agent_reachable n (s\<lparr>a_time := k\<rparr>) \<Longrightarrow> agent_reachable n (s\<lparr>a_time := k + j\<rparr>)"
proof (induction j)
  case (Suc j)
  then show ?case using reach_env [OF _ env_step.second, of n "s\<lparr>a_time := k + j\<rparr>"] by simp
qed simp

text \<open>The drain context starts to run at start-up, not at the signal: when the agent has been up for
  thirty seconds, its final flush may give up at once on everything it has collected, although the channel is
  empty and open.\<close>
lemma late_flush_gives_up:
  "\<exists>s. agent_reachable n s \<and> a_given_up s = m # ms \<and> a_handed s = [] \<and> a_rep s = Returned
     \<and> a_time s = drainTimeout"
proof -
  let ?s1 = "(start_agent n)\<lparr>a_snapshot := m # ms\<rparr>"
  let ?s2 = "?s1\<lparr>a_time := 30\<rparr>"
  let ?s3 = "?s2\<lparr>a_cancelled := True\<rparr>"
  let ?s4 = "?s3\<lparr>a_rep := Flushing (m # ms)\<rparr>"
  have "agent_reachable n ?s1" by (rule reach_env [OF reach_start env_step.collect])
  then have "agent_reachable n (?s1\<lparr>a_time := 0\<rparr>)" by (simp add: start_agent_def)
  from reach_time [OF this, of 30] have "agent_reachable n ?s2" by simp
  then have "agent_reachable n ?s3" by (rule reach_env [OF _ env_step.signal])
  moreover have "own_step ?s3 ?s4" using own_step.flush_start [of ?s3] by (simp add: start_agent_def)
  ultimately have r4: "agent_reachable n ?s4" by (rule reach_own)
  obtain s5 where s5: "reporter_return (m # ms) ?s4 = Some s5"
    by (simp add: reporter_return_def chan_close_def start_agent_def make_chan_def)
  have "own_step ?s4 s5"
    by (rule own_step.flush_drain [OF _ _ s5]) (simp_all add: drain_over_def drainTimeout_def)
  then have "agent_reachable n s5" by (rule reach_own [OF r4])
  moreover have "a_given_up s5 = m # ms" "a_handed s5 = []" "a_rep s5 = Returned" "a_time s5 = drainTimeout"
    using s5 by (auto simp: reporter_return_def chan_close_def start_agent_def make_chan_def drainTimeout_def)
  ultimately show ?thesis by blast
qed

text \<open>One metric with the worker and the next one in the channel.\<close>

definition busy_agent :: "metrics \<Rightarrow> metrics \<Rightarrow> agent_state" where
  "busy_agent m m' = (start_agent 1)\<lparr>a_snapshot := [m, m'], a_rep := Dispatching [], a_jobs := \<lparr>ch_buf = [m'],
     ch_cap = 2, ch_closed = False\<rparr>, a_workers := [Sending m False], a_handed := [m, m'], a_taken := [m]\<rparr>"

lemma busy_agent_reachable: "agent_reachable 1 (busy_agent m m')"
proof -
  let ?s1 = "(start_agent 1)\<lparr>a_snapshot := [m, m']\<rparr>"
  let ?s2 = "?s1\<lparr>a_rep := Dispatching [m, m']\<rparr>"
  let ?s3 = "?s2\<lparr>a_rep := Dispatching [m'], a_jobs := \<lparr>ch_buf = [m], ch_cap = 2, ch_closed = False\<rparr>, a_handed := [m]\<rparr>"
  let ?s4 = "?s3\<lparr>a_jobs := \<lparr>ch_buf = [], ch_cap = 2, ch_closed = False\<rparr>, a_workers := [Sending m False], a_taken := [m]\<rparr>"
  have "agent_reachable 1 ?s1" by (rule reach_env [OF reach_start env_step.collect])
  moreover have "env_step ?s1 ?s2" using env_step.tick [of ?s1] by (simp add: start_agent_def)
  ultimately have "agent_reachable 1 ?s2" by (rule reach_env)
  moreover have "own_step ?s2 ?s3"
    by (rule own_step.dispatch [of _ m "[m']"])
      (simp_all add: hand_over_def chan_put_def chan_send_def start_agent_def make_chan_def)
  ultimately have "agent_reachable 1 ?s3" by (rule reach_own)
  moreover have "own_step ?s3 ?s4"
    using own_step.take_job [of 0 ?s3 m] by (simp add: chan_take_def chan_recv_def start_agent_def)
  ultimately have "agent_reachable 1 ?s4" by (rule reach_own)
  moreover have "own_step ?s4 (busy_agent m m')"
    by (rule own_step.dispatch [of _ m' "[]"])
      (simp_all add: busy_agent_def hand_over_def chan_put_def chan_send_def start_agent_def)
  ultimately show ?thesis by (rule reach_own)
qed

theorem agent_pipeline_fifo_witness:
  "a_handed (busy_agent (counter_metric ''a'' 1) (counter_metric ''b'' 2))
     = [counter_metric ''a'' 1] @ [counter_metric ''b'' 2]
   \<and> mset [counter_metric ''a'' 1] = mset (a_finished (busy_agent (counter_metric ''a'' 1) (counter_metric ''b'' 2)))
       + mset (sending (busy_agent (counter_metric ''a'' 1) (counter_metric ''b'' 2)))"
proof -
  have b: "a_taken (busy_agent m m') = [m]" "ch_buf (a_jobs (busy_agent m m')) = [m']" for m m'
    by (simp_all add: busy_agent_def)
  show ?thesis
    using agent_pipeline_fifo [OF busy_agent_reachable, of "counter_metric ''a'' 1" "counter_metric ''b'' 2"]
    unfolding b by blast
qed

definition idle_shutdown :: agent_state where
  "idle_shutdown = (start_agent 1)\<lparr>a_cancelled := True\<rparr>"

lemma idle_shutdown_reachable: "agent_reachable 1 idle_shutdown"
  unfolding idle_shutdown_def by (rule reach_env [OF reach_start env_step.signal])

definition idle_end :: agent_state where
  "idle_end = idle_shutdown\<lparr>a_rep := Returned, a_jobs := (make_chan 2)\<lparr>ch_closed := True\<rparr>, a_workers := [Exited]\<rparr>"

lemma idle_end_reachable: "agent_reachable 1 idle_end"
proof -
  let ?s1 = "idle_shutdown\<lparr>a_rep := Flushing []\<rparr>"
  let ?s2 = "?s1\<lparr>a_jobs := (make_chan 2)\<lparr>ch_closed := True\<rparr>, a_rep := Returned\<rparr>"
  have "own_step idle_shutdown ?s1"
    using own_step.flush_start [of idle_shutdown] by (simp add: idle_shutdown_def start_agent_def)
  then have "agent_reachable 1 ?s1" by (rule reach_own [OF idle_shutdown_reachable])
  moreover have "own_step ?s1 ?s2"
    by (rule own_step.flushed)
      (simp_all add: reporter_return_def chan_close_def idle_shutdown_def start_agent_def make_chan_def)
  ultimately have "agent_reachable 1 ?s2" by (rule reach_own)
  moreover have "own_step ?s2 idle_end"
    using own_step.worker_exit [of 0 ?s2]
    by (simp add: idle_end_def idle_shutdown_def start_agent_def chan_recv_def make_chan_def)
  ultimately show ?thesis by (rule reach_own)
qed

lemma agent_drains_queue_witness: "mset (a_finished idle_end) = mset (a_handed idle_end)"
  by (rule agent_drains_queue [OF idle_end_reachable]) (simp_all add: all_exited_def idle_end_def)

lemma agent_shutdown_ends_witness: "\<exists>s''. own_step idle_shutdown s''"
proof -
  have k: "(own_step ^^ 0) idle_shutdown idle_shutdown" by simp
  have "a_cancelled idle_shutdown" "\<not> all_exited idle_shutdown"
    by (simp_all add: idle_shutdown_def start_agent_def all_exited_def)
  then show ?thesis using agent_shutdown_ends [OF idle_shutdown_reachable _ _ k] by simp
qed

end
