(* ===== verification/Agent_Http.thy ===== *)
theory Agent_Http
  imports Agent_Main Collector_Facts Delivery
begin

text \<open>
  The HTTP mode of \<open>cmd/agent/main.go\<close> together with the server it reports to: the collecting goroutines, the
  reporter, the channel and the workers of \<open>Agent_Main\<close>, where each worker carries its metric through the
  attempts of \<open>retryOnConnErr\<close> one by one, so that the attempts of different workers interleave at the server.
  The attempt is a parameter that keeps the contract \<open>metric_link\<close>.
\<close>

section \<open>The process\<close>

text \<open>
  \<open>h_tries s i\<close> is the number of attempts worker \<open>i\<close> has made for the metric it holds. The last two fields are
  history: the metrics the server has applied, in order, and whether any call was lost, its answer was lost or a
  worker gave up.
\<close>

record 'w http_agent =
  h_pipe :: agent_state
  h_collector :: collector
  h_runtime_on :: bool
  h_gopsutil_on :: bool
  h_tries :: "nat \<Rightarrow> nat"
  h_server :: 'w
  h_log :: "metrics list"
  h_mishap :: bool

definition start_http_agent :: "nat \<Rightarrow> int \<Rightarrow> string \<Rightarrow> 'w \<Rightarrow> 'w http_agent" where
  "start_http_agent rateLimit batchSize url w =
     \<lparr>h_pipe = start_agent rateLimit, h_collector = NewCollector batchSize url, h_runtime_on = True, h_gopsutil_on = True,
      h_tries = (\<lambda>_. 0), h_server = w, h_log = [], h_mishap = False\<rparr>"

definition report :: "string list \<Rightarrow> string list \<Rightarrow> (metrics list \<Rightarrow> reporter) \<Rightarrow> 'w http_agent \<Rightarrow> 'w http_agent" where
  "report gs cs rep s =
     (let ms = GetAllMetrics gs cs (h_collector s)
      in s\<lparr>h_pipe := (h_pipe s)\<lparr>a_snapshot := ms, a_rep := rep ms\<rparr>\<rparr>)"

definition collector_visits :: "collector \<Rightarrow> string list \<Rightarrow> string list \<Rightarrow> bool" where
  "collector_visits c gs cs \<longleftrightarrow> visits (c_gauge c) gs \<and> visits (c_counter c) cs"

definition job_ends :: "nat \<Rightarrow> metrics \<Rightarrow> 'w http_agent \<Rightarrow> 'w http_agent" where
  "job_ends i m s =
     s\<lparr>h_pipe := (h_pipe s)\<lparr>a_workers := (a_workers (h_pipe s))[i := Idle], a_finished := a_finished (h_pipe s) @ [m]\<rparr>,
       h_tries := (h_tries s)(i := 0)\<rparr>"

definition note_attempt :: "rpc_fate \<Rightarrow> metrics \<Rightarrow> 'w \<Rightarrow> 'w http_agent \<Rightarrow> 'w http_agent" where
  "note_attempt fate m w s =
     s\<lparr>h_server := w, h_log := h_log s @ (if finite_value m \<and> fate \<noteq> Call_Lost then [m] else []),
       h_mishap := (h_mishap s \<or> fate \<noteq> Answered)\<rparr>"

text \<open>Does \<open>retryOnConnErr\<close> go on after this result? There are as many further attempts as delays.\<close>

definition tries_again :: "go_error option \<Rightarrow> nat \<Rightarrow> bool" where
  "tries_again e k \<longleftrightarrow> (\<exists>x. e = Some x \<and> isRetriableNetError x) \<and> k < length retryDelays"

inductive http_env_step :: "(64 word \<Rightarrow> float64) \<Rightarrow> 'w http_agent \<Rightarrow> 'w http_agent \<Rightarrow> bool"
  for to_float :: "64 word \<Rightarrow> float64" where
  http_poll: "h_runtime_on s \<Longrightarrow>
    http_env_step to_float s (s\<lparr>h_collector := UpdateMetrics to_float rd (h_collector s)\<rparr>)"
| http_poll_gopsutil: "h_gopsutil_on s \<Longrightarrow>
    http_env_step to_float s (s\<lparr>h_collector := UpdateGopsutilMetrics to_float vm percs (h_collector s)\<rparr>)"
| http_tick: "a_rep (h_pipe s) = Waiting \<Longrightarrow> collector_visits (h_collector s) gs cs \<Longrightarrow>
    http_env_step to_float s (report gs cs Dispatching s)"
| http_interrupt: "http_env_step to_float s (s\<lparr>h_pipe := (h_pipe s)\<lparr>a_cancelled := True\<rparr>\<rparr>)"
| http_second: "http_env_step to_float s (s\<lparr>h_pipe := (h_pipe s)\<lparr>a_time := Suc (a_time (h_pipe s))\<rparr>\<rparr>)"

text \<open>
  \<open>http_move\<close> is any step of reporter, channel and workers that neither takes a snapshot nor ends a job; a job ends
  with its last attempt, or with the context while the worker waits for the next one.
\<close>

inductive http_own_step ::
    "(rpc_fate \<Rightarrow> metrics \<Rightarrow> 'w \<Rightarrow> go_error option \<times> 'w) \<Rightarrow> 'w http_agent \<Rightarrow> 'w http_agent \<Rightarrow> bool"
  for attempt :: "rpc_fate \<Rightarrow> metrics \<Rightarrow> 'w \<Rightarrow> go_error option \<times> 'w" where
  http_stop_runtime: "a_cancelled (h_pipe s) \<Longrightarrow> h_runtime_on s \<Longrightarrow> http_own_step attempt s (s\<lparr>h_runtime_on := False\<rparr>)"
| http_stop_gopsutil: "a_cancelled (h_pipe s) \<Longrightarrow> h_gopsutil_on s \<Longrightarrow> http_own_step attempt s (s\<lparr>h_gopsutil_on := False\<rparr>)"
| http_flush_start: "a_rep (h_pipe s) = Waiting \<Longrightarrow> a_cancelled (h_pipe s) \<Longrightarrow> collector_visits (h_collector s) gs cs \<Longrightarrow>
    http_own_step attempt s (report gs cs Flushing s)"
| http_move: "own_step (h_pipe s) p \<Longrightarrow> a_finished p = a_finished (h_pipe s) \<Longrightarrow>
    a_rep (h_pipe s) \<noteq> Waiting \<or> a_rep p = Waiting \<Longrightarrow> http_own_step attempt s (s\<lparr>h_pipe := p\<rparr>)"
| http_retries: "i < length (a_workers (h_pipe s)) \<Longrightarrow> a_workers (h_pipe s) ! i = Sending m d \<Longrightarrow>
    attempt fate m (h_server s) = (e, w) \<Longrightarrow> tries_again e (h_tries s i) \<Longrightarrow>
    http_own_step attempt s ((note_attempt fate m w s)\<lparr>h_tries := (h_tries s)(i := Suc (h_tries s i))\<rparr>)"
| http_ends: "i < length (a_workers (h_pipe s)) \<Longrightarrow> a_workers (h_pipe s) ! i = Sending m d \<Longrightarrow>
    attempt fate m (h_server s) = (e, w) \<Longrightarrow> \<not> tries_again e (h_tries s i) \<Longrightarrow>
    http_own_step attempt s (job_ends i m (note_attempt fate m w s))"
| http_gives_up: "i < length (a_workers (h_pipe s)) \<Longrightarrow> a_workers (h_pipe s) ! i = Sending m d \<Longrightarrow>
    0 < h_tries s i \<Longrightarrow> (if d then drain_over (h_pipe s) else a_cancelled (h_pipe s)) \<Longrightarrow>
    http_own_step attempt s (job_ends i m (s\<lparr>h_mishap := True\<rparr>))"

definition http_step ::
    "(64 word \<Rightarrow> float64) \<Rightarrow> (rpc_fate \<Rightarrow> metrics \<Rightarrow> 'w \<Rightarrow> go_error option \<times> 'w)
      \<Rightarrow> 'w http_agent \<Rightarrow> 'w http_agent \<Rightarrow> bool" where
  "http_step to_float attempt s s' \<longleftrightarrow> http_env_step to_float s s' \<or> http_own_step attempt s s'"

definition http_reachable ::
    "(64 word \<Rightarrow> float64) \<Rightarrow> (rpc_fate \<Rightarrow> metrics \<Rightarrow> 'w \<Rightarrow> go_error option \<times> 'w) \<Rightarrow> nat \<Rightarrow> 'w \<Rightarrow> 'w http_agent \<Rightarrow> bool" where
  "http_reachable to_float attempt n w0 s \<longleftrightarrow>
     (\<exists>b u. (http_step to_float attempt)\<^sup>*\<^sup>* (start_http_agent n b u w0) s)"

section \<open>It is a pipeline\<close>

lemma report_sel [simp]:
  "h_pipe (report gs cs rep s) = (h_pipe s)\<lparr>a_snapshot := GetAllMetrics gs cs (h_collector s),
     a_rep := rep (GetAllMetrics gs cs (h_collector s))\<rparr>"
  "h_collector (report gs cs rep s) = h_collector s" "h_tries (report gs cs rep s) = h_tries s"
  "h_server (report gs cs rep s) = h_server s" "h_log (report gs cs rep s) = h_log s"
  "h_mishap (report gs cs rep s) = h_mishap s" "h_runtime_on (report gs cs rep s) = h_runtime_on s"
  "h_gopsutil_on (report gs cs rep s) = h_gopsutil_on s"
  by (simp_all add: report_def Let_def)

lemma job_ends_sel [simp]:
  "h_pipe (job_ends i m s) = (h_pipe s)\<lparr>a_workers := (a_workers (h_pipe s))[i := Idle],
     a_finished := a_finished (h_pipe s) @ [m]\<rparr>"
  "h_tries (job_ends i m s) = (h_tries s)(i := 0)" "h_collector (job_ends i m s) = h_collector s"
  "h_server (job_ends i m s) = h_server s" "h_log (job_ends i m s) = h_log s" "h_mishap (job_ends i m s) = h_mishap s"
  "h_runtime_on (job_ends i m s) = h_runtime_on s" "h_gopsutil_on (job_ends i m s) = h_gopsutil_on s"
  by (simp_all add: job_ends_def)

lemma note_attempt_sel [simp]:
  "h_pipe (note_attempt fate m w s) = h_pipe s" "h_tries (note_attempt fate m w s) = h_tries s"
  "h_collector (note_attempt fate m w s) = h_collector s" "h_server (note_attempt fate m w s) = w"
  "h_log (note_attempt fate m w s) = h_log s @ (if finite_value m \<and> fate \<noteq> Call_Lost then [m] else [])"
  "h_mishap (note_attempt fate m w s) \<longleftrightarrow> h_mishap s \<or> fate \<noteq> Answered"
  "h_runtime_on (note_attempt fate m w s) = h_runtime_on s" "h_gopsutil_on (note_attempt fate m w s) = h_gopsutil_on s"
  by (simp_all add: note_attempt_def)

lemma report_tick_pipe:
  assumes "a_rep p = Waiting"
  shows "agent_step\<^sup>*\<^sup>* p (p\<lparr>a_snapshot := ms, a_rep := Dispatching ms\<rparr>)"
proof -
  let ?p = "p\<lparr>a_snapshot := ms\<rparr>"
  have "agent_step p ?p" "agent_step ?p (?p\<lparr>a_rep := Dispatching ms\<rparr>)"
    using env_step.collect [of p ms] env_step.tick [of ?p] assms by (simp_all add: agent_step_def)
  then show ?thesis by simp
qed

lemma report_flush_pipe:
  assumes "a_rep p = Waiting" "a_cancelled p"
  shows "agent_step\<^sup>*\<^sup>* p (p\<lparr>a_snapshot := ms, a_rep := Flushing ms\<rparr>)"
proof -
  let ?p = "p\<lparr>a_snapshot := ms\<rparr>"
  have "agent_step p ?p" "agent_step ?p (?p\<lparr>a_rep := Flushing ms\<rparr>)"
    using env_step.collect [of p ms] own_step.flush_start [of ?p] assms by (simp_all add: agent_step_def)
  then show ?thesis by simp
qed

lemma job_done_pipe:
  assumes "i < length (a_workers p)" "a_workers p ! i = Sending m d"
  shows "agent_step p (p\<lparr>a_workers := (a_workers p)[i := Idle], a_finished := a_finished p @ [m]\<rparr>)"
  using own_step.job_done [OF assms] by (simp add: agent_step_def)

lemma http_step_pipe: "http_step to_float attempt s s' \<Longrightarrow> agent_step\<^sup>*\<^sup>* (h_pipe s) (h_pipe s')"
  unfolding http_step_def
proof (elim disjE)
  assume "http_env_step to_float s s'"
  then show ?thesis
  proof cases
    case (http_tick gs cs)
    then show ?thesis by (simp add: report_tick_pipe)
  next
    case http_interrupt
    have "agent_step (h_pipe s) (h_pipe s')" using env_step.signal [of "h_pipe s"] by (simp add: http_interrupt agent_step_def)
    then show ?thesis by simp
  next
    case http_second
    have "agent_step (h_pipe s) (h_pipe s')" using env_step.second [of "h_pipe s"] by (simp add: http_second agent_step_def)
    then show ?thesis by simp
  qed simp_all
next
  assume "http_own_step attempt s s'"
  then show ?thesis
  proof cases
    case (http_flush_start gs cs)
    then show ?thesis by (simp add: report_flush_pipe)
  next
    case (http_move p)
    then have "agent_step (h_pipe s) (h_pipe s')" by (simp add: agent_step_def)
    then show ?thesis by simp
  next
    case (http_ends i m d fate e w)
    with job_done_pipe [OF http_ends(2,3)] show ?thesis by simp
  next
    case (http_gives_up i m d)
    with job_done_pipe [OF http_gives_up(2,3)] show ?thesis by simp
  qed simp_all
qed

lemma http_reachable_step:
  "http_reachable to_float attempt n w0 s \<Longrightarrow> http_step to_float attempt s s' \<Longrightarrow> http_reachable to_float attempt n w0 s'"
  unfolding http_reachable_def by (blast intro: rtranclp.rtrancl_into_rtrancl)

lemma http_reachable_start: "http_reachable to_float attempt n w0 (start_http_agent n b u w0)"
  by (auto simp: http_reachable_def)

lemma http_reachable_induct [consumes 1, case_names start step]:
  assumes "http_reachable to_float attempt n w0 s" "\<And>b u. P (start_http_agent n b u w0)"
    and "\<And>s s'. http_reachable to_float attempt n w0 s \<Longrightarrow> P s \<Longrightarrow> http_step to_float attempt s s' \<Longrightarrow> P s'"
  shows "P s"
proof -
  obtain b u where "(http_step to_float attempt)\<^sup>*\<^sup>* (start_http_agent n b u w0) s"
    using assms(1) by (auto simp: http_reachable_def)
  then show ?thesis
  proof (induction rule: rtranclp_induct)
    case (step s s')
    then show ?case using assms(3) by (auto simp: http_reachable_def)
  qed (rule assms(2))
qed

text \<open>The agent with its collector, its retries and a real server is a pipeline of \<open>Agent_Main\<close>: each of its
  steps is one or more steps of the pipeline, or none, so that all that holds of the pipeline holds of it.\<close>
lemma http_refines_pipeline:
  assumes "http_reachable to_float attempt n w0 s"
  shows "agent_reachable n (h_pipe s)"
  using assms
proof (induction rule: http_reachable_induct)
  case (start b u)
  show ?case by (simp add: start_http_agent_def reach_start)
next
  case (step s s')
  then show ?case using http_step_pipe unfolding agent_reachable_def by (meson rtranclp_trans)
qed

section \<open>What is on its way\<close>

definition rep_metrics :: "reporter \<Rightarrow> metrics list" where
  "rep_metrics rep = (case rep of Dispatching ms \<Rightarrow> ms | Flushing ms \<Rightarrow> ms | _ \<Rightarrow> [])"

lemma rep_metrics_simps [simp]:
  "rep_metrics Waiting = []" "rep_metrics (Dispatching ms) = ms" "rep_metrics (Flushing ms) = ms" "rep_metrics Returned = []"
  by (simp_all add: rep_metrics_def)

text \<open>Everything between the collector and the server is a metric of the collector.\<close>

definition h_sound :: "'w http_agent \<Rightarrow> bool" where
  "h_sound s \<longleftrightarrow> collector_ok (h_collector s) \<and> names_ok (h_collector s)
     \<and> list_all collected (rep_metrics (a_rep (h_pipe s))) \<and> list_all collected (a_handed (h_pipe s))"

lemma snapshot_collected:
  assumes "collector_ok c" "names_ok c" "collector_visits c gs cs"
  shows "list_all collected (GetAllMetrics gs cs c)"
proof -
  have v: "visits (c_gauge c) gs" "visits (c_counter c) cs" using assms(3) by (simp_all add: collector_visits_def)
  have "list_all canonical (GetAllMetrics gs cs c)" by (rule snapshot_canonical [OF assms(1) v])
  moreover have "list_all (\<lambda>m. valid_utf8 (ID m)) (GetAllMetrics gs cs c)"
    using assms(2) v by (fastforce simp: GetAllMetrics_def list_all_iff set_range_pairs names_ok_def visits_def)
  ultimately show ?thesis by (auto simp: list_all_iff collected_def)
qed

lemma hand_over_effect:
  assumes "hand_over m rep p = Some p'"
  shows "a_workers p' = a_workers p" "a_rep p' = rep" "a_handed p' = a_handed p @ [m]" "a_finished p' = a_finished p"
    "a_taken p' = a_taken p" "a_given_up p' = a_given_up p" "a_cancelled p' = a_cancelled p"
  using assms by (auto simp: hand_over_def split: option.splits)

lemma reporter_return_effect:
  assumes "reporter_return rest p = Some p'"
  shows "a_workers p' = a_workers p" "a_rep p' = Returned" "a_handed p' = a_handed p" "a_finished p' = a_finished p"
    "a_taken p' = a_taken p" "a_given_up p' = a_given_up p @ rest" "a_cancelled p' = a_cancelled p"
  using assms by (auto simp: reporter_return_def split: option.splits)

lemma move_effect:
  assumes "own_step p p'" "a_finished p' = a_finished p" "a_rep p \<noteq> Waiting \<or> a_rep p' = Waiting"
  shows "length (a_workers p') = length (a_workers p)"
    and "j < length (a_workers p) \<Longrightarrow> a_workers p ! j \<noteq> Idle \<Longrightarrow> a_workers p' ! j = a_workers p ! j"
    and "set (rep_metrics (a_rep p')) \<subseteq> set (rep_metrics (a_rep p))"
    and "set (a_handed p') \<subseteq> set (a_handed p) \<union> set (rep_metrics (a_rep p))"
proof -
  have "length (a_workers p') = length (a_workers p)
    \<and> (\<forall>j < length (a_workers p). a_workers p ! j \<noteq> Idle \<longrightarrow> a_workers p' ! j = a_workers p ! j)
    \<and> set (rep_metrics (a_rep p')) \<subseteq> set (rep_metrics (a_rep p))
    \<and> set (a_handed p') \<subseteq> set (a_handed p) \<union> set (rep_metrics (a_rep p))"
    using assms(1)
  proof cases
    case (dispatch m ms)
    then show ?thesis using hand_over_effect(1-3) [OF dispatch(2)] by auto
  next
    case (dispatch_cancel m ms)
    then show ?thesis using reporter_return_effect(1-3) [OF dispatch_cancel(3)] by auto
  next
    case flush_start
    then show ?thesis using assms(3) by simp
  next
    case (flush m ms)
    then show ?thesis using hand_over_effect(1-3) [OF flush(2)] by auto
  next
    case flushed
    then show ?thesis using reporter_return_effect(1-3) [OF flushed(2)] by auto
  next
    case (flush_drain m ms)
    then show ?thesis using reporter_return_effect(1-3) [OF flush_drain(3)] by auto
  next
    case (job_done i m d)
    then show ?thesis using assms(2) by simp
  qed (auto simp: nth_list_update)
  then show "length (a_workers p') = length (a_workers p)"
    and "j < length (a_workers p) \<Longrightarrow> a_workers p ! j \<noteq> Idle \<Longrightarrow> a_workers p' ! j = a_workers p ! j"
    and "set (rep_metrics (a_rep p')) \<subseteq> set (rep_metrics (a_rep p))"
    and "set (a_handed p') \<subseteq> set (a_handed p) \<union> set (rep_metrics (a_rep p))"
    by blast+
qed

lemma h_sound_start: "h_sound (start_http_agent n b u w)"
  by (simp add: h_sound_def start_http_agent_def start_agent_def collector_ok_New names_ok_New)

lemma h_sound_step:
  assumes "http_step to_float attempt s s'" "h_sound s"
  shows "h_sound s'"
  using assms(1) unfolding http_step_def
proof (elim disjE)
  assume "http_env_step to_float s s'"
  then show ?thesis
    using assms(2)
    by cases (auto simp: h_sound_def collector_ok_UpdateMetrics collector_ok_Gopsutil names_ok_UpdateMetrics
        names_ok_Gopsutil snapshot_collected)
next
  assume "http_own_step attempt s s'"
  then show ?thesis
  proof cases
    case (http_move p)
    from move_effect(3,4) [OF http_move(2-4)] show ?thesis
      using assms(2) by (auto simp: h_sound_def http_move(1) list_all_iff subset_iff)
  qed (use assms(2) in \<open>auto simp: h_sound_def snapshot_collected\<close>)
qed

lemma h_sound_reachable: "http_reachable to_float attempt n w0 s \<Longrightarrow> h_sound s"
  by (induction rule: http_reachable_induct) (auto intro: h_sound_start h_sound_step)

lemma in_sending: "i < length (a_workers p) \<Longrightarrow> a_workers p ! i = Sending m d \<Longrightarrow> m \<in> set (sending p)"
  unfolding sending_def using nth_mem [of i "a_workers p"] by (auto intro!: bexI [of _ "Sending m d"])

lemma sending_collected:
  assumes "http_reachable to_float attempt n w0 s" "m \<in> set (sending (h_pipe s))"
  shows "collected m"
proof -
  have inv: "agent_inv n (h_pipe s)" using agent_invs [OF http_refines_pipeline [OF assms(1)]] by blast
  then have "mset (a_taken (h_pipe s)) = mset (a_finished (h_pipe s)) + mset (sending (h_pipe s))"
    and h: "a_handed (h_pipe s) = a_taken (h_pipe s) @ ch_buf (a_jobs (h_pipe s))" by (simp_all add: agent_inv_def)
  then have "m \<in> set (a_taken (h_pipe s))" using assms(2) by (metis set_mset_mset union_iff)
  then show ?thesis using h_sound_reachable [OF assms(1)] h by (auto simp: h_sound_def list_all_iff)
qed

lemma worker_collected:
  "http_reachable to_float attempt n w0 s \<Longrightarrow> i < length (a_workers (h_pipe s))
    \<Longrightarrow> a_workers (h_pipe s) ! i = Sending m d \<Longrightarrow> collected m"
  by (rule sending_collected [OF _ in_sending])

section \<open>Deliveries\<close>

text \<open>Attempts are only counted for a worker that holds a metric, and there are at most three that failed.\<close>

definition tries_ok :: "'w http_agent \<Rightarrow> bool" where
  "tries_ok s \<longleftrightarrow> (\<forall>i. h_tries s i \<le> 3)
     \<and> (\<forall>i < length (a_workers (h_pipe s)). (\<forall>m d. a_workers (h_pipe s) ! i \<noteq> Sending m d) \<longrightarrow> h_tries s i = 0)"

definition pending :: "worker \<Rightarrow> nat \<Rightarrow> metrics multiset" where
  "pending w k = (case w of Sending m d \<Rightarrow> replicate_mset k m | _ \<Rightarrow> {#})"

definition in_flight :: "'w http_agent \<Rightarrow> metrics multiset" where
  "in_flight s = (\<Sum>i<length (a_workers (h_pipe s)). pending (a_workers (h_pipe s) ! i) (h_tries s i))"

text \<open>Totals do not depend on the order, and no counter is held back.\<close>

lemma deltas_of_concat: "deltas_of k xs = concat (map (\<lambda>x. deltas_of k [x]) xs)"
  by (induction xs) (auto split: option.splits)

lemma deltas_mset: "mset xs = mset ys \<Longrightarrow> sum_list (deltas_of k xs) = sum_list (deltas_of k ys)"
  using mset_sum_list_concat [of xs ys "\<lambda>x. deltas_of k [x]"] deltas_of_concat by metis

lemma deltas_of_finite: "list_all collected xs \<Longrightarrow> deltas_of k (filter finite_value xs) = deltas_of k xs"
  by (induction xs) (auto elim!: collected_cases simp: TypeGauge_def TypeCounter_def split: option.splits)

lemma set_values_of: "set (values_of k xs) = {v. \<exists>x \<in> set xs. MType x = TypeGauge \<and> ID x = k \<and> Value x = Some v}"
  by (induction xs) (auto split: option.splits)

lemma values_of_append: "values_of k (xs @ ys) = values_of k xs @ values_of k ys"
  by (induction xs) (auto split: option.splits)

text \<open>How the log of the server relates to the jobs that have ended.\<close>

definition log_ok :: "'w http_agent \<Rightarrow> bool" where
  "log_ok s \<longleftrightarrow> mset (h_log s) \<subseteq># repeat_mset 4 (mset (a_finished (h_pipe s))) + in_flight s
     \<and> (\<not> h_mishap s \<longrightarrow> h_log s = filter finite_value (a_finished (h_pipe s)))"

lemma pending_simps [simp]: "pending Idle k = {#}" "pending Exited k = {#}" "pending (Sending m d) k = replicate_mset k m" "pending w 0 = {#}"
  by (simp_all add: pending_def split: worker.split)

lemma sum_one_changed:
  fixes f g :: "nat \<Rightarrow> 'm::comm_monoid_add"
  assumes "i < n" "\<And>j. j < n \<Longrightarrow> j \<noteq> i \<Longrightarrow> g j = f j"
  shows "(\<Sum>j<n. g j) + f i = (\<Sum>j<n. f j) + g i"
proof -
  have "sum g ({..<n} - {i}) = sum f ({..<n} - {i})" by (rule sum.cong) (use assms(2) in auto)
  then show ?thesis using assms(1) by (simp add: sum.remove [of "{..<n}" i] ac_simps)
qed

lemma in_flight_change:
  assumes "i < length (a_workers (h_pipe s))" "length (a_workers (h_pipe s')) = length (a_workers (h_pipe s))"
    and "\<And>j. j < length (a_workers (h_pipe s)) \<Longrightarrow> j \<noteq> i \<Longrightarrow>
      pending (a_workers (h_pipe s') ! j) (h_tries s' j) = pending (a_workers (h_pipe s) ! j) (h_tries s j)"
  shows "in_flight s' + pending (a_workers (h_pipe s) ! i) (h_tries s i)
    = in_flight s + pending (a_workers (h_pipe s') ! i) (h_tries s' i)"
  unfolding in_flight_def assms(2) by (rule sum_one_changed [OF assms(1)]) (rule assms(3))

lemma tries_ok_move:
  assumes "own_step (h_pipe s) p" "a_finished p = a_finished (h_pipe s)" "a_rep (h_pipe s) \<noteq> Waiting \<or> a_rep p = Waiting"
    and "tries_ok s"
  shows "tries_ok (s\<lparr>h_pipe := p\<rparr>) \<and> in_flight (s\<lparr>h_pipe := p\<rparr>) = in_flight s"
proof -
  note m = move_effect [OF assms(1-3)]
  have idle: "a_workers (h_pipe s) ! j = Idle \<Longrightarrow> j < length (a_workers (h_pipe s)) \<Longrightarrow> h_tries s j = 0" for j
    using assms(4) by (simp add: tries_ok_def)
  have "tries_ok (s\<lparr>h_pipe := p\<rparr>)"
    using assms(4) m(1,2) idle by (fastforce simp: tries_ok_def)
  moreover have "pending (a_workers p ! j) (h_tries s j) = pending (a_workers (h_pipe s) ! j) (h_tries s j)"
    if "j < length (a_workers (h_pipe s))" for j
    using idle m(2) that by (cases "a_workers (h_pipe s) ! j = Idle") auto
  then have "in_flight (s\<lparr>h_pipe := p\<rparr>) = in_flight s" by (simp add: in_flight_def m(1))
  ultimately show ?thesis ..
qed

lemma job_ends_flight:
  assumes "i < length (a_workers (h_pipe s))" "a_workers (h_pipe s) ! i = Sending m d"
  shows "in_flight (job_ends i m s) + replicate_mset (h_tries s i) m = in_flight s"
  using in_flight_change [of i s "job_ends i m s"] assms by simp

lemma job_ends_tries: "tries_ok s \<Longrightarrow> tries_ok (job_ends i m s)"
  by (auto simp: tries_ok_def nth_list_update)

lemma more_tries_flight:
  assumes "i < length (a_workers (h_pipe s))" "a_workers (h_pipe s) ! i = Sending m d"
    and "h_pipe s' = h_pipe s" "h_tries s' = (h_tries s)(i := Suc (h_tries s i))"
  shows "in_flight s' = in_flight s + {#m#}"
  using in_flight_change [of i s s'] assms by (simp add: union_assoc [symmetric])

lemma in_flight_cong:
  "a_workers (h_pipe s') = a_workers (h_pipe s) \<Longrightarrow> h_tries s' = h_tries s \<Longrightarrow> in_flight s' = in_flight s"
  "a_workers (h_pipe s') = a_workers (h_pipe s) \<Longrightarrow> h_tries s' = h_tries s \<Longrightarrow> tries_ok s' = tries_ok s"
  by (simp_all add: in_flight_def tries_ok_def)

lemma http_env_unchanged:
  assumes "http_env_step to_float s s'"
  shows "a_workers (h_pipe s') = a_workers (h_pipe s)" "h_tries s' = h_tries s" "h_log s' = h_log s" "h_mishap s' = h_mishap s"
    "a_finished (h_pipe s') = a_finished (h_pipe s)" "h_server s' = h_server s" "a_handed (h_pipe s') = a_handed (h_pipe s)"
    "a_taken (h_pipe s') = a_taken (h_pipe s)" "a_given_up (h_pipe s') = a_given_up (h_pipe s)"
  using assms by (cases; simp)+

lemma log_ok_keep:
  assumes "log_ok s" "h_log s' = h_log s" "h_mishap s \<Longrightarrow> h_mishap s'" "a_finished (h_pipe s') = a_finished (h_pipe s)"
    and "in_flight s' = in_flight s"
  shows "log_ok s'"
  using assms by (auto simp: log_ok_def)

lemma in_flight_sending:
  assumes "\<And>i. k i \<le> 4"
  shows "(\<Sum>i<length ws. pending (ws ! i) (k i))
    \<subseteq># repeat_mset 4 (mset (concat (map (\<lambda>w. case w of Sending m d \<Rightarrow> [m] | _ \<Rightarrow> []) ws)))"
  using assms
proof (induction ws arbitrary: k)
  case (Cons w ws)
  have "pending w (k 0) \<subseteq># repeat_mset 4 (mset (case w of Sending m d \<Rightarrow> [m] | _ \<Rightarrow> []))"
    using Cons.prems [of 0] by (cases w) (simp_all add: subseteq_mset_def)
  moreover have "(\<Sum>i<length ws. pending (ws ! i) (k (Suc i)))
      \<subseteq># repeat_mset 4 (mset (concat (map (\<lambda>w. case w of Sending m d \<Rightarrow> [m] | _ \<Rightarrow> []) ws)))"
    by (rule Cons.IH) (rule Cons.prems)
  ultimately show ?case by (simp add: sum.lessThan_Suc_shift subset_mset.add_mono del: sum.lessThan_Suc)
qed simp

context metric_link begin

lemma retry_noted:
  assumes "collected m" "attempt fate m w = (e, w')" "tries_again e k"
  shows "fate \<noteq> Answered" "k < 3"
proof -
  from assms(3) obtain x where x: "e = Some x" "isRetriableNetError x" "k < 3"
    by (auto simp: tries_again_def retryDelays_def)
  show "k < 3" by (rule x(3))
  show "fate \<noteq> Answered"
    using attempt_result [OF assms(1), of fate w] x assms(2) by auto
qed

lemma log_grows:
  assumes "log_ok s" "h_log s' = h_log s @ ms" "mset ms + F \<subseteq># G" "in_flight s' + F = in_flight s"
    and "a_finished (h_pipe s') = a_finished (h_pipe s) @ fs" "G = repeat_mset 4 (mset fs)"
    and "\<not> h_mishap s' \<Longrightarrow> \<not> h_mishap s \<and> ms = filter finite_value fs"
  shows "log_ok s'"
proof -
  have "mset (h_log s) + mset ms \<subseteq># repeat_mset 4 (mset (a_finished (h_pipe s))) + in_flight s + mset ms"
    using assms(1) by (simp add: log_ok_def)
  also have "\<dots> = repeat_mset 4 (mset (a_finished (h_pipe s))) + in_flight s' + (mset ms + F)"
    using assms(4) by (simp add: ac_simps)
  also have "\<dots> \<subseteq># repeat_mset 4 (mset (a_finished (h_pipe s))) + in_flight s' + G" using assms(3) by simp
  finally have "mset (h_log s') \<subseteq># repeat_mset 4 (mset (a_finished (h_pipe s'))) + in_flight s'"
    using assms(2,5,6) by (simp add: ac_simps)
  moreover have "\<not> h_mishap s' \<longrightarrow> h_log s' = filter finite_value (a_finished (h_pipe s'))"
    using assms(1,2,5,7) by (auto simp: log_ok_def)
  ultimately show ?thesis by (simp add: log_ok_def)
qed

lemma deliveries_step:
  assumes "http_step to_float attempt s s'" "tries_ok s" "log_ok s"
    and "\<And>i m d. i < length (a_workers (h_pipe s)) \<Longrightarrow> a_workers (h_pipe s) ! i = Sending m d \<Longrightarrow> collected m"
  shows "tries_ok s' \<and> log_ok s'"
  using assms(1) unfolding http_step_def
proof (elim disjE)
  assume "http_env_step to_float s s'"
  note u = http_env_unchanged [OF this]
  show ?thesis using assms(2) log_ok_keep [OF assms(3) u(3) _ u(5)] in_flight_cong [OF u(1,2)] u(4) by simp
next
  assume "http_own_step attempt s s'"
  then show ?thesis
  proof cases
    case (http_move p)
    from tries_ok_move [OF http_move(2-4) assms(2)] show ?thesis
      using log_ok_keep [OF assms(3), of s'] by (simp add: http_move(1,3))
  next
    case (http_retries i m d fate e w)
    note c = assms(4) [OF http_retries(2,3)]
    note r = retry_noted [OF c http_retries(4,5)]
    have f: "in_flight s' = in_flight s + {#m#}"
      by (rule more_tries_flight [OF http_retries(2,3)]) (simp_all add: http_retries(1))
    have "tries_ok s'" using assms(2) r(2) http_retries(2,3) by (auto simp: tries_ok_def http_retries(1))
    moreover have "log_ok s'"
      using assms(3) r(1) f by (auto simp: log_ok_def http_retries(1) intro: subset_mset.order_trans)
    ultimately show ?thesis ..
  next
    case (http_ends i m d fate e w)
    have k: "h_tries s i \<le> 3" using assms(2) by (simp add: tries_ok_def)
    let ?s = "note_attempt fate m w s"
    have "in_flight ?s = in_flight s" "tries_ok ?s = tries_ok s" by (rule in_flight_cong; simp)+
    then have "tries_ok s'" and f: "in_flight s' + replicate_mset (h_tries s i) m = in_flight s"
      using job_ends_tries [of ?s] job_ends_flight [of i ?s m d] assms(2) http_ends by simp_all
    moreover have "log_ok s'"
      by (rule log_grows [OF assms(3) _ _ f, where fs = "[m]" and ms = "if finite_value m \<and> fate \<noteq> Call_Lost then [m] else []"])
        (use k in \<open>auto simp: http_ends(1) subseteq_mset_def\<close>)
    ultimately show ?thesis by simp
  next
    case (http_gives_up i m d)
    let ?s = "s\<lparr>h_mishap := True\<rparr>"
    have k: "h_tries s i \<le> 3" using assms(2) by (simp add: tries_ok_def)
    have "in_flight ?s = in_flight s" "tries_ok ?s = tries_ok s" by (rule in_flight_cong; simp)+
    then have "tries_ok s'" and f: "in_flight s' + replicate_mset (h_tries s i) m = in_flight s"
      using job_ends_tries [of ?s] job_ends_flight [of i ?s m d] assms(2) http_gives_up by simp_all
    moreover have "log_ok s'"
      by (rule log_grows [OF assms(3) _ _ f, where fs = "[m]" and ms = "[]"])
        (use k in \<open>auto simp: http_gives_up(1) subseteq_mset_def\<close>)
    ultimately show ?thesis by simp
  qed (use assms(2) log_ok_keep [OF assms(3), of s'] in_flight_cong [of s' s] in simp_all)
qed

lemma store_step:
  assumes "http_step to_float attempt s s'"
    and "\<And>i m d. i < length (a_workers (h_pipe s)) \<Longrightarrow> a_workers (h_pipe s) ! i = Sending m d \<Longrightarrow> collected m"
    and "store_of (h_server s) = fold mem_apply (h_log s) m0"
  shows "store_of (h_server s') = fold mem_apply (h_log s') m0"
  using assms(1) unfolding http_step_def
proof (elim disjE)
  assume "http_env_step to_float s s'"
  from http_env_unchanged(3,6) [OF this] show ?thesis using assms(3) by simp
next
  assume "http_own_step attempt s s'"
  then show ?thesis
  proof cases
    case (http_retries i m d fate e w)
    with attempt_applies [OF assms(2) [OF http_retries(2,3)], of fate "h_server s"] assms(3) show ?thesis by simp
  next
    case (http_ends i m d fate e w)
    with attempt_applies [OF assms(2) [OF http_ends(2,3)], of fate "h_server s"] assms(3) show ?thesis by simp
  qed (use assms(3) in simp_all)
qed

lemma http_invariant:
  assumes "http_reachable to_float attempt n w0 s"
  shows "tries_ok s \<and> log_ok s \<and> store_of (h_server s) = fold mem_apply (h_log s) (store_of w0)"
  using assms
proof (induction rule: http_reachable_induct)
  case (start b u)
  show ?case by (auto simp: start_http_agent_def tries_ok_def log_ok_def start_agent_def)
next
  case (step s s')
  then show ?case using deliveries_step store_step worker_collected [OF step(1)] by metis
qed

text \<open>What the server holds is what it was sent, and nothing is sent more than four times over.\<close>

lemma deliveries_bounded:
  assumes "http_reachable to_float attempt n w0 s"
  shows "store_of (h_server s) = fold mem_apply (h_log s) (store_of w0)
    \<and> mset (h_log s) \<subseteq># repeat_mset 4 (mset (a_taken (h_pipe s))) \<and> list_all collected (a_taken (h_pipe s))"
proof -
  let ?p = "h_pipe s"
  have inv: "agent_inv n ?p" using agent_invs [OF http_refines_pipeline [OF assms]] by blast
  have taken: "mset (a_taken ?p) = mset (a_finished ?p) + mset (sending ?p)"
    and handed: "a_handed ?p = a_taken ?p @ ch_buf (a_jobs ?p)" using inv by (simp_all add: agent_inv_def)
  have "h_tries s i \<le> 3" for i using http_invariant [OF assms] by (auto simp: tries_ok_def)
  then have k: "h_tries s i \<le> 4" for i by (rule order_trans) simp
  have "in_flight s \<subseteq># repeat_mset 4 (mset (sending ?p))"
    unfolding in_flight_def sending_def by (rule in_flight_sending) (rule k)
  with http_invariant [OF assms] taken have "mset (h_log s) \<subseteq># repeat_mset 4 (mset (a_taken ?p))"
    by (auto simp: log_ok_def intro: subset_mset.order_trans)
  moreover have "list_all collected (a_taken ?p)"
    using h_sound_reachable [OF assms] handed by (simp add: h_sound_def)
  ultimately show ?thesis using http_invariant [OF assms] by blast
qed

text \<open>Without a mishap the server has applied what the workers have finished, as far as it can be sent.\<close>

lemma quiet_server:
  assumes "http_reachable to_float attempt n w0 s" "\<not> h_mishap s"
  shows "store_of (h_server s) = fold mem_apply (filter finite_value (a_finished (h_pipe s))) (store_of w0)"
  using http_invariant [OF assms(1)] assms(2) by (auto simp: log_ok_def)

lemma counts_exact:
  assumes "http_reachable to_float attempt n w0 s" "0 < n" "all_exited (h_pipe s)" "\<not> h_mishap s"
  shows "map_index (counters (store_of (h_server s))) k
    = map_index (counters (store_of w0)) k + sum_list (deltas_of k (a_handed (h_pipe s)))"
proof -
  let ?p = "h_pipe s"
  have reach: "agent_reachable n ?p" by (rule http_refines_pipeline [OF assms(1)])
  have inv: "agent_inv n ?p" using agent_invs [OF reach] by blast
  have same: "mset (a_finished ?p) = mset (a_handed ?p)" by (rule drained [OF inv assms(2,3)])
  then have "list_all collected (a_finished ?p)"
    using h_sound_reachable [OF assms(1)] by (metis h_sound_def list_all_iff mset_eq_setD)
  then show ?thesis
    using quiet_server [OF assms(1,4)] deltas_mset [OF same, of k]
    by (simp add: fold_apply_counter deltas_of_finite)
qed

end

section \<open>One worker\<close>

lemma sending_one: "length ws = 1 \<Longrightarrow> concat (map f ws) = f (ws ! 0)"
  by (cases ws) auto

text \<open>A single worker finishes the metrics in the order of the channel.\<close>

lemma single_worker_order:
  assumes "agent_reachable 1 p"
  shows "a_taken p = a_finished p @ sending p"
  using assms unfolding agent_reachable_def
proof (induction rule: rtranclp_induct)
  case base
  show ?case by (simp add: start_agent_def sending_def)
next
  case (step p p')
  have len: "length (a_workers p) = 1"
    using agent_invs [of 1 p] step(1) by (simp add: agent_reachable_def agent_inv_def)
  from step(2) show ?case
    unfolding agent_step_def
  proof (elim disjE)
    assume "env_step p p'"
    then show ?thesis using step(3) by cases (simp_all add: sending_def)
  next
    assume "own_step p p'"
    then show ?thesis
    proof cases
      case (dispatch m ms)
      from hand_over_effect [OF dispatch(2)] show ?thesis using step(3) by (simp add: sending_def)
    next
      case (dispatch_cancel m ms)
      from reporter_return_effect [OF dispatch_cancel(3)] show ?thesis using step(3) by (simp add: sending_def)
    next
      case (flush m ms)
      from hand_over_effect [OF flush(2)] show ?thesis using step(3) by (simp add: sending_def)
    next
      case flushed
      from reporter_return_effect [OF flushed(2)] show ?thesis using step(3) by (simp add: sending_def)
    next
      case (flush_drain m ms)
      from reporter_return_effect [OF flush_drain(3)] show ?thesis using step(3) by (simp add: sending_def)
    qed (use step(3) len in \<open>simp_all add: sending_def sending_one\<close>)
  qed
qed

text \<open>
  Once the collectors have stopped with the reporter still in its loop, the reporter ends with a complete snapshot
  of the final collector handed over, unless it gives up on something.
\<close>

definition last_report :: "collector \<Rightarrow> agent_state \<Rightarrow> bool" where
  "last_report c p \<longleftrightarrow>
     (\<forall>ms. a_rep p = Flushing ms \<longrightarrow>
        (\<exists>pre sent gs cs. collector_visits c gs cs \<and> a_handed p = pre @ sent \<and> sent @ ms = GetAllMetrics gs cs c))
     \<and> (a_rep p = Returned \<and> a_given_up p = [] \<longrightarrow>
        (\<exists>pre gs cs. collector_visits c gs cs \<and> a_handed p = pre @ GetAllMetrics gs cs c))"

lemma last_report_cong:
  "a_rep p' = a_rep p \<Longrightarrow> a_handed p' = a_handed p \<Longrightarrow> a_given_up p' = a_given_up p \<Longrightarrow> last_report c p' = last_report c p"
  by (simp add: last_report_def)

lemma last_report_move:
  assumes "own_step p p'" "a_rep p \<noteq> Waiting \<or> a_rep p' = Waiting" "last_report c p"
  shows "last_report c p'"
  using assms(1)
proof cases
  case (dispatch m ms)
  then show ?thesis using hand_over_effect(2) [OF dispatch(2)] by (simp add: last_report_def)
next
  case (dispatch_cancel m ms)
  then show ?thesis using reporter_return_effect [OF dispatch_cancel(3)] by (simp add: last_report_def)
next
  case (flush m ms)
  then obtain pre sent gs cs where "collector_visits c gs cs" "a_handed p = pre @ sent" "sent @ m # ms = GetAllMetrics gs cs c"
    using assms(3) by (auto simp: last_report_def)
  then have "collector_visits c gs cs \<and> a_handed p' = pre @ (sent @ [m]) \<and> (sent @ [m]) @ ms = GetAllMetrics gs cs c"
    using hand_over_effect(3) [OF flush(2)] by simp
  moreover have "a_rep p' = Flushing ms" by (rule hand_over_effect(2) [OF flush(2)])
  ultimately show ?thesis unfolding last_report_def by (metis reporter.distinct(11) reporter.inject(2))
next
  case flushed
  then show ?thesis using reporter_return_effect [OF flushed(2)] assms(3) by (auto simp: last_report_def)
next
  case (flush_drain m ms)
  then show ?thesis using reporter_return_effect [OF flush_drain(3)] by (simp add: last_report_def)
qed (use assms(2,3) in \<open>simp_all add: last_report_def\<close>)

definition settled_http :: "collector \<Rightarrow> 'w http_agent \<Rightarrow> bool" where
  "settled_http c s \<longleftrightarrow> \<not> h_runtime_on s \<and> \<not> h_gopsutil_on s \<and> h_collector s = c \<and> last_report c (h_pipe s)"

lemma settled_http_step:
  assumes "http_step to_float attempt s s'" "settled_http c s"
  shows "settled_http c s'"
  using assms(1) unfolding http_step_def
proof (elim disjE)
  assume "http_env_step to_float s s'"
  then show ?thesis
    using assms(2) by cases (simp_all add: settled_http_def last_report_def)
next
  assume "http_own_step attempt s s'"
  then show ?thesis
  proof cases
    case (http_flush_start gs cs)
    have "\<exists>pre sent gs' cs'. collector_visits c gs' cs' \<and> a_handed (h_pipe s) = pre @ sent
        \<and> sent @ GetAllMetrics gs cs c = GetAllMetrics gs' cs' c"
      using assms(2) http_flush_start(4)
      by (intro exI [of _ "a_handed (h_pipe s)"] exI [of _ "[]"] exI [of _ gs] exI [of _ cs]) (simp add: settled_http_def)
    then show ?thesis using assms(2) by (simp add: settled_http_def last_report_def http_flush_start(1))
  next
    case (http_move p)
    then show ?thesis using assms(2) last_report_move [OF http_move(2,4)] by (simp add: settled_http_def)
  qed (use assms(2) in \<open>simp_all add: settled_http_def last_report_def\<close>)
qed

lemma settled_http_run:
  "(http_step to_float attempt)\<^sup>*\<^sup>* s s' \<Longrightarrow> settled_http c s \<Longrightarrow> settled_http c s'"
  by (induction rule: rtranclp_induct) (auto intro: settled_http_step)

lemma snapshot_values:
  assumes "collector_visits c gs cs" "c_gauge c k = Some v" "float_finite v"
  shows "set (values_of k (filter finite_value (GetAllMetrics gs cs c))) = {v}"
  unfolding set_values_of using assms
  by (auto simp: GetAllMetrics_def set_range_pairs collector_visits_def visits_def TypeGauge_def TypeCounter_def
      intro!: bexI [of _ "gauge_metric k v"] image_eqI [of _ _ "(k, v)"])

context metric_link begin

lemma complete_shutdown:
  assumes "http_reachable to_float attempt 1 w0 s" "\<not> h_runtime_on s" "\<not> h_gopsutil_on s"
    and "a_rep (h_pipe s) = Waiting \<or> (\<exists>ms. a_rep (h_pipe s) = Dispatching ms)"
    and "(http_step to_float attempt)\<^sup>*\<^sup>* s s'" "all_exited (h_pipe s')" "a_given_up (h_pipe s') = []" "\<not> h_mishap s'"
    and "c_gauge (h_collector s') k = Some v" "float_finite v"
  shows "gauges (store_of (h_server s')) k = Some v"
proof -
  let ?p = "h_pipe s'" and ?c = "h_collector s"
  have "settled_http ?c s" using assms(2-4) by (auto simp: settled_http_def last_report_def)
  from settled_http_run [OF assms(5) this] have c: "h_collector s' = ?c" and last: "last_report ?c ?p"
    by (simp_all add: settled_http_def)
  have reach: "http_reachable to_float attempt 1 w0 s'"
    using assms(1,5) unfolding http_reachable_def by (meson rtranclp_trans)
  then have pipe: "agent_reachable 1 ?p" by (rule http_refines_pipeline)
  then have inv: "agent_inv 1 ?p" using agent_invs by blast
  have "a_workers ?p \<noteq> []" using inv by (auto simp: agent_inv_def)
  then have "Exited \<in> set (a_workers ?p)" using assms(6) unfolding all_exited_def by (metis list.set_intros(1) neq_Nil_conv)
  with inv have "ch_closed (a_jobs ?p)" "ch_buf (a_jobs ?p) = []" unfolding agent_inv_def by blast+
  with inv have "a_rep ?p = Returned" "a_handed ?p = a_taken ?p" unfolding agent_inv_def by simp_all
  moreover have "sending ?p = []" using assms(6) by (auto simp: sending_def all_exited_def)
  ultimately obtain pre gs cs where h: "collector_visits ?c gs cs" "a_finished ?p = pre @ GetAllMetrics gs cs ?c"
    using last assms(7) single_worker_order [OF pipe] unfolding last_report_def by (metis append_Nil2)
  let ?vs = "values_of k (filter finite_value (GetAllMetrics gs cs ?c))"
  have vs: "set ?vs = {v}" using snapshot_values [OF h(1)] assms(9,10) c by simp
  then have "?vs \<noteq> []" by (metis empty_set insert_not_empty)
  moreover from last_in_set [OF this] have "last ?vs = v" unfolding vs by simp
  ultimately show ?thesis
    by (simp add: quiet_server [OF reach assms(8)] h(2) fold_apply_gauge values_of_append)
qed

end

end
