(* ===== verification/Agent_Http_Facts.thy ===== *)
theory Agent_Http_Facts
  imports Agent_Http
begin

text \<open>
  What the HTTP agent promises when it runs against a deployed server: bounded delivery, exact totals whatever the
  interleaving, a complete shutdown with one worker, and the gauge an older report may bring back with more.
\<close>

section \<open>Building runs\<close>

definition run_pipe ::
    "bool \<Rightarrow> metrics list \<Rightarrow> reporter \<Rightarrow> metrics list \<Rightarrow> bool \<Rightarrow> worker list \<Rightarrow> metrics list \<Rightarrow> metrics list
      \<Rightarrow> metrics list \<Rightarrow> agent_state" where
  "run_pipe canc snap rep buf closed ws handed taken fin =
     \<lparr>a_cancelled = canc, a_time = 0, a_snapshot = snap, a_rep = rep,
      a_jobs = \<lparr>ch_buf = buf, ch_cap = length ws * 2, ch_closed = closed\<rparr>, a_workers = ws,
      a_handed = handed, a_taken = taken, a_finished = fin, a_given_up = []\<rparr>"

lemma run_pipe_sel [simp]:
  "a_cancelled (run_pipe canc snap rep buf closed ws h t f) = canc" "a_rep (run_pipe canc snap rep buf closed ws h t f) = rep"
  "a_workers (run_pipe canc snap rep buf closed ws h t f) = ws" "a_finished (run_pipe canc snap rep buf closed ws h t f) = f"
  "a_given_up (run_pipe canc snap rep buf closed ws h t f) = []" "a_handed (run_pipe canc snap rep buf closed ws h t f) = h"
  "(run_pipe canc snap rep buf closed ws h t f)\<lparr>a_cancelled := True\<rparr> = run_pipe True snap rep buf closed ws h t f"
  "(run_pipe canc snap rep buf closed ws h t f)\<lparr>a_snapshot := ms, a_rep := rep'\<rparr> = run_pipe canc ms rep' buf closed ws h t f"
  "length ws' = length ws \<Longrightarrow> (run_pipe canc snap rep buf closed ws h t f)\<lparr>a_workers := ws', a_finished := f'\<rparr>
     = run_pipe canc snap rep buf closed ws' h t f'"
  by (simp_all add: run_pipe_def)

lemmas run_pipe_unfold = run_pipe_def hand_over_def reporter_return_def chan_put_def chan_send_def chan_take_def
  chan_recv_def chan_close_def

lemma run_start: "start_agent n = run_pipe False [] Waiting [] False (replicate n Idle) [] [] []"
  by (simp add: start_agent_def run_pipe_def make_chan_def)

lemma run_dispatch:
  "length buf < length ws * 2 \<Longrightarrow> own_step (run_pipe canc snap (Dispatching (m # ms)) buf False ws h t f)
     (run_pipe canc snap (Dispatching ms) (buf @ [m]) False ws (h @ [m]) t f)"
  by (rule own_step.dispatch) (auto simp: run_pipe_unfold)

lemma run_dispatched:
  "own_step (run_pipe canc snap (Dispatching []) buf False ws h t f) (run_pipe canc snap Waiting buf False ws h t f)"
  using own_step.dispatched [of "run_pipe canc snap (Dispatching []) buf False ws h t f"] by (simp add: run_pipe_def)

lemma run_flush:
  "length buf < length ws * 2 \<Longrightarrow> own_step (run_pipe canc snap (Flushing (m # ms)) buf False ws h t f)
     (run_pipe canc snap (Flushing ms) (buf @ [m]) False ws (h @ [m]) t f)"
  by (rule own_step.flush) (auto simp: run_pipe_unfold)

lemma run_flushed:
  "own_step (run_pipe canc snap (Flushing []) buf False ws h t f) (run_pipe canc snap Returned buf True ws h t f)"
  by (rule own_step.flushed) (auto simp: run_pipe_unfold)

lemma run_take:
  "i < length ws \<Longrightarrow> ws ! i = Idle \<Longrightarrow> own_step (run_pipe canc snap rep (m # buf) closed ws h t f)
     (run_pipe canc snap rep buf closed (ws[i := Sending m canc]) h (t @ [m]) f)"
  using own_step.take_job [of i "run_pipe canc snap rep (m # buf) closed ws h t f" m
      "\<lparr>ch_buf = buf, ch_cap = length ws * 2, ch_closed = closed\<rparr>"]
  by (simp add: run_pipe_unfold)

lemma run_exit:
  "i < length ws \<Longrightarrow> ws ! i = Idle \<Longrightarrow> own_step (run_pipe canc snap rep [] True ws h t f)
     (run_pipe canc snap rep [] True (ws[i := Exited]) h t f)"
  using own_step.worker_exit [of i "run_pipe canc snap rep [] True ws h t f"] by (simp add: run_pipe_unfold)

definition run_http :: "agent_state \<Rightarrow> collector \<Rightarrow> bool \<Rightarrow> 'w \<Rightarrow> metrics list \<Rightarrow> 'w http_agent" where
  "run_http p c on w log = \<lparr>h_pipe = p, h_collector = c, h_runtime_on = on, h_gopsutil_on = on, h_tries = (\<lambda>_. 0),
     h_server = w, h_log = log, h_mishap = False\<rparr>"

lemma run_http_sel [simp]:
  "h_pipe (run_http p c on w log) = p" "h_collector (run_http p c on w log) = c" "h_server (run_http p c on w log) = w"
  "h_mishap (run_http p c on w log) = False" "h_runtime_on (run_http p c on w log) = on"
  "h_gopsutil_on (run_http p c on w log) = on" "h_log (run_http p c on w log) = log"
  by (simp_all add: run_http_def)

lemma http_start: "start_http_agent n b u w = run_http (start_agent n) (NewCollector b u) True w []"
  by (simp add: start_http_agent_def run_http_def)

abbreviation cpu :: string where
  "cpu \<equiv> ''CPUutilization1''"

text \<open>A collector whose only reading is the load of one processor.\<close>

definition loaded :: "float64 \<Rightarrow> collector" where
  "loaded v = (NewCollector 1 '''')\<lparr>c_gauge := [cpu \<mapsto> v]\<rparr>"

lemma loaded_sel [simp]: "c_gauge (loaded v) = [cpu \<mapsto> v]" "collector_visits (loaded v) [cpu] []"
  "GetAllMetrics [cpu] [] (loaded v) = [gauge_metric cpu v]"
  by (simp_all add: loaded_def collector_visits_def visits_def GetAllMetrics_def NewCollector_def)

lemma digit_one: "nat_digits 1 = ''1''"
  by code_simp

lemma read_load: "UpdateGopsutilMetrics to_float (Inl ErrCtx) (Inr [v]) (NewCollector 1 '''') = loaded v"
  "UpdateGopsutilMetrics to_float (Inl ErrCtx) (Inr [v]) (loaded u) = loaded v"
  using digit_one by (simp_all add: UpdateGopsutilMetrics_eq loaded_def NewCollector_def Let_def)

lemma run_move:
  assumes "own_step p p'" "a_finished p' = a_finished p" "a_rep p \<noteq> Waiting \<or> a_rep p' = Waiting"
  shows "http_step to_float attempt (run_http p c on w log) (run_http p' c on w log)"
  using http_own_step.http_move [of "run_http p c on w log" p' attempt] assms by (simp add: http_step_def run_http_def)

lemma run_read:
  "http_step to_float attempt (run_http p (NewCollector 1 '''') True w log) (run_http p (loaded v) True w log)"
  "http_step to_float attempt (run_http p (loaded u) True w log) (run_http p (loaded v) True w log)"
  using http_env_step.http_poll_gopsutil [of "run_http p (NewCollector 1 '''') True w log" to_float "Inl ErrCtx" "Inr [v]"]
    http_env_step.http_poll_gopsutil [of "run_http p (loaded u) True w log" to_float "Inl ErrCtx" "Inr [v]"]
  by (simp_all add: http_step_def read_load run_http_def)

lemma run_tick:
  "http_step to_float attempt (run_http (run_pipe canc snap Waiting buf closed ws h t f) (loaded v) on w log)
     (run_http (run_pipe canc [gauge_metric cpu v] (Dispatching [gauge_metric cpu v]) buf closed ws h t f) (loaded v) on w log)"
  using http_env_step.http_tick [of "run_http (run_pipe canc snap Waiting buf closed ws h t f) (loaded v) on w log" "[cpu]" "[]"]
  by (simp add: http_step_def report_def Let_def run_http_def)

lemma run_interrupt:
  "http_step to_float attempt (run_http (run_pipe canc snap rep buf closed ws h t f) c on w log)
     (run_http (run_pipe True snap rep buf closed ws h t f) c on w log)"
  using http_env_step.http_interrupt [of to_float "run_http (run_pipe canc snap rep buf closed ws h t f) c on w log"]
  by (simp add: http_step_def run_http_def)

lemma run_stop:
  assumes "a_cancelled p"
  shows "(http_step to_float attempt)\<^sup>*\<^sup>* (run_http p c True w log) (run_http p c False w log)"
proof -
  let ?s = "run_http p c True w log"
  have "http_step to_float attempt ?s (?s\<lparr>h_runtime_on := False\<rparr>)"
    using http_own_step.http_stop_runtime [of ?s attempt] assms by (simp add: http_step_def)
  moreover have "http_step to_float attempt (?s\<lparr>h_runtime_on := False\<rparr>) (run_http p c False w log)"
    using http_own_step.http_stop_gopsutil [of "?s\<lparr>h_runtime_on := False\<rparr>" attempt] assms
    by (simp add: http_step_def run_http_def)
  ultimately show ?thesis by simp
qed

lemma run_flush_start:
  "http_step to_float attempt (run_http (run_pipe True snap Waiting buf closed ws h t f) (loaded v) on w log)
     (run_http (run_pipe True [gauge_metric cpu v] (Flushing [gauge_metric cpu v]) buf closed ws h t f) (loaded v) on w log)"
  using http_own_step.http_flush_start [of "run_http (run_pipe True snap Waiting buf closed ws h t f) (loaded v) on w log" "[cpu]" "[]"]
  by (simp add: http_step_def report_def Let_def run_http_def)

lemma run_sent:
  assumes "i < length ws" "ws ! i = Sending m d" "attempt Answered m w = (None, w')" "finite_value m"
  shows "http_step to_float attempt (run_http (run_pipe canc snap rep buf closed ws h t f) c on w log)
     (run_http (run_pipe canc snap rep buf closed (ws[i := Idle]) h t (f @ [m])) c on w' (log @ [m]))"
  using http_own_step.http_ends [of i "run_http (run_pipe canc snap rep buf closed ws h t f) c on w log" m d attempt Answered] assms
  by (simp add: http_step_def job_ends_def note_attempt_def run_http_def tries_again_def fun_upd_idem)

section \<open>Runs\<close>

abbreviation load :: "float64 \<Rightarrow> metrics" where
  "load v \<equiv> gauge_metric cpu v"

lemma valid_cpu [simp]: "valid_utf8 cpu"
  by (simp add: valid_utf8_ascii byte_in_def)

lemma load_collected [simp]: "collected (load v)" "finite_value (load v) = float_finite v"
  by (simp_all add: valid_cpu)

lemma fresh_reach: "http_reachable to_float attempt n w (run_http (start_agent n) (NewCollector 1 '''') True w [])"
  using http_reachable_start [of to_float attempt n w 1 "''''"] by (simp add: http_start)

lemma http_reachable_run:
  "http_reachable to_float attempt n w0 s \<Longrightarrow> (http_step to_float attempt)\<^sup>*\<^sup>* s s' \<Longrightarrow> http_reachable to_float attempt n w0 s'"
  unfolding http_reachable_def by (meson rtranclp_trans)

text \<open>One worker, one reading, the signal, and the flush to its end.\<close>

definition stopped_run :: "float64 \<Rightarrow> 'w \<Rightarrow> 'w http_agent" where
  "stopped_run v w = run_http (run_pipe True [] Waiting [] False [Idle] [] [] []) (loaded v) False w []"

definition ended_run :: "float64 \<Rightarrow> 'w \<Rightarrow> 'w http_agent" where
  "ended_run v w = run_http (run_pipe True [load v] Returned [] True [Exited] [load v] [load v] [load v])
     (loaded v) False w [load v]"

lemma stopped_run_reachable: "http_reachable to_float attempt 1 w (stopped_run v w)"
proof -
  let ?p = "run_pipe False [] Waiting [] False [Idle] [] [] []"
  let ?steps = "(http_step to_float attempt)\<^sup>*\<^sup>*"
  have "start_agent 1 = ?p" by (simp add: run_start)
  then have "http_reachable to_float attempt 1 w (run_http ?p (NewCollector 1 '''') True w [])"
    using fresh_reach [of to_float attempt 1 w] by simp
  moreover have "?steps (run_http ?p (NewCollector 1 '''') True w []) (run_http ?p (loaded v) True w [])"
    using run_read(1) by (rule r_into_rtranclp)
  moreover have "?steps (run_http ?p (loaded v) True w [])
      (run_http (run_pipe True [] Waiting [] False [Idle] [] [] []) (loaded v) True w [])"
    by (rule r_into_rtranclp) (rule run_interrupt)
  moreover have "?steps (run_http (run_pipe True [] Waiting [] False [Idle] [] [] []) (loaded v) True w []) (stopped_run v w)"
    unfolding stopped_run_def by (rule run_stop) simp
  ultimately show ?thesis using http_reachable_run by metis
qed

lemma ended_run_steps:
  assumes "attempt Answered (load v) w = (None, w')" "float_finite v"
  shows "(http_step to_float attempt)\<^sup>*\<^sup>* (stopped_run v w) (ended_run v w')"
proof -
  let ?m = "load v"
  let ?s = "\<lambda>p. run_http p (loaded v) False w []" and ?s' = "\<lambda>p. run_http p (loaded v) False w' [?m]"
  let ?step = "http_step to_float attempt"
  have "?step\<^sup>*\<^sup>* (stopped_run v w) (?s (run_pipe True [?m] (Flushing [?m]) [] False [Idle] [] [] []))"
    unfolding stopped_run_def by (rule r_into_rtranclp) (rule run_flush_start)
  also have "?step \<dots> (?s (run_pipe True [?m] (Flushing []) [?m] False [Idle] [?m] [] []))"
    by (rule run_move) (use run_flush [of "[]" "[Idle]" True "[?m]" ?m "[]" "[]" "[]" "[]"] in simp_all)
  also have "?step \<dots> (?s (run_pipe True [?m] Returned [?m] True [Idle] [?m] [] []))"
    by (rule run_move) (use run_flushed in simp_all)
  also have "?step \<dots> (?s (run_pipe True [?m] Returned [] True [Sending ?m True] [?m] [?m] []))"
    by (rule run_move) (use run_take [of 0 "[Idle]" True "[?m]" Returned ?m "[]" True "[?m]" "[]" "[]"] in simp_all)
  also have "?step \<dots> (?s' (run_pipe True [?m] Returned [] True [Idle] [?m] [?m] [?m]))"
    using run_sent [of 0 "[Sending ?m True]" ?m True attempt w w', where f = "[]" and log = "[]"] assms by simp
  also have "?step \<dots> (ended_run v w')"
    unfolding ended_run_def by (rule run_move) (use run_exit [of 0 "[Idle]" True "[?m]" Returned "[?m]" "[?m]" "[?m]"] in simp_all)
  finally show ?thesis .
qed

lemma ended_run_sel [simp]:
  "all_exited (h_pipe (ended_run v w))" "a_given_up (h_pipe (ended_run v w)) = []" "\<not> h_mishap (ended_run v w)"
  "h_collector (ended_run v w) = loaded v" "h_server (ended_run v w) = w" "a_handed (h_pipe (ended_run v w)) = [load v]"
  "h_log (ended_run v w) = [load v]"
  by (simp_all add: ended_run_def all_exited_def)

lemma ended_run_reachable:
  assumes "attempt Answered (load v) w = (None, w')" "float_finite v"
  shows "http_reachable to_float attempt 1 w (ended_run v w')"
  by (rule http_reachable_run [OF stopped_run_reachable ended_run_steps]) (rule assms)+

section \<open>What is delivered\<close>

text \<open>C16: However the workers' attempts interleave and whatever is lost on the way, the server's store is what
  the metrics it has applied make of the store it started with, these are metrics the collector made and the
  workers took from the channel, and none is applied more than four times as often as it was taken.\<close>
theorem http_deliveries_bounded:
  assumes "deployed d" and "http_reachable to_float (link_attempt d) n w0 s"
  shows "server_store d (h_server s) = fold mem_apply (h_log s) (server_store d w0)
    \<and> mset (h_log s) \<subseteq># repeat_mset 4 (mset (a_taken (h_pipe s))) \<and> list_all collected (a_taken (h_pipe s))"
  using metric_link.deliveries_bounded [OF deployed_link [OF assms(1)] assms(2)] by simp

text \<open>C2: With any number of workers, when none of the calls went wrong and all workers have exited, every counter
  of the server has grown by exactly the sum of the deltas that were put into the channel, modulo 2 to the 64: no
  interleaving loses or repeats one.\<close>
theorem http_counts_exact:
  assumes "deployed d" and "http_reachable to_float (link_attempt d) n w0 s" and "0 < n"
    and "all_exited (h_pipe s)" and "\<not> h_mishap s"
  shows "map_index (counters (server_store d (h_server s))) k
    = map_index (counters (server_store d w0)) k + sum_list (deltas_of k (a_handed (h_pipe s)))"
  using metric_link.counts_exact [OF deployed_link [OF assms(1)] assms(2-5)] by simp

text \<open>C3: With one worker the shutdown over HTTP is complete: when the collectors have stopped before the reporter
  took its last snapshot, none of the calls went wrong and the reporter gave up on nothing, the server ends with
  every gauge of the agent whose value is a number.\<close>
theorem http_shutdown_complete:
  assumes "deployed d" and "http_reachable to_float (link_attempt d) 1 w0 s" and "\<not> h_runtime_on s"
    and "\<not> h_gopsutil_on s" and "a_rep (h_pipe s) = Waiting \<or> (\<exists>ms. a_rep (h_pipe s) = Dispatching ms)"
    and "(http_step to_float (link_attempt d))\<^sup>*\<^sup>* s s'" and "all_exited (h_pipe s')"
    and "a_given_up (h_pipe s') = []" and "\<not> h_mishap s'" and "c_gauge (h_collector s') k = Some v" and "float_finite v"
  shows "gauges (server_store d (h_server s')) k = Some v"
  using metric_link.complete_shutdown [OF deployed_link [OF assms(1)] assms(2-11)] by simp

lemma demo_load_sent:
  obtains w' where "link_attempt demo_link Answered (load 0) fresh_server = (None, w')"
    "fst (fst w') = mem_UpdateGauge cpu 0 NewMemStorage"
  using deployed_attempt [OF demo_deployed, of "load 0" Answered fresh_server] by auto

lemma demo_ended:
  assumes "link_attempt demo_link Answered (load 0) fresh_server = (None, w')"
  shows "http_reachable Float64 (link_attempt demo_link) 1 fresh_server (ended_run 0 w')"
    and "(http_step Float64 (link_attempt demo_link))\<^sup>*\<^sup>* (stopped_run 0 fresh_server) (ended_run 0 w')"
  by (rule ended_run_reachable, rule assms, simp) (rule ended_run_steps, rule assms, simp)

theorem http_deliveries_bounded_witness:
  "\<exists>w'. link_attempt demo_link Answered (load 0) fresh_server = (None, w')
     \<and> fst (fst w') = fold mem_apply [load 0] NewMemStorage"
proof -
  obtain w' where w: "link_attempt demo_link Answered (load 0) fresh_server = (None, w')" by (rule demo_load_sent)
  have "fst (fst w') = fold mem_apply [load 0] NewMemStorage"
    using http_deliveries_bounded [OF demo_deployed demo_ended(1) [OF w]] by simp
  with w show ?thesis by (intro exI [of _ w']) simp
qed

theorem http_counts_exact_witness:
  "\<exists>w'. link_attempt demo_link Answered (load 0) fresh_server = (None, w') \<and> map_index (counters (fst (fst w'))) ''c'' = 0"
proof -
  obtain w' where w: "link_attempt demo_link Answered (load 0) fresh_server = (None, w')" by (rule demo_load_sent)
  from http_counts_exact [OF demo_deployed demo_ended(1) [OF w], of "''c''"] w show ?thesis
    by (auto simp: NewMemStorage_def map_index_def TypeGauge_def TypeCounter_def)
qed

theorem http_shutdown_complete_witness:
  "\<exists>w'. link_attempt demo_link Answered (load 0) fresh_server = (None, w') \<and> gauges (fst (fst w')) cpu = Some 0"
proof -
  obtain w' where w: "link_attempt demo_link Answered (load 0) fresh_server = (None, w')" by (rule demo_load_sent)
  from http_shutdown_complete [OF demo_deployed stopped_run_reachable _ _ _ demo_ended(2) [OF w], of cpu 0] w show ?thesis
    by (auto simp: stopped_run_def)
qed

lemma http_refines_pipeline_witness: "agent_reachable 1 (h_pipe (stopped_run 0 fresh_server))"
  by (rule http_refines_pipeline [OF stopped_run_reachable])

section \<open>An older report overtakes\<close>

definition overtaken_run :: "float64 \<Rightarrow> float64 \<Rightarrow> 'w \<Rightarrow> 'w http_agent" where
  "overtaken_run u v w = run_http (run_pipe False [load v] Waiting [] False [Idle, Idle] [load u, load v] [load u, load v]
     [load v, load u]) (loaded v) True w [load v, load u]"

lemma overtaken_run_reachable:
  assumes "attempt Answered (load v) w = (None, w1)" "attempt Answered (load u) w1 = (None, w2)"
    and "float_finite u" "float_finite v"
  shows "http_reachable to_float attempt 2 w (overtaken_run u v w2)"
proof -
  let ?u = "load u" and ?v = "load v" and ?step = "http_step to_float attempt"
  let ?s = "\<lambda>c p. run_http p c True w []"
  have "start_agent 2 = run_pipe False [] Waiting [] False [Idle, Idle] [] [] []" by (simp add: run_start numeral_2_eq_2)
  then have start: "http_reachable to_float attempt 2 w
      (?s (NewCollector 1 '''') (run_pipe False [] Waiting [] False [Idle, Idle] [] [] []))"
    using fresh_reach [of to_float attempt 2 w] by simp
  have "?step\<^sup>*\<^sup>* (?s (NewCollector 1 '''') (run_pipe False [] Waiting [] False [Idle, Idle] [] [] []))
      (?s (loaded u) (run_pipe False [] Waiting [] False [Idle, Idle] [] [] []))"
    by (rule r_into_rtranclp) (rule run_read)
  also have "?step \<dots> (?s (loaded u) (run_pipe False [?u] (Dispatching [?u]) [] False [Idle, Idle] [] [] []))"
    by (rule run_tick)
  also have "?step \<dots> (?s (loaded u) (run_pipe False [?u] (Dispatching []) [?u] False [Idle, Idle] [?u] [] []))"
    by (rule run_move) (use run_dispatch [of "[]" "[Idle, Idle]" False "[?u]" ?u "[]" "[]" "[]" "[]"] in simp_all)
  also have "?step \<dots> (?s (loaded u) (run_pipe False [?u] Waiting [?u] False [Idle, Idle] [?u] [] []))"
    by (rule run_move) (use run_dispatched in simp_all)
  also have "?step \<dots> (?s (loaded u) (run_pipe False [?u] Waiting [] False [Sending ?u False, Idle] [?u] [?u] []))"
    by (rule run_move) (use run_take [of 0 "[Idle, Idle]" False "[?u]" Waiting ?u "[]" False "[?u]" "[]" "[]"] in simp_all)
  also have "?step \<dots> (?s (loaded v) (run_pipe False [?u] Waiting [] False [Sending ?u False, Idle] [?u] [?u] []))"
    by (rule run_read)
  also have "?step \<dots> (?s (loaded v) (run_pipe False [?v] (Dispatching [?v]) [] False [Sending ?u False, Idle] [?u] [?u] []))"
    by (rule run_tick)
  also have "?step \<dots> (?s (loaded v) (run_pipe False [?v] (Dispatching []) [?v] False [Sending ?u False, Idle] [?u, ?v] [?u] []))"
    by (rule run_move)
      (use run_dispatch [of "[]" "[Sending ?u False, Idle]" False "[?v]" ?v "[]" "[?u]" "[?u]" "[]"] in simp_all)
  also have "?step \<dots> (?s (loaded v) (run_pipe False [?v] Waiting [?v] False [Sending ?u False, Idle] [?u, ?v] [?u] []))"
    by (rule run_move) (use run_dispatched in simp_all)
  also have "?step \<dots> (?s (loaded v) (run_pipe False [?v] Waiting [] False [Sending ?u False, Sending ?v False] [?u, ?v] [?u, ?v] []))"
    by (rule run_move)
      (use run_take [of 1 "[Sending ?u False, Idle]" False "[?v]" Waiting ?v "[]" False "[?u, ?v]" "[?u]" "[]"] in simp_all)
  also have "?step \<dots> (run_http (run_pipe False [?v] Waiting [] False [Sending ?u False, Idle] [?u, ?v] [?u, ?v] [?v])
      (loaded v) True w1 [?v])"
    using run_sent [of 1 "[Sending ?u False, Sending ?v False]" ?v False attempt w w1, where f = "[]" and log = "[]"] assms by simp
  also have "?step \<dots> (overtaken_run u v w2)"
    using run_sent [of 0 "[Sending ?u False, Idle]" ?u False attempt w1 w2, where f = "[?v]" and log = "[?v]"] assms
    by (simp add: overtaken_run_def)
  finally show ?thesis by (rule http_reachable_run [OF start])
qed

text \<open>C15: With two workers an older report may overtake a newer one: the agent reads \<open>u\<close> and then \<open>v\<close>, both are
  reported, every call is answered and nothing is left to send, and the server has gone back to \<open>u\<close>.\<close>
theorem older_gauge_returns:
  assumes "deployed d" and "float_finite u" and "float_finite v"
  shows "\<exists>s. http_reachable to_float (link_attempt d) 2 w s \<and> \<not> h_mishap s \<and> sending (h_pipe s) = []
    \<and> ch_buf (a_jobs (h_pipe s)) = [] \<and> a_rep (h_pipe s) = Waiting
    \<and> c_gauge (h_collector s) cpu = Some v \<and> gauges (server_store d (h_server s)) cpu = Some u"
proof -
  obtain w1 where 1: "link_attempt d Answered (load v) w = (None, w1)"
    using deployed_attempt [OF assms(1), of "load v" Answered w] assms(3) by auto
  obtain w2 where 2: "link_attempt d Answered (load u) w1 = (None, w2)" "server_store d w2 = mem_apply (load u) (server_store d w1)"
    using deployed_attempt [OF assms(1), of "load u" Answered w1] assms(2) by auto
  have "http_reachable to_float (link_attempt d) 2 w (overtaken_run u v w2)"
    by (rule overtaken_run_reachable) (rule 1 2(1) assms)+
  moreover have "gauges (server_store d w2) cpu = Some u" by (simp add: 2(2) mem_UpdateGauge_def)
  ultimately show ?thesis
    by (intro exI [of _ "overtaken_run u v w2"]) (simp add: overtaken_run_def sending_def, simp add: run_pipe_def)
qed

theorem older_gauge_returns_witness:
  "\<exists>s. http_reachable Float64 (link_attempt demo_link) 2 fresh_server s \<and> c_gauge (h_collector s) cpu = Some (Float64 1)
     \<and> gauges (fst (fst (h_server s))) cpu = Some 0"
proof -
  have "float_finite (Float64 1)" by (simp add: float_finite_def)
  from older_gauge_returns [OF demo_deployed _ this, of 0 Float64 fresh_server] show ?thesis by auto
qed

section \<open>What travels\<close>

text \<open>C17: Every metric anywhere between the collector and the server, in the reporter's list, in the channel or in
  a worker's hands, is well formed: it has a name of valid UTF-8, one of the two known types, and exactly the value
  its type calls for.\<close>
theorem http_metrics_typed:
  assumes "http_reachable to_float attempt n w0 s"
    and "m \<in> set (rep_metrics (a_rep (h_pipe s))) \<union> set (ch_buf (a_jobs (h_pipe s))) \<union> set (sending (h_pipe s))"
  shows "ID m \<noteq> '''' \<and> valid_utf8 (ID m) \<and> Hash m = ''''
    \<and> (MType m = TypeGauge \<and> Value m \<noteq> None \<and> Delta m = None
       \<or> MType m = TypeCounter \<and> Delta m \<noteq> None \<and> Value m = None)"
proof -
  have inv: "agent_inv n (h_pipe s)" using agent_invs [OF http_refines_pipeline [OF assms(1)]] by blast
  then have taken: "mset (a_taken (h_pipe s)) = mset (a_finished (h_pipe s)) + mset (sending (h_pipe s))"
    and handed: "a_handed (h_pipe s) = a_taken (h_pipe s) @ ch_buf (a_jobs (h_pipe s))" by (simp_all add: agent_inv_def)
  from taken have "set (sending (h_pipe s)) \<subseteq> set (a_taken (h_pipe s))" by (metis set_mset_mset set_mset_union sup_ge2)
  then have "collected m"
    using h_sound_reachable [OF assms(1)] handed assms(2) by (auto simp: h_sound_def list_all_iff)
  then show ?thesis by (auto elim!: collected_cases)
qed

theorem http_metrics_typed_witness:
  "ID (load 0) \<noteq> '''' \<and> valid_utf8 (ID (load 0)) \<and> Hash (load 0) = ''''"
proof -
  let ?s = "run_http (run_pipe True [load 0] (Flushing [load 0]) [] False [Idle] [] [] []) (loaded 0) False fresh_server []"
  have "http_step Float64 (link_attempt demo_link) (stopped_run 0 fresh_server) ?s"
    unfolding stopped_run_def by (rule run_flush_start)
  then have "http_reachable Float64 (link_attempt demo_link) 1 fresh_server ?s"
    by (rule http_reachable_step [OF stopped_run_reachable])
  from http_metrics_typed [OF this, of "load 0"] show ?thesis by simp
qed

end
