(* ===== verification/Agent_Http_Shutdown.thy ===== *)
theory Agent_Http_Shutdown
  imports Agent_Http_Facts
begin

text \<open>
  The shutdown of the HTTP agent comes to an end by itself, retries included: after the signal every step of its
  goroutines uses up some of a finite amount of work, and as long as one of them is left, it can make a step.
\<close>

section \<open>Work\<close>

definition names_left :: "collector \<Rightarrow> nat" where
  "names_left c = card (dom (c_gauge c)) + card (dom (c_counter c))"

definition tries_made :: "'w http_agent \<Rightarrow> nat" where
  "tries_made s = (\<Sum>i<length (a_workers (h_pipe s)). h_tries s i)"

text \<open>Four units for each piece of work of the pipeline, less the attempts already made.\<close>

definition http_left :: "'w http_agent \<Rightarrow> int" where
  "http_left s = 4 * int (work_within (names_left (h_collector s)) (h_pipe s)) - int (tries_made s)
     + of_bool (h_runtime_on s) + of_bool (h_gopsutil_on s)"

lemma range_pairs_length: "visits m ks \<Longrightarrow> length (range_pairs m ks) = card (dom m)"
proof -
  have "set ks \<subseteq> dom m \<Longrightarrow> length (range_pairs m ks) = length ks" by (induction ks) (auto split: option.splits)
  then show "visits m ks \<Longrightarrow> length (range_pairs m ks) = card (dom m)" using visits_length [of m ks] by (simp add: visits_def)
qed

lemma snapshot_length: "collector_visits c gs cs \<Longrightarrow> length (GetAllMetrics gs cs c) = names_left c"
  by (simp add: GetAllMetrics_def names_left_def collector_visits_def range_pairs_length)

lemma tries_bound:
  assumes "\<And>i. k i \<le> (3::nat)" "\<And>i. i < length ws \<Longrightarrow> (\<forall>m d. ws ! i \<noteq> Sending m d) \<Longrightarrow> k i = 0"
  shows "(\<Sum>i<length ws. k i) \<le> 2 * sum_list (map worker_weight ws)"
  using assms
proof (induction ws arbitrary: k)
  case (Cons w ws)
  have "(\<Sum>i<length ws. k (Suc i)) \<le> 2 * sum_list (map worker_weight ws)"
    by (rule Cons.IH) (use Cons.prems(1) Cons.prems(2) [of "Suc i" for i] in auto)
  moreover have "k 0 \<le> 2 * worker_weight w"
    using Cons.prems(1) [of 0] Cons.prems(2) [of 0] by (cases w) (auto simp: worker_weight_def)
  ultimately show ?case by (simp add: sum.lessThan_Suc_shift del: sum.lessThan_Suc)
qed simp

lemma tries_within: "tries_ok s \<Longrightarrow> tries_made s \<le> 4 * work_within k (h_pipe s)"
  using tries_bound [of "h_tries s" "a_workers (h_pipe s)"] by (simp add: tries_ok_def tries_made_def work_within_def)

lemma http_left_nonneg: "tries_ok s \<Longrightarrow> 0 \<le> http_left s"
  using tries_within [of s "names_left (h_collector s)"] by (simp add: http_left_def)

lemma job_ends_left:
  assumes "i < length (a_workers (h_pipe s))" "a_workers (h_pipe s) ! i = Sending m d" "h_tries s i \<le> 3"
  shows "http_left (job_ends i m s) < http_left s"
proof -
  have "tries_made (job_ends i m s) + h_tries s i = tries_made s"
    unfolding tries_made_def using sum_one_changed [OF assms(1), of "(h_tries s)(i := 0)" "h_tries s"] by simp
  moreover have "work_within k (h_pipe (job_ends i m s)) < work_within k (h_pipe s)" for k
    using own_step_within [OF own_step.job_done [OF assms(1,2)], of k] by simp
  from this [of "names_left (h_collector s)"]
  have "work_within (names_left (h_collector s)) (h_pipe (job_ends i m s)) + 1 \<le> work_within (names_left (h_collector s)) (h_pipe s)"
    by simp
  ultimately show ?thesis using assms(3) unfolding http_left_def by simp
qed

section \<open>It ends\<close>

lemma http_own_keeps:
  assumes "http_own_step attempt s s'"
  shows "a_cancelled (h_pipe s') = a_cancelled (h_pipe s)"
  using assms by cases (auto simp: own_step_keeps)

context metric_link begin

lemma http_own_left:
  assumes "http_own_step attempt s s'" "tries_ok s"
    and "\<And>i m d. i < length (a_workers (h_pipe s)) \<Longrightarrow> a_workers (h_pipe s) ! i = Sending m d \<Longrightarrow> collected m"
  shows "http_left s' < http_left s"
  using assms(1)
proof cases
  case (http_flush_start gs cs)
  then show ?thesis
    by (simp add: http_left_def tries_made_def work_within_def reporter_weight_def snapshot_length)
next
  case (http_move p)
  have "length (a_workers p) = length (a_workers (h_pipe s))" by (rule move_effect(1) [OF http_move(2-4)])
  moreover have "work_within k p < work_within k (h_pipe s)" for k
    using own_step_within [OF http_move(2), of k] http_move(4) by blast
  from this [of "names_left (h_collector s)"]
  have "int (work_within (names_left (h_collector s)) p) + 1 \<le> int (work_within (names_left (h_collector s)) (h_pipe s))" by simp
  ultimately show ?thesis by (simp add: http_move(1) http_left_def tries_made_def)
next
  case (http_retries i m d fate e w)
  have "tries_made s' = Suc (tries_made s)"
    using sum_one_changed [OF http_retries(2), of "(h_tries s)(i := Suc (h_tries s i))" "h_tries s"]
    by (simp add: http_retries(1) tries_made_def)
  then show ?thesis by (simp add: http_left_def http_retries(1))
next
  case (http_ends i m d fate e w)
  have "http_left (note_attempt fate m w s) = http_left s" by (simp add: http_left_def tries_made_def)
  with job_ends_left [of i "note_attempt fate m w s" m d] http_ends assms(2) show ?thesis by (simp add: tries_ok_def)
next
  case (http_gives_up i m d)
  have "http_left (s\<lparr>h_mishap := True\<rparr>) = http_left s" by (simp add: http_left_def tries_made_def)
  with job_ends_left [of i "s\<lparr>h_mishap := True\<rparr>" m d] http_gives_up assms(2) show ?thesis by (simp add: tries_ok_def)
qed (simp_all add: http_left_def tries_made_def)

end

text \<open>A step of the pipeline is a step of the agent: a snapshot can be taken, and an attempt has some result.\<close>

lemma own_step_http:
  assumes "own_step (h_pipe s) p" "collector_ok (h_collector s)"
  shows "\<exists>s'. http_own_step attempt s s'"
  using assms(1)
proof cases
  case flush_start
  have "finite (dom (c_gauge (h_collector s)))" "finite (dom (c_counter (h_collector s)))"
    using assms(2) by (auto simp: collector_ok_def intro: finite_subset)
  then obtain gs cs where "collector_visits (h_collector s) gs cs" unfolding collector_visits_def by (metis visits_exists)
  then show ?thesis using http_own_step.http_flush_start flush_start by blast
next
  case (job_done i m d)
  obtain e w where "attempt Answered m (h_server s) = (e, w)" by (cases "attempt Answered m (h_server s)")
  with http_own_step.http_retries [OF job_done(2,3), of attempt Answered]
    http_own_step.http_ends [OF job_done(2,3), of attempt Answered] show ?thesis by blast
next
  case (dispatch m ms)
  then show ?thesis using http_own_step.http_move [OF assms(1)] hand_over_effect(4) [OF dispatch(2)] by auto
next
  case (dispatch_cancel m ms)
  then show ?thesis using http_own_step.http_move [OF assms(1)] reporter_return_effect(4) [OF dispatch_cancel(3)] by auto
next
  case (flush m ms)
  then show ?thesis using http_own_step.http_move [OF assms(1)] hand_over_effect(4) [OF flush(2)] by auto
next
  case flushed
  then show ?thesis using http_own_step.http_move [OF assms(1)] reporter_return_effect(4) [OF flushed(2)] by auto
next
  case (flush_drain m ms)
  then show ?thesis using http_own_step.http_move [OF assms(1)] reporter_return_effect(4) [OF flush_drain(3)] by auto
qed (use http_own_step.http_move [OF assms(1)] in auto)

definition http_returned :: "'w http_agent \<Rightarrow> bool" where
  "http_returned s \<longleftrightarrow> all_exited (h_pipe s) \<and> \<not> h_runtime_on s \<and> \<not> h_gopsutil_on s"

lemma http_not_stuck:
  assumes "http_reachable to_float attempt n w0 s" "0 < n" "a_cancelled (h_pipe s)" "\<not> http_returned s"
  shows "\<exists>s'. http_own_step attempt s s'"
proof (cases "all_exited (h_pipe s)")
  case True
  then show ?thesis
    using assms(3,4) http_own_step.http_stop_runtime http_own_step.http_stop_gopsutil unfolding http_returned_def by blast
next
  case False
  have "agent_inv n (h_pipe s)" using agent_invs [OF http_refines_pipeline [OF assms(1)]] by blast
  with shutdown_not_stuck assms(2,3) False obtain p where "own_step (h_pipe s) p" by blast
  then show ?thesis using own_step_http h_sound_reachable [OF assms(1)] by (auto simp: h_sound_def)
qed

text \<open>C7: Once the signal has come, the HTTP agent comes to an end by its own steps, whatever becomes of its calls:
  it can make at most \<open>http_left\<close> of them, failed attempts and retries included, and as long as a worker or a
  collector is left it can make another.\<close>
theorem http_shutdown_ends:
  assumes "deployed d" and "http_reachable to_float (link_attempt d) n w0 s" and "0 < n"
    and "a_cancelled (h_pipe s)" and "(http_own_step (link_attempt d) ^^ k) s s'"
  shows "int k \<le> http_left s \<and> (http_returned s' \<or> (\<exists>s''. http_own_step (link_attempt d) s' s''))"
proof -
  note link = deployed_link [OF assms(1)]
  have "http_reachable to_float (link_attempt d) n w0 s' \<and> a_cancelled (h_pipe s') \<and> http_left s' + int k \<le> http_left s"
    using assms(5)
  proof (induction k arbitrary: s')
    case (Suc k)
    then obtain y where y: "(http_own_step (link_attempt d) ^^ k) s y" "http_own_step (link_attempt d) y s'" by auto
    have r: "http_reachable to_float (link_attempt d) n w0 y" using Suc.IH [OF y(1)] by blast
    have "http_left s' < http_left y"
      using metric_link.http_own_left [OF link y(2)] metric_link.http_invariant [OF link r] worker_collected [OF r] by blast
    then show ?case
      using Suc.IH [OF y(1)] http_own_keeps [OF y(2)] http_reachable_step [OF r] y(2) by (simp add: http_step_def)
  qed (use assms(2,4) in simp)
  moreover from this have "0 \<le> http_left s'" using metric_link.http_invariant [OF link] http_left_nonneg by blast
  ultimately show ?thesis using http_not_stuck [of to_float "link_attempt d" n w0 s'] assms(3) by fastforce
qed

theorem http_shutdown_ends_witness:
  "\<exists>s''. http_own_step (link_attempt demo_link) (stopped_run 0 fresh_server) s''"
proof -
  have k: "(http_own_step (link_attempt demo_link) ^^ 0) (stopped_run 0 fresh_server) (stopped_run 0 fresh_server)" by simp
  show ?thesis
    using http_shutdown_ends [OF demo_deployed stopped_run_reachable _ _ k]
    by (auto simp: stopped_run_def http_returned_def all_exited_def)
qed

end
