(* ===== verification/Agent_Grpc.thy ===== *)
theory Agent_Grpc
  imports Agent_Main Collector_Facts
begin

text \<open>
  The gRPC mode of \<open>cmd/agent/main.go\<close> as a step relation: the two collecting goroutines, the shutdown signal
  and the reporter, against a server of its own that keeps its metrics in memory. A \<open>select\<close> whose ticker and
  context are both ready may take either, so a goroutine may collect or report once more after the signal.
  The network decides the fate of each call.
\<close>

section \<open>A call\<close>

definition rpc_invoke ::
    "rpc_fate \<Rightarrow> (string \<Rightarrow> 'ip option) \<Rightarrow> ('ip \<Rightarrow> bool) option \<Rightarrow> status_text
      \<Rightarrow> (string \<Rightarrow> string list) \<Rightarrow> pb_metric list \<Rightarrow> mem_store \<Rightarrow> grpc_status option \<times> mem_store" where
  "rpc_invoke fate parse_ip subnet stx md req m =
     (case fate of
        Call_Lost \<Rightarrow> (Some (Unavailable, ''''), m)
      | Answered \<Rightarrow> metrics_handler stx mem_ops parse_ip subnet (Some md) req m
      | Answer_Lost \<Rightarrow> (Some (Unavailable, ''''), snd (metrics_handler stx mem_ops parse_ip subnet (Some md) req m)))"

section \<open>The process\<close>

text \<open>\<open>Reporting\<close> and \<open>Last_Report\<close>: the snapshot is taken and its call is under way.\<close>

datatype grpc_reporter =
    Listening
  | Reporting collector "metrics list"
  | Last_Report collector "metrics list"
  | Reporter_Done

text \<open>\<open>g_delivered\<close> is history: the collector at each snapshot whose call the server has carried out.\<close>

record grpc_agent =
  g_collector :: collector
  g_cancelled :: bool
  g_runtime_on :: bool
  g_gopsutil_on :: bool
  g_rep :: grpc_reporter
  g_server :: mem_store
  g_delivered :: "collector list"

definition start_grpc_agent :: "int \<Rightarrow> string \<Rightarrow> grpc_agent" where
  "start_grpc_agent batchSize url =
     \<lparr>g_collector = NewCollector batchSize url, g_cancelled = False, g_runtime_on = True, g_gopsutil_on = True,
      g_rep = Listening, g_server = NewMemStorage, g_delivered = []\<rparr>"

definition collectors_off :: "grpc_agent \<Rightarrow> bool" where
  "collectors_off s \<longleftrightarrow> \<not> g_runtime_on s \<and> \<not> g_gopsutil_on s"

definition note_delivery :: "rpc_fate \<Rightarrow> collector \<Rightarrow> grpc_agent \<Rightarrow> grpc_agent" where
  "note_delivery fate c s = (if fate = Call_Lost then s else s\<lparr>g_delivered := g_delivered s @ [c]\<rparr>)"

text \<open>Tickers and the signal.\<close>

inductive grpc_env_step :: "(64 word \<Rightarrow> float64) \<Rightarrow> grpc_agent \<Rightarrow> grpc_agent \<Rightarrow> bool"
  for to_float :: "64 word \<Rightarrow> float64" where
  poll: "g_runtime_on s \<Longrightarrow> grpc_env_step to_float s (s\<lparr>g_collector := UpdateMetrics to_float rd (g_collector s)\<rparr>)"
| poll_gopsutil: "g_gopsutil_on s \<Longrightarrow>
    grpc_env_step to_float s (s\<lparr>g_collector := UpdateGopsutilMetrics to_float vm percs (g_collector s)\<rparr>)"
| report_tick: "g_rep s = Listening \<Longrightarrow> visits (c_gauge (g_collector s)) gs \<Longrightarrow> visits (c_counter (g_collector s)) cs \<Longrightarrow>
    grpc_env_step to_float s (s\<lparr>g_rep := Reporting (g_collector s) (GetAllMetrics gs cs (g_collector s))\<rparr>)"
| interrupt: "grpc_env_step to_float s (s\<lparr>g_cancelled := True\<rparr>)"

text \<open>What the goroutines do by themselves.\<close>

inductive grpc_own_step ::
    "(string \<Rightarrow> 'ip option) \<Rightarrow> ('ip \<Rightarrow> bool) option \<Rightarrow> status_text \<Rightarrow> grpc_sender
      \<Rightarrow> grpc_agent \<Rightarrow> grpc_agent \<Rightarrow> bool"
  for parse_ip :: "string \<Rightarrow> 'ip option" and subnet :: "('ip \<Rightarrow> bool) option"
    and stx :: status_text and g :: grpc_sender where
  stop_runtime: "g_cancelled s \<Longrightarrow> g_runtime_on s \<Longrightarrow>
    grpc_own_step parse_ip subnet stx g s (s\<lparr>g_runtime_on := False\<rparr>)"
| stop_gopsutil: "g_cancelled s \<Longrightarrow> g_gopsutil_on s \<Longrightarrow>
    grpc_own_step parse_ip subnet stx g s (s\<lparr>g_gopsutil_on := False\<rparr>)"
| reported: "g_rep s = Reporting c ms \<Longrightarrow>
    grpc_own_step parse_ip subnet stx g s
      (note_delivery fate c (s\<lparr>g_rep := Listening,
         g_server := grpc_report_tick (rpc_invoke fate parse_ip subnet stx) g ms (g_server s)\<rparr>))"
| last_snapshot: "g_rep s = Listening \<Longrightarrow> g_cancelled s \<Longrightarrow> visits (c_gauge (g_collector s)) gs \<Longrightarrow>
    visits (c_counter (g_collector s)) cs \<Longrightarrow>
    grpc_own_step parse_ip subnet stx g s
      (s\<lparr>g_rep := Last_Report (g_collector s) (GetAllMetrics gs cs (g_collector s))\<rparr>)"
| last_reported: "g_rep s = Last_Report c ms \<Longrightarrow>
    grpc_own_step parse_ip subnet stx g s
      (note_delivery fate c (s\<lparr>g_rep := Reporter_Done,
         g_server := grpc_report_flush (rpc_invoke fate parse_ip subnet stx) g ms (g_server s)\<rparr>))"

definition grpc_step ::
    "(64 word \<Rightarrow> float64) \<Rightarrow> (string \<Rightarrow> 'ip option) \<Rightarrow> ('ip \<Rightarrow> bool) option \<Rightarrow> status_text \<Rightarrow> grpc_sender
      \<Rightarrow> grpc_agent \<Rightarrow> grpc_agent \<Rightarrow> bool" where
  "grpc_step to_float parse_ip subnet stx g s s' \<longleftrightarrow>
     grpc_env_step to_float s s' \<or> grpc_own_step parse_ip subnet stx g s s'"

section \<open>The invariant\<close>

definition invoke_ok :: "(string \<Rightarrow> 'ip option) \<Rightarrow> ('ip \<Rightarrow> bool) option \<Rightarrow> grpc_sender \<Rightarrow> bool" where
  "invoke_ok parse_ip subnet g \<longleftrightarrow> ip_trusted parse_ip subnet (g_localIP g) \<and> (subnet \<noteq> None \<longrightarrow> g_localIP g \<noteq> '''')"

text \<open>A snapshot on its way is one of the collector, made when the collector had no more names than now.\<close>

definition snapshot_of :: "collector \<Rightarrow> metrics list \<Rightarrow> bool" where
  "snapshot_of c ms \<longleftrightarrow> collector_ok c
     \<and> (\<exists>gs cs. visits (c_gauge c) gs \<and> visits (c_counter c) cs \<and> ms = GetAllMetrics gs cs c)"

definition pending_ok :: "grpc_agent \<Rightarrow> collector \<Rightarrow> metrics list \<Rightarrow> bool" where
  "pending_ok s c ms \<longleftrightarrow> snapshot_of c ms \<and> dom (gauges (g_server s)) \<subseteq> dom (c_gauge c)
     \<and> dom (c_gauge c) \<subseteq> dom (c_gauge (g_collector s))"

text \<open>The server is what the delivered snapshots make of it.\<close>

definition server_follows :: "grpc_agent \<Rightarrow> bool" where
  "server_follows s \<longleftrightarrow>
     gauges (g_server s) = (if g_delivered s = [] then Map.empty else c_gauge (last (g_delivered s)))
     \<and> map_index (counters (g_server s)) ''PollCount'' = sum_list (map pollcount (g_delivered s))"

definition grpc_inv :: "grpc_agent \<Rightarrow> bool" where
  "grpc_inv s \<longleftrightarrow> collector_ok (g_collector s) \<and> server_follows s
     \<and> dom (gauges (g_server s)) \<subseteq> dom (c_gauge (g_collector s))
     \<and> (case g_rep s of Reporting c ms \<Rightarrow> pending_ok s c ms | Last_Report c ms \<Rightarrow> pending_ok s c ms | _ \<Rightarrow> True)"

lemma handler_applies:
  assumes "invoke_ok parse_ip subnet g"
  shows "metrics_handler stx store parse_ip subnet (Some (outgoing_md g)) req m = grpc_UpdateMetrics stx store req m"
  using assms
  by (auto simp: metrics_handler_def TrustedSubnetInterceptor_def invoke_ok_def ip_trusted_def outgoing_md_def
      split: option.splits)

lemma SendBatch_delivers:
  assumes "invoke_ok parse_ip subnet g" "list_all canonical ms"
  shows "snd (grpc_SendBatch (rpc_invoke fate parse_ip subnet stx) g ms m)
    = (if fate = Call_Lost then m else snd (mem_BatchUpdate ms m))"
  using assms(2)
  by (cases fate)
    (auto simp: handler_applies [OF assms(1)] grpc_SendBatch_def rpc_invoke_def grpc_UpdateMetrics_def convert_all_canonical split: prod.splits option.splits)

lemma report_effect:
  assumes "invoke_ok parse_ip subnet g" "list_all canonical ms"
  shows "grpc_report_tick (rpc_invoke fate parse_ip subnet stx) g ms m = (if fate = Call_Lost then m else snd (mem_BatchUpdate ms m))"
    and "grpc_report_flush (rpc_invoke fate parse_ip subnet stx) g ms m = (if fate = Call_Lost then m else snd (mem_BatchUpdate ms m))"
  using SendBatch_delivers [OF assms] by (auto simp: grpc_report_tick_def grpc_report_flush_def)

lemma grpc_inv_start: "grpc_inv (start_grpc_agent b u)"
  by (simp add: grpc_inv_def start_grpc_agent_def collector_ok_New server_follows_def NewMemStorage_def map_index_def)

lemma grpc_inv_collect:
  assumes "grpc_inv s" "collector_ok c" "dom (c_gauge (g_collector s)) \<subseteq> dom (c_gauge c)"
  shows "grpc_inv (s\<lparr>g_collector := c\<rparr>)"
proof -
  have grows: "A \<subseteq> dom (c_gauge (g_collector s)) \<Longrightarrow> A \<subseteq> dom (c_gauge c)" for A
    using assms(3) by (rule order_trans [rotated])
  have "server_follows (s\<lparr>g_collector := c\<rparr>) = server_follows s" by (simp add: server_follows_def)
  then show ?thesis
    using assms(1,2) by (cases "g_rep s") (simp_all add: grpc_inv_def pending_ok_def grows)
qed

lemma grpc_inv_snapshot:
  assumes "grpc_inv s" "visits (c_gauge (g_collector s)) gs" "visits (c_counter (g_collector s)) cs"
  shows "pending_ok s (g_collector s) (GetAllMetrics gs cs (g_collector s))"
  using assms by (auto simp: grpc_inv_def pending_ok_def snapshot_of_def)

lemma grpc_inv_flags [simp]:
  "grpc_inv (s\<lparr>g_cancelled := b\<rparr>) = grpc_inv s" "grpc_inv (s\<lparr>g_runtime_on := b\<rparr>) = grpc_inv s"
  "grpc_inv (s\<lparr>g_gopsutil_on := b\<rparr>) = grpc_inv s"
  by (cases "g_rep s"; simp add: grpc_inv_def server_follows_def pending_ok_def)+

lemma grpc_inv_collector_ok: "grpc_inv s \<Longrightarrow> collector_ok (g_collector s)"
  by (simp add: grpc_inv_def)

lemma grpc_inv_env:
  assumes "grpc_env_step to_float s s'" "grpc_inv s"
  shows "grpc_inv s'"
  using assms(1)
proof cases
  case (poll rd)
  then show ?thesis
    using grpc_inv_collect [OF assms(2) collector_ok_UpdateMetrics [OF grpc_inv_collector_ok [OF assms(2)]] UpdateMetrics_grows]
    by simp
next
  case (poll_gopsutil vm percs)
  then show ?thesis
    using grpc_inv_collect [OF assms(2) collector_ok_Gopsutil [OF grpc_inv_collector_ok [OF assms(2)]] Gopsutil_grows]
    by simp
next
  case (report_tick gs cs)
  with grpc_inv_snapshot [OF assms(2) report_tick(3,4)] assms(2) show ?thesis
    by (simp add: grpc_inv_def server_follows_def pending_ok_def)
qed (use assms(2) in simp)

text \<open>The one step that matters: a call has been carried out or lost.\<close>

lemma grpc_inv_deliver:
  assumes "grpc_inv s" "pending_ok s c ms" "rep' = Listening \<or> rep' = Reporter_Done"
  shows "grpc_inv (note_delivery fate c
    (s\<lparr>g_rep := rep', g_server := (if fate = Call_Lost then g_server s else snd (mem_BatchUpdate ms (g_server s)))\<rparr>))"
proof -
  obtain gs cs where snap: "collector_ok c" "visits (c_gauge c) gs" "visits (c_counter c) cs" "ms = GetAllMetrics gs cs c"
    using assms(2) by (auto simp: pending_ok_def snapshot_of_def)
  have below: "dom (gauges (g_server s)) \<subseteq> dom (c_gauge c)" "dom (c_gauge c) \<subseteq> dom (c_gauge (g_collector s))"
    using assms(2) by (simp_all add: pending_ok_def)
  obtain m' where m': "mem_BatchUpdate ms (g_server s) = (None, m')" "gauges m' = c_gauge c"
    "map_index (counters m') ''PollCount'' = map_index (counters (g_server s)) ''PollCount'' + pollcount c"
    using snapshot_applied [OF snap(1-3) below(1)] snap(4) by blast
  have rep: "(case rep' of Reporting c ms \<Rightarrow> P c ms | Last_Report c ms \<Rightarrow> P c ms | _ \<Rightarrow> True) \<longleftrightarrow> True" for P
    using assms(3) by auto
  show ?thesis
    using assms(1) below(2) m'
    by (cases "fate = Call_Lost"; cases "g_delivered s = []")
      (simp_all add: grpc_inv_def server_follows_def note_delivery_def rep)
qed

lemma pending_canonical: "pending_ok s c ms \<Longrightarrow> list_all canonical ms"
  by (auto simp: pending_ok_def snapshot_of_def snapshot_canonical)

lemma grpc_inv_own:
  assumes "grpc_own_step parse_ip subnet stx g s s'" "invoke_ok parse_ip subnet g" "grpc_inv s"
  shows "grpc_inv s'"
  using assms(1)
proof cases
  case (reported c ms fate)
  then have p: "pending_ok s c ms" using assms(3) by (simp add: grpc_inv_def)
  then show ?thesis
    using grpc_inv_deliver [OF assms(3) p, of Listening fate] reported
    by (simp add: report_effect [OF assms(2) pending_canonical [OF p]])
next
  case (last_snapshot gs cs)
  with grpc_inv_snapshot [OF assms(3) last_snapshot(4,5)] assms(3) show ?thesis
    by (simp add: grpc_inv_def server_follows_def pending_ok_def)
next
  case (last_reported c ms fate)
  then have p: "pending_ok s c ms" using assms(3) by (simp add: grpc_inv_def)
  then show ?thesis
    using grpc_inv_deliver [OF assms(3) p, of Reporter_Done fate] last_reported
    by (simp add: report_effect [OF assms(2) pending_canonical [OF p]])
qed (use assms(3) in simp_all)

definition grpc_reachable ::
    "(64 word \<Rightarrow> float64) \<Rightarrow> (string \<Rightarrow> 'ip option) \<Rightarrow> ('ip \<Rightarrow> bool) option \<Rightarrow> status_text \<Rightarrow> grpc_sender
      \<Rightarrow> grpc_agent \<Rightarrow> bool" where
  "grpc_reachable to_float parse_ip subnet stx g s \<longleftrightarrow>
     (\<exists>b u. (grpc_step to_float parse_ip subnet stx g)\<^sup>*\<^sup>* (start_grpc_agent b u) s)"

lemma grpc_inv_reachable:
  assumes "grpc_reachable to_float parse_ip subnet stx g s" "invoke_ok parse_ip subnet g"
  shows "grpc_inv s"
proof -
  obtain b u where "(grpc_step to_float parse_ip subnet stx g)\<^sup>*\<^sup>* (start_grpc_agent b u) s"
    using assms(1) by (auto simp: grpc_reachable_def)
  then show ?thesis
    by (induction rule: rtranclp_induct)
      (auto simp: grpc_inv_start grpc_step_def intro: grpc_inv_env grpc_inv_own [OF _ assms(2)])
qed

text \<open>C14: In every reachable state of the agent and its server, the agent being inside the trusted
  subnet, the server's gauges are exactly those of the last snapshot delivered, and its PollCount is the sum,
  modulo 2^64, of the PollCounts of all the snapshots delivered.\<close>
theorem grpc_server_follows:
  assumes "grpc_reachable to_float parse_ip subnet stx g s"
    and "ip_trusted parse_ip subnet (g_localIP g)" and "g_localIP g \<noteq> ''''"
  shows "gauges (g_server s) = (if g_delivered s = [] then Map.empty else c_gauge (last (g_delivered s)))
    \<and> map_index (counters (g_server s)) ''PollCount'' = sum_list (map pollcount (g_delivered s))"
proof -
  have "grpc_inv s" using grpc_inv_reachable [OF assms(1)] assms(2,3) by (simp add: invoke_ok_def)
  then show ?thesis by (simp add: grpc_inv_def server_follows_def)
qed

section \<open>Shutdown\<close>

definition rep_weight :: "grpc_reporter \<Rightarrow> nat" where
  "rep_weight r = (case r of Reporting _ _ \<Rightarrow> 3 | Listening \<Rightarrow> 2 | Last_Report _ _ \<Rightarrow> 1 | Reporter_Done \<Rightarrow> 0)"

definition grpc_left :: "grpc_agent \<Rightarrow> nat" where
  "grpc_left s = rep_weight (g_rep s) + of_bool (g_runtime_on s) + of_bool (g_gopsutil_on s)"

definition all_returned :: "grpc_agent \<Rightarrow> bool" where
  "all_returned s \<longleftrightarrow> collectors_off s \<and> g_rep s = Reporter_Done"

lemma note_delivery_sel [simp]:
  "g_rep (note_delivery fate c s) = g_rep s" "g_runtime_on (note_delivery fate c s) = g_runtime_on s"
  "g_gopsutil_on (note_delivery fate c s) = g_gopsutil_on s" "g_cancelled (note_delivery fate c s) = g_cancelled s"
  "g_collector (note_delivery fate c s) = g_collector s" "g_server (note_delivery fate c s) = g_server s"
  by (simp_all add: note_delivery_def)

lemma grpc_own_step_weight: "grpc_own_step parse_ip subnet stx g s s' \<Longrightarrow> grpc_left s' < grpc_left s"
  by (cases rule: grpc_own_step.cases) (auto simp: grpc_left_def rep_weight_def)

lemma grpc_own_step_cancelled:
  "grpc_own_step parse_ip subnet stx g s s' \<Longrightarrow> g_cancelled s' = g_cancelled s"
  by (cases rule: grpc_own_step.cases) auto

lemma grpc_not_stuck:
  assumes "grpc_inv s" "g_cancelled s" "\<not> all_returned s"
  shows "\<exists>s'. grpc_own_step parse_ip subnet stx g s s'"
proof (cases "collectors_off s")
  case False
  then show ?thesis
    using assms(2) grpc_own_step.stop_runtime grpc_own_step.stop_gopsutil unfolding collectors_off_def by blast
next
  case True
  have ok: "collector_ok (g_collector s)" using assms(1) by (rule grpc_inv_collector_ok)
  then have "finite (dom (c_gauge (g_collector s)))" "finite (dom (c_counter (g_collector s)))"
    by (auto simp: collector_ok_def intro: finite_subset)
  then obtain gs cs where v: "visits (c_gauge (g_collector s)) gs" "visits (c_counter (g_collector s)) cs"
    by (metis visits_exists)
  show ?thesis
  proof (cases "g_rep s")
    case Listening
    then show ?thesis using grpc_own_step.last_snapshot [OF _ assms(2) v] by blast
  next
    case (Reporting c ms)
    then show ?thesis using grpc_own_step.reported by blast
  next
    case (Last_Report c ms)
    then show ?thesis using grpc_own_step.last_reported by blast
  qed (use True assms(3) in \<open>simp add: all_returned_def\<close>)
qed

text \<open>Once the signal has come, the goroutines of the gRPC agent return after at most five steps of their
  own, whatever becomes of the calls: as long as one of them is left, some own step is possible.\<close>
lemma grpc_shutdown_ends:
  assumes "grpc_reachable to_float parse_ip subnet stx g s" and "ip_trusted parse_ip subnet (g_localIP g)"
    and "g_localIP g \<noteq> ''''" and "g_cancelled s" and "(grpc_own_step parse_ip subnet stx g ^^ k) s s'"
  shows "k \<le> 5 \<and> (all_returned s' \<or> (\<exists>s''. grpc_own_step parse_ip subnet stx g s' s''))"
proof -
  have ok: "invoke_ok parse_ip subnet g" using assms(2,3) by (simp add: invoke_ok_def)
  have "grpc_inv s' \<and> g_cancelled s' \<and> grpc_left s' + k \<le> grpc_left s"
    using assms(5)
  proof (induction k arbitrary: s')
    case 0
    then show ?case using grpc_inv_reachable [OF assms(1) ok] assms(4) by simp
  next
    case (Suc k)
    then obtain y where y: "(grpc_own_step parse_ip subnet stx g ^^ k) s y"
      "grpc_own_step parse_ip subnet stx g y s'" by auto
    with Suc.IH [OF y(1)] show ?case
      using grpc_inv_own [OF y(2) ok] grpc_own_step_weight [OF y(2)] grpc_own_step_cancelled [OF y(2)] by simp
  qed
  moreover have "grpc_left s \<le> 5"
    by (cases "g_rep s") (auto simp: grpc_left_def rep_weight_def)
  ultimately show ?thesis using grpc_not_stuck [of s'] by auto
qed

text \<open>After the collectors have stopped, only snapshots of the final collector are on their way.\<close>

definition settled :: "collector \<Rightarrow> collector list \<Rightarrow> grpc_agent \<Rightarrow> bool" where
  "settled c0 before s \<longleftrightarrow> collectors_off s \<and> g_collector s = c0
     \<and> (case g_rep s of Reporting c ms \<Rightarrow> c = c0 | Last_Report c ms \<Rightarrow> c = c0 | _ \<Rightarrow> True)
     \<and> (\<exists>n. g_delivered s = before @ replicate n c0)"

lemma replicate_grows [simp]: "\<exists>n'. x # replicate n x = replicate n' x"
  by (rule exI [of _ "Suc n"]) simp

lemma settled_delivery:
  assumes "settled c0 before s" "collectors_off s'" "g_collector s' = c0" "g_delivered s' = g_delivered s"
    "g_rep s' = Listening \<or> g_rep s' = Reporter_Done"
  shows "settled c0 before (note_delivery fate c0 s')"
  using assms by (auto simp: settled_def note_delivery_def collectors_off_def replicate_append_same)

lemma settled_step:
  assumes "grpc_step to_float parse_ip subnet stx g s s'" "settled c0 before s"
  shows "settled c0 before s'"
  using assms unfolding grpc_step_def
  by (elim disjE grpc_env_step.cases grpc_own_step.cases)
    (auto simp: settled_def collectors_off_def note_delivery_def replicate_append_same split: grpc_reporter.splits)

lemma settled_run:
  assumes "(grpc_step to_float parse_ip subnet stx g)\<^sup>*\<^sup>* s s'" "settled c0 before s"
  shows "settled c0 before s'"
  using assms by (induction rule: rtranclp_induct) (auto intro: settled_step)

text \<open>C13: Nothing the collectors have gathered is lost over gRPC if the last call gets through: when
  the collectors have stopped and the reporter has no call under way, the first snapshot delivered from then
  on makes the server's gauges exactly the agent's, and they stay so to the end.\<close>
theorem grpc_shutdown_complete:
  assumes "grpc_reachable to_float parse_ip subnet stx g s" and "ip_trusted parse_ip subnet (g_localIP g)"
    and "g_localIP g \<noteq> ''''" and "collectors_off s" and "g_rep s = Listening"
    and "(grpc_step to_float parse_ip subnet stx g)\<^sup>*\<^sup>* s s'" and "g_delivered s' \<noteq> g_delivered s"
  shows "gauges (g_server s') = c_gauge (g_collector s') \<and> g_collector s' = g_collector s"
proof -
  have "settled (g_collector s) (g_delivered s) s"
    using assms(4,5) by (auto simp: settled_def intro: exI [of _ 0])
  from settled_run [OF assms(6) this] obtain n where
    d: "g_delivered s' = g_delivered s @ replicate n (g_collector s)" "g_collector s' = g_collector s"
    by (auto simp: settled_def)
  moreover from d(1) assms(7) have "0 < n" by (cases n) simp_all
  ultimately have "last (g_delivered s') = g_collector s" "g_delivered s' \<noteq> []" by simp_all
  moreover have "grpc_reachable to_float parse_ip subnet stx g s'"
    using assms(1,6) by (auto simp: grpc_reachable_def intro: rtranclp_trans)
  then have "grpc_inv s'" using grpc_inv_reachable assms(2,3) by (metis invoke_ok_def)
  ultimately show ?thesis using d(2) by (simp add: grpc_inv_def server_follows_def)
qed

section \<open>A run\<close>

definition demo_sender :: grpc_sender where
  "demo_sender = \<lparr>g_localIP = ''10.0.0.1''\<rparr>"

definition demo_within :: "(string \<Rightarrow> bool) option" where
  "demo_within = Some (\<lambda>ip. ip = ''10.0.0.1'')"

abbreviation demo_reach :: "grpc_agent \<Rightarrow> bool" where
  "demo_reach \<equiv> grpc_reachable Float64 Some demo_within plain_status demo_sender"

lemma demo_trusted: "ip_trusted Some demo_within (g_localIP demo_sender)" "g_localIP demo_sender \<noteq> ''''"
  by (simp_all add: ip_trusted_def demo_within_def demo_sender_def)

lemma grpc_reach_start: "grpc_reachable to_float parse_ip subnet stx g (start_grpc_agent b u)"
  by (auto simp: grpc_reachable_def)

lemma grpc_reach_step:
  "grpc_reachable to_float parse_ip subnet stx g s \<Longrightarrow> grpc_step to_float parse_ip subnet stx g s s'
    \<Longrightarrow> grpc_reachable to_float parse_ip subnet stx g s'"
  unfolding grpc_reachable_def by (blast intro: rtranclp.rtrancl_into_rtrancl)

text \<open>One gopsutil reading, then the signal, then both collectors stop.\<close>

definition demo_start :: grpc_agent where
  "demo_start = start_grpc_agent 100 ''http://srv''"

definition demo_read :: collector where
  "demo_read = UpdateGopsutilMetrics Float64 (Inr (8, 4)) (Inl (ErrOther ''cpu'')) (NewCollector 100 ''http://srv'')"

definition demo_stopped :: grpc_agent where
  "demo_stopped = demo_start\<lparr>g_collector := demo_read, g_cancelled := True, g_runtime_on := False, g_gopsutil_on := False\<rparr>"

lemma demo_stopped_reachable: "demo_reach demo_stopped"
proof -
  let ?s1 = "demo_start\<lparr>g_collector := demo_read\<rparr>"
  let ?s2 = "?s1\<lparr>g_cancelled := True\<rparr>"
  let ?s3 = "?s2\<lparr>g_runtime_on := False\<rparr>"
  let ?step = "grpc_step Float64 Some demo_within plain_status demo_sender"
  have 1: "?step demo_start ?s1"
    using grpc_env_step.poll_gopsutil [of demo_start Float64 "Inr (8, 4)" "Inl (ErrOther ''cpu'')"]
    by (simp add: grpc_step_def demo_read_def demo_start_def start_grpc_agent_def)
  have 2: "?step ?s1 ?s2" by (simp only: grpc_step_def grpc_env_step.interrupt simp_thms)
  have 3: "?step ?s2 ?s3"
    using grpc_own_step.stop_runtime [of ?s2 Some demo_within plain_status demo_sender] by (simp add: grpc_step_def demo_start_def start_grpc_agent_def)
  have 4: "?step ?s3 demo_stopped"
    using grpc_own_step.stop_gopsutil [of ?s3 Some demo_within plain_status demo_sender]
    by (simp add: grpc_step_def demo_stopped_def demo_start_def start_grpc_agent_def)
  have "demo_reach demo_start" unfolding demo_start_def by (rule grpc_reach_start)
  then show ?thesis by (intro grpc_reach_step [OF grpc_reach_step [OF grpc_reach_step [OF grpc_reach_step [OF _ 1] 2] 3] 4])
qed

lemma grpc_shutdown_ends_witness:
  "(0::nat) \<le> 5 \<and> (all_returned demo_stopped
     \<or> (\<exists>s''. grpc_own_step Some demo_within plain_status demo_sender demo_stopped s''))"
  by (rule grpc_shutdown_ends [OF demo_stopped_reachable demo_trusted]) (simp_all add: demo_stopped_def)

text \<open>The last report of this run, answered.\<close>

definition demo_metrics :: "metrics list" where
  "demo_metrics = GetAllMetrics [''TotalMemory'', ''FreeMemory''] [] demo_read"

definition demo_end :: grpc_agent where
  "demo_end = note_delivery Answered demo_read (demo_stopped\<lparr>g_rep := Reporter_Done,
     g_server := grpc_report_flush (rpc_invoke Answered Some demo_within plain_status) demo_sender demo_metrics NewMemStorage\<rparr>)"

lemma demo_end_steps: "(grpc_step Float64 Some demo_within plain_status demo_sender)\<^sup>*\<^sup>* demo_stopped demo_end"
proof -
  let ?s1 = "demo_stopped\<lparr>g_rep := Last_Report demo_read demo_metrics\<rparr>"
  let ?step = "grpc_step Float64 Some demo_within plain_status demo_sender"
  have read: "c_gauge demo_read = [''TotalMemory'' \<mapsto> Float64 8, ''FreeMemory'' \<mapsto> Float64 4]" "c_counter demo_read = Map.empty"
    by (simp_all add: demo_read_def UpdateGopsutilMetrics_eq NewCollector_def Let_def)
  have "?step demo_stopped ?s1"
    using grpc_own_step.last_snapshot [of demo_stopped "[''TotalMemory'', ''FreeMemory'']" "[]" Some demo_within plain_status demo_sender]
    by (simp add: grpc_step_def demo_stopped_def demo_start_def start_grpc_agent_def read visits_def demo_metrics_def insert_commute)
  moreover have "?step ?s1 demo_end"
    using grpc_own_step.last_reported [of ?s1 demo_read demo_metrics Some demo_within plain_status demo_sender Answered]
    by (simp add: grpc_step_def demo_end_def demo_stopped_def demo_start_def start_grpc_agent_def)
  ultimately show ?thesis by simp
qed

theorem grpc_shutdown_complete_witness:
  "gauges (g_server demo_end) = c_gauge (g_collector demo_end) \<and> g_collector demo_end = demo_read"
  using grpc_shutdown_complete [OF demo_stopped_reachable demo_trusted _ _ demo_end_steps]
  by (simp add: demo_stopped_def demo_start_def start_grpc_agent_def collectors_off_def demo_end_def note_delivery_def)

theorem grpc_server_follows_witness:
  "gauges (g_server demo_end) = c_gauge demo_read \<and> map_index (counters (g_server demo_end)) ''PollCount'' = 0"
proof -
  have "demo_reach demo_end"
    using demo_stopped_reachable demo_end_steps unfolding grpc_reachable_def by (meson rtranclp_trans)
  from grpc_server_follows [OF this demo_trusted] show ?thesis
    by (simp add: demo_end_def note_delivery_def demo_stopped_def demo_start_def start_grpc_agent_def pollcount_def
        demo_read_def UpdateGopsutilMetrics_eq NewCollector_def Let_def map_index_def)
qed

text \<open>The reporter does not wait for the collectors: a collection made after its last snapshot never
  reaches the server, although every goroutine returns and every call is answered.\<close>
lemma late_collection_missed:
  "\<exists>s. grpc_reachable to_float parse_ip subnet stx g s \<and> all_returned s \<and> c_gauge (g_collector s) \<noteq> Map.empty
     \<and> gauges (g_server s) = Map.empty"
proof -
  let ?step = "grpc_step to_float parse_ip subnet stx g"
  let ?reach = "grpc_reachable to_float parse_ip subnet stx g"
  let ?s0 = "start_grpc_agent 1 ''''"
  let ?s1 = "?s0\<lparr>g_cancelled := True\<rparr>"
  let ?s2 = "?s1\<lparr>g_rep := Last_Report (g_collector ?s0) []\<rparr>"
  let ?s3 = "?s2\<lparr>g_rep := Reporter_Done, g_delivered := [g_collector ?s0]\<rparr>"
  let ?s4 = "?s3\<lparr>g_collector := UpdateGopsutilMetrics to_float (Inr (1, 1)) (Inl (ErrOther '''')) (g_collector ?s0)\<rparr>"
  let ?s5 = "?s4\<lparr>g_runtime_on := False\<rparr>"
  let ?s6 = "?s5\<lparr>g_gopsutil_on := False\<rparr>"
  note start_simps = grpc_step_def start_grpc_agent_def NewCollector_def
  have 1: "?step ?s0 ?s1" by (simp only: grpc_step_def grpc_env_step.interrupt simp_thms)
  have 2: "?step ?s1 ?s2"
    using grpc_own_step.last_snapshot [of ?s1 "[]" "[]" parse_ip subnet stx g] by (simp add: start_simps GetAllMetrics_def)
  have 3: "?step ?s2 ?s3"
    using grpc_own_step.last_reported [of ?s2 "g_collector ?s0" "[]" parse_ip subnet stx g Answered]
    by (simp add: start_simps note_delivery_def grpc_report_flush_def grpc_SendBatch_def)
  have 4: "?step ?s3 ?s4"
    using grpc_env_step.poll_gopsutil [of ?s3 to_float] by (simp add: start_simps)
  have 5: "?step ?s4 ?s5"
    using grpc_own_step.stop_runtime [of ?s4 parse_ip subnet stx g] by (simp add: start_simps)
  have 6: "?step ?s5 ?s6"
    using grpc_own_step.stop_gopsutil [of ?s5 parse_ip subnet stx g] by (simp add: start_simps)
  have "?reach ?s3"
    by (rule grpc_reach_step [OF grpc_reach_step [OF grpc_reach_step [OF grpc_reach_start 1] 2] 3])
  then have "?reach ?s6" by (rule grpc_reach_step [OF grpc_reach_step [OF grpc_reach_step [OF _ 4] 5] 6])
  moreover have "all_returned ?s6" "gauges (g_server ?s6) = Map.empty" "c_gauge (g_collector ?s6) ''TotalMemory'' \<noteq> None"
    by (simp_all add: all_returned_def collectors_off_def start_grpc_agent_def NewMemStorage_def
        UpdateGopsutilMetrics_eq Let_def)
  ultimately show ?thesis by (metis (no_types, lifting))
qed

end
