(* ===== verification/Go_Flag.thy ===== *)
theory Go_Flag
  imports Strconv
begin

text \<open>
  The parts of Go's \<open>flag\<close> and \<open>strconv\<close> packages the configuration uses: the integers and booleans a flag
  accepts and the parsing of the argument list. A flag set is the map from the names to whether the flag is
  boolean, with the function that stores a value; every error of the default flag set ends the process.
\<close>

section \<open>Values\<close>

definition lower_ascii :: "char \<Rightarrow> nat" where
  "lower_ascii c = (let n = of_char c in if 65 \<le> n \<and> n \<le> 90 then n + 32 else n)"

text \<open>The digit of \<open>ParseUint\<close>'s loop, \<open>None\<close> for a character that is no digit in any base.\<close>

definition any_digit :: "char \<Rightarrow> nat option" where
  "any_digit c =
     (if is_digit c then Some (digit_val c)
      else if 97 \<le> lower_ascii c \<and> lower_ascii c \<le> 122 then Some (lower_ascii c - 97 + 10)
      else None)"

fun read_base :: "nat \<Rightarrow> nat \<Rightarrow> string \<Rightarrow> nat option" where
  "read_base base acc [] = Some acc"
| "read_base base acc (c # s) =
     (if c = CHR ''_'' then read_base base acc s
      else (case any_digit c of
              None \<Rightarrow> None
            | Some d \<Rightarrow> if base \<le> d then None else read_base base (base * acc + d) s))"

text \<open>Base 0: the prefix chooses the base.\<close>

definition base_prefix :: "string \<Rightarrow> nat \<times> string" where
  "base_prefix s =
     (case s of
        [] \<Rightarrow> (10, s)
      | z # t \<Rightarrow>
          if z \<noteq> CHR ''0'' then (10, s)
          else if length s \<ge> 3 \<and> lower_ascii (hd t) = 98 then (2, tl t)
          else if length s \<ge> 3 \<and> lower_ascii (hd t) = 111 then (8, tl t)
          else if length s \<ge> 3 \<and> lower_ascii (hd t) = 120 then (16, tl t)
          else (8, t))"

text \<open>\<open>underscoreOK\<close>: an underscore stands between digits or after the base prefix. \<open>saw\<close> is the last class seen.\<close>

fun underscore_scan :: "bool \<Rightarrow> char \<Rightarrow> string \<Rightarrow> bool" where
  "underscore_scan hex saw [] \<longleftrightarrow> saw \<noteq> CHR ''_''"
| "underscore_scan hex saw (c # s) \<longleftrightarrow>
     (if is_digit c \<or> hex \<and> 97 \<le> lower_ascii c \<and> lower_ascii c \<le> 102 then underscore_scan hex (CHR ''0'') s
      else if c = CHR ''_'' then saw = CHR ''0'' \<and> underscore_scan hex (CHR ''_'') s
      else saw \<noteq> CHR ''_'' \<and> underscore_scan hex (CHR ''!'') s)"

definition underscore_ok :: "string \<Rightarrow> bool" where
  "underscore_ok s \<longleftrightarrow>
     (if length s \<ge> 2 \<and> s ! 0 = CHR ''0'' \<and> lower_ascii (s ! 1) \<in> {98, 111, 120}
      then underscore_scan (lower_ascii (s ! 1) = 120) (CHR ''0'') (drop 2 s)
      else underscore_scan False (CHR ''^'') s)"

definition parse_uint0 :: "string \<Rightarrow> nat option" where
  "parse_uint0 s =
     (if s = [] then None
      else (case base_prefix s of (base, digits) \<Rightarrow>
        (case read_base base 0 digits of
           None \<Rightarrow> None
         | Some n \<Rightarrow> if CHR ''_'' \<in> set digits \<and> \<not> underscore_ok s then None else Some n)))"

text \<open>\<open>strconv.ParseInt(s, 0, 64)\<close>, the value of an integer flag.\<close>

definition parse_int0 :: "string \<Rightarrow> int option" where
  "parse_int0 s =
     (case s of
        [] \<Rightarrow> None
      | c # t \<Rightarrow>
          (case parse_uint0 (if c = CHR ''+'' \<or> c = CHR ''-'' then t else s) of
             None \<Rightarrow> None
           | Some n \<Rightarrow>
               let i = (if c = CHR ''-'' then - int n else int n)
               in if int64_range i then Some i else None))"

definition parse_bool :: "string \<Rightarrow> bool option" where
  "parse_bool s =
     (if s \<in> {''1'', ''t'', ''T'', ''TRUE'', ''true'', ''True''} then Some True
      else if s \<in> {''0'', ''f'', ''F'', ''FALSE'', ''false'', ''False''} then Some False
      else None)"

section \<open>Arguments\<close>

datatype flag_token = Positional | EndOfFlags | BadSyntax | FlagArg string "string option"

definition name_token :: "string \<Rightarrow> flag_token" where
  "name_token name =
     (if name = [] \<or> hd name = CHR ''-'' \<or> hd name = CHR ''='' then BadSyntax
      else (case dropWhile (\<lambda>c. c \<noteq> CHR ''='') name of
              [] \<Rightarrow> FlagArg name None
            | _ # v \<Rightarrow> FlagArg (takeWhile (\<lambda>c. c \<noteq> CHR ''='') name) (Some v)))"

definition flag_token :: "string \<Rightarrow> flag_token" where
  "flag_token s =
     (case s of
        c # d # t \<Rightarrow>
          if c \<noteq> CHR ''-'' then Positional
          else if d \<noteq> CHR ''-'' then name_token (d # t)
          else if t = [] then EndOfFlags
          else name_token t
      | _ \<Rightarrow> Positional)"

text \<open>
  \<open>FlagSet.Parse\<close>: \<open>kind\<close> is \<open>Some True\<close> for a boolean flag, whose value is never the next argument;
  \<open>None\<close> is an error or a request for help.
\<close>

fun parse_flags ::
    "(string \<Rightarrow> bool option) \<Rightarrow> (string \<Rightarrow> string \<Rightarrow> 'c \<Rightarrow> 'c option) \<Rightarrow> string list \<Rightarrow> 'c
      \<Rightarrow> ('c \<times> string list) option" where
  "parse_flags kind set_flag [] c = Some (c, [])"
| "parse_flags kind set_flag (s # rest) c =
     (case flag_token s of
        Positional \<Rightarrow> Some (c, s # rest)
      | EndOfFlags \<Rightarrow> Some (c, rest)
      | BadSyntax \<Rightarrow> None
      | FlagArg name value \<Rightarrow>
          (case kind name of
             None \<Rightarrow> None
           | Some True \<Rightarrow>
               Option.bind (set_flag name (case value of None \<Rightarrow> ''true'' | Some v \<Rightarrow> v) c) (parse_flags kind set_flag rest)
           | Some False \<Rightarrow>
               (case value of
                  Some v \<Rightarrow> Option.bind (set_flag name v c) (parse_flags kind set_flag rest)
                | None \<Rightarrow>
                    (case rest of
                       [] \<Rightarrow> None
                     | v # rest' \<Rightarrow> Option.bind (set_flag name v c) (parse_flags kind set_flag rest')))))"

text \<open>The assignments an argument list makes, without their effect.\<close>

fun flag_values :: "(string \<Rightarrow> bool option) \<Rightarrow> string list \<Rightarrow> (string \<times> string) list" where
  "flag_values kind [] = []"
| "flag_values kind (s # rest) =
     (case flag_token s of
        FlagArg name value \<Rightarrow>
          (case kind name of
             None \<Rightarrow> []
           | Some True \<Rightarrow> (name, case value of None \<Rightarrow> ''true'' | Some v \<Rightarrow> v) # flag_values kind rest
           | Some False \<Rightarrow>
               (case value of
                  Some v \<Rightarrow> (name, v) # flag_values kind rest
                | None \<Rightarrow> (case rest of [] \<Rightarrow> [] | v # rest' \<Rightarrow> (name, v) # flag_values kind rest')))
      | _ \<Rightarrow> [])"

text \<open>The value the last occurrence of a flag gives.\<close>

definition last_value :: "string \<Rightarrow> (string \<times> string) list \<Rightarrow> string option" where
  "last_value name vs = fold (\<lambda>(n, v) acc. if n = name then Some v else acc) vs None"

lemma fold_last_value:
  "fold (\<lambda>(n, v) acc. if n = name then Some v else acc) vs a
     = (case last_value name vs of None \<Rightarrow> a | Some v \<Rightarrow> Some v)"
proof (induction vs arbitrary: a)
  case Nil
  show ?case by (simp add: last_value_def)
next
  case (Cons nv vs)
  obtain n v where nv: "nv = (n, v)" by (cases nv)
  show ?case
    using Cons.IH [of "if n = name then Some v else a"] Cons.IH [of "if n = name then Some v else None"]
    by (auto simp: last_value_def nv split: option.splits)
qed

lemma last_value_Cons:
  "last_value name ((n, v) # vs) = (case last_value name vs of None \<Rightarrow> if n = name then Some v else None | Some u \<Rightarrow> Some u)"
  unfolding last_value_def [of name "(n, v) # vs"] using fold_last_value [of name vs] by simp

lemma last_value_Nil [simp]: "last_value name [] = None"
  by (simp add: last_value_def)

text \<open>
  A field that only one flag touches ends with the value of the last occurrence of that flag: \<open>get\<close> reads the
  field, \<open>read_value\<close> is what the flag stores.
\<close>

lemma parse_flags_field:
  assumes set: "\<And>n v c c'. set_flag n v c = Some c' \<Longrightarrow>
      get c' = (if n = name then read_value v else get c)"
    and "parse_flags kind set_flag args c = Some (c', left)"
  shows "get c' = (case last_value name (flag_values kind args) of None \<Rightarrow> get c | Some v \<Rightarrow> read_value v)"
  using assms(2)
proof (induction kind args arbitrary: c rule: flag_values.induct)
  case (1 kind)
  then show ?case by simp
next
  case (2 kind s rest)
  show ?case
  proof (cases "flag_token s")
    case (FlagArg n val)
    then obtain b where k: "kind n = Some b" using "2.prems" by (cases "kind n") auto
    show ?thesis
    proof (cases "b \<or> val \<noteq> None")
      case True
      then obtain v where v: "flag_values kind (s # rest) = (n, v) # flag_values kind rest"
        and p: "parse_flags kind set_flag (s # rest) c = Option.bind (set_flag n v c) (parse_flags kind set_flag rest)"
        using FlagArg k by (cases b; cases val) auto
      from p "2.prems" obtain d where d: "set_flag n v c = Some d" "parse_flags kind set_flag rest d = Some (c', left)"
        by (cases "set_flag n v c") auto
      have "get c' = (case last_value name (flag_values kind rest) of None \<Rightarrow> get d | Some v \<Rightarrow> read_value v)"
        using "2.IH" FlagArg k True d(2) by (cases b; cases val) auto
      with set [OF d(1)] v show ?thesis by (simp add: last_value_Cons split: option.split)
    next
      case False
      then have bv: "b = False" "val = None" by auto
      then obtain v rest' where r: "rest = v # rest'" using "2.prems" FlagArg k by (cases rest) auto
      with "2.prems" FlagArg k bv obtain d where
        d: "set_flag n v c = Some d" "parse_flags kind set_flag rest' d = Some (c', left)"
        by (cases "set_flag n v c") auto
      have "get c' = (case last_value name (flag_values kind rest') of None \<Rightarrow> get d | Some v \<Rightarrow> read_value v)"
        using "2.IH" FlagArg k bv r d(2) by auto
      with set [OF d(1)] r bv k FlagArg show ?thesis by (simp add: last_value_Cons split: option.split)
    qed
  qed (use "2.prems" in auto)
qed

end
