(* ===== verification/Go_Duration.thy ===== *)
theory Go_Duration
  imports Strconv
begin

text \<open>
  \<open>time.ParseDuration\<close> on nanosecond counts. The contribution of a fraction is computed by the library in
  floating point: the parameter \<open>frac f unit k\<close> stands for \<open>uint64(float64(f) * (float64(unit) / 10^k))\<close>. A string
  without a dot does not use it.
\<close>

text \<open>\<open>leadingInt\<close>: \<open>None\<close> when the number leaves 2^63.\<close>

fun leading_int :: "nat \<Rightarrow> string \<Rightarrow> (nat \<times> string) option" where
  "leading_int x [] = Some (x, [])"
| "leading_int x (c # s) =
     (if \<not> is_digit c then Some (x, c # s)
      else if x > 2 ^ 63 div 10 then None
      else if 10 * x + digit_val c > 2 ^ 63 then None
      else leading_int (10 * x + digit_val c) s)"

text \<open>\<open>leadingFraction\<close>: the digits that fit, how many they are, and the rest after all digits.\<close>

fun leading_fraction :: "nat \<Rightarrow> nat \<Rightarrow> bool \<Rightarrow> string \<Rightarrow> nat \<times> nat \<times> string" where
  "leading_fraction x k overflow [] = (x, k, [])"
| "leading_fraction x k overflow (c # s) =
     (if \<not> is_digit c then (x, k, c # s)
      else if overflow \<or> x > (2 ^ 63 - 1) div 10 \<or> 10 * x + digit_val c > 2 ^ 63 then leading_fraction x k True s
      else leading_fraction (10 * x + digit_val c) (Suc k) False s)"

definition unit_map :: "string \<Rightarrow> nat option" where
  "unit_map = [''ns'' \<mapsto> 1, ''us'' \<mapsto> 1000, [CHR 0xC2, CHR 0xB5, CHR ''s''] \<mapsto> 1000,
     [CHR 0xCE, CHR 0xBC, CHR ''s''] \<mapsto> 1000, ''ms'' \<mapsto> 1000000, ''s'' \<mapsto> 1000000000,
     ''m'' \<mapsto> 60000000000, ''h'' \<mapsto> 3600000000000]"

definition unit_char :: "char \<Rightarrow> bool" where
  "unit_char c \<longleftrightarrow> c \<noteq> CHR ''.'' \<and> \<not> is_digit c"

text \<open>One number with its unit: the nanoseconds and the rest of the string.\<close>

definition duration_part :: "(nat \<Rightarrow> nat \<Rightarrow> nat \<Rightarrow> nat) \<Rightarrow> string \<Rightarrow> (nat \<times> string) option" where
  "duration_part frac s =
     (case leading_int 0 s of
        None \<Rightarrow> None
      | Some (v, s1) \<Rightarrow>
          (let pre = (length s1 \<noteq> length s);
               dot = (s1 \<noteq> [] \<and> hd s1 = CHR ''.'')
           in case (if dot then leading_fraction 0 0 False (tl s1) else (0, 0, s1)) of
                (f, k, s2) \<Rightarrow>
                  let post = (dot \<and> length s2 \<noteq> length (tl s1)); u = takeWhile unit_char s2
                  in if \<not> pre \<and> \<not> post then None
                     else if u = [] then None
                     else (case unit_map u of
                             None \<Rightarrow> None
                           | Some unit \<Rightarrow>
                               if v > 2 ^ 63 div unit then None
                               else let v = v * unit + (if f > 0 then frac f unit k else 0)
                                    in if v > 2 ^ 63 then None else Some (v, dropWhile unit_char s2))))"

lemma leading_int_length: "leading_int x s = Some (v, t) \<Longrightarrow> length t \<le> length s"
  by (induction x s rule: leading_int.induct) (auto split: if_splits)

lemma leading_fraction_length: "leading_fraction x k ov s = (f, j, t) \<Longrightarrow> length t \<le> length s"
  by (induction x k ov s rule: leading_fraction.induct) (auto split: if_splits)

lemma duration_part_length:
  assumes "duration_part frac s = Some (v, t)"
  shows "length t < length s"
proof -
  obtain w s1 where i: "leading_int 0 s = Some (w, s1)"
    using assms by (auto simp: duration_part_def split: option.splits)
  obtain f k s2 where j: "(if s1 \<noteq> [] \<and> hd s1 = CHR ''.'' then leading_fraction 0 0 False (tl s1) else (0, 0, s1))
      = (f, k, s2)"
    by (metis prod_cases3)
  have "length s2 \<le> length s1"
    using j leading_fraction_length [of 0 0 False "tl s1" f k s2] by (auto split: if_splits)
  moreover have "takeWhile unit_char s2 \<noteq> []" "t = dropWhile unit_char s2"
    using assms i j by (auto simp: duration_part_def Let_def split: if_splits option.splits)
  moreover have "length (takeWhile unit_char s2) + length (dropWhile unit_char s2) = length s2"
    by (metis length_append takeWhile_dropWhile_id)
  ultimately show ?thesis using leading_int_length [OF i] by (cases "takeWhile unit_char s2") auto
qed

function duration_parts :: "(nat \<Rightarrow> nat \<Rightarrow> nat \<Rightarrow> nat) \<Rightarrow> nat \<Rightarrow> string \<Rightarrow> nat option" where
  "duration_parts frac d s =
     (if s = [] then Some d
      else if \<not> (hd s = CHR ''.'' \<or> is_digit (hd s)) then None
      else (case duration_part frac s of
              None \<Rightarrow> None
            | Some (v, t) \<Rightarrow>
                let d' = (d + v) mod 2 ^ 64 in if d' > 2 ^ 63 then None else duration_parts frac d' t))"
  by pat_completeness auto

termination
  by (relation "measure (\<lambda>(frac, d, s). length s)") (auto dest: duration_part_length)

declare duration_parts.simps [simp del]

definition ParseDuration :: "(nat \<Rightarrow> nat \<Rightarrow> nat \<Rightarrow> nat) \<Rightarrow> string \<Rightarrow> go_error + int" where
  "ParseDuration frac s =
     (let neg = (s \<noteq> [] \<and> hd s = CHR ''-'');
          body = (if s \<noteq> [] \<and> (hd s = CHR ''-'' \<or> hd s = CHR ''+'') then tl s else s)
      in if body = ''0'' then Inr 0
         else if body = [] then Inl (ErrOther ''time: invalid duration'')
         else (case duration_parts frac 0 body of
                 None \<Rightarrow> Inl (ErrOther ''time: invalid duration'')
               | Some d \<Rightarrow>
                   if neg then Inr (if d = 2 ^ 63 then - (2 ^ 63) else - int d)
                   else if d > 2 ^ 63 - 1 then Inl (ErrOther ''time: invalid duration'')
                   else Inr (int d)))"

section \<open>Whole seconds\<close>

lemma read_digits_mono: "read_digits y u = Some m \<Longrightarrow> y \<le> m"
proof (induction u arbitrary: y)
  case (Cons c u)
  then have "10 * y + digit_val c \<le> m" by (simp split: if_splits)
  then show ?case by linarith
qed simp

lemma leading_int_digits:
  assumes "list_all is_digit s" "read_digits x s = Some n" "n \<le> 2 ^ 63" "r = [] \<or> \<not> is_digit (hd r)"
  shows "leading_int x (s @ r) = Some (n, r)"
  using assms(1,2)
proof (induction s arbitrary: x)
  case Nil
  with assms(4) show ?case by (cases r) auto
next
  case (Cons c s)
  have "10 * x + digit_val c \<le> n" using Cons.prems read_digits_mono [of "10 * x + digit_val c" s n] by (simp split: if_splits)
  then have "10 * x + digit_val c \<le> 2 ^ 63" "x \<le> 2 ^ 63 div 10" using assms(3) by linarith+
  with Cons show ?case by (simp add: not_less)
qed

text \<open>A duration the size of the interval in seconds, as an operator would write it.\<close>

lemma ParseDuration_seconds:
  assumes "n \<le> 9223372036"
  shows "ParseDuration frac (nat_digits n @ ''s'') = Inr (int n * 1000000000)"
proof -
  let ?s = "nat_digits n @ ''s''"
  obtain c t where hd: "nat_digits n = c # t" "is_digit c" using nat_digits_hd by blast
  have li: "leading_int 0 ?s = Some (n, ''s'')"
    using leading_int_digits [of "nat_digits n" 0 n "''s''"] nat_digits_digits read_nat_digits assms
    by (simp add: is_digit_def)
  have u: "unit_char (CHR ''s'')" by (simp add: unit_char_def is_digit_def)
  have "duration_part frac ?s = Some (n * 1000000000, [])"
    using assms by (simp add: duration_part_def li u unit_map_def Let_def)
  then have "duration_parts frac 0 ?s = Some (n * 1000000000)"
    using hd assms by (subst duration_parts.simps) (simp add: duration_parts.simps [of frac _ "[]"] Let_def)
  moreover have "?s \<noteq> ''0''" "c \<noteq> CHR ''-''" "c \<noteq> CHR ''+''"
    using hd digit_not_sign [of c] by (cases t; auto)+
  ultimately show ?thesis using hd assms by (simp add: ParseDuration_def Let_def)
qed

section \<open>Seconds as durations\<close>

text \<open>
  \<open>time.Duration(n) * time.Second\<close>: a product of 64-bit integers, which wraps. \<open>time.NewTicker\<close> panics on a duration
  that is not positive.
\<close>

definition seconds_duration :: "int \<Rightarrow> int" where
  "seconds_duration n = sint (word_of_int n * 1000000000 :: int64)"

lemma seconds_duration_exact:
  assumes "- 9223372036 \<le> n" "n \<le> 9223372036"
  shows "seconds_duration n = n * 1000000000"
proof -
  have "int64_range (n * 1000000000)" using assms by (simp add: int64_range_def)
  then show ?thesis unfolding seconds_duration_def using sint_of_range [of "n * 1000000000"] by simp
qed

end
