(* ===== verification/Config.thy ===== *)
theory Config
  imports Metrics_Json Go_Flag Go_Duration
begin

text \<open>
  \<open>internal/config\<close>: where the configuration file is looked for, the conversion of the JSON files, and the
  stages of \<open>ParseFlags\<close> and \<open>ParseAgentFlags\<close> with their flags. \<open>mergo.Merge\<close> and the parser of environment
  variables are third-party code and parameters; a flag error ends the process.
\<close>

section \<open>The file\<close>

definition config_names :: "string list" where
  "config_names = [''-c'', ''--c'', ''-config'', ''--config'']"

text \<open>
  The inner loop over the four names: the first one that matches ends it, with or without a value. \<open>rest\<close>
  is what follows the argument.
\<close>

fun match_names :: "string list \<Rightarrow> string \<Rightarrow> string list \<Rightarrow> string \<Rightarrow> string" where
  "match_names [] arg rest path = path"
| "match_names (name # names) arg rest path =
     (if arg = name then (case rest of [] \<Rightarrow> path | v # _ \<Rightarrow> v)
      else if has_prefix arg (name @ ''='') then drop (length name + 1) arg
      else match_names names arg rest path)"

text \<open>The outer loop; \<open>os.Args[1:]\<close> and the environment variable CONFIG (empty when unset) are given.\<close>

fun scan_args :: "string list \<Rightarrow> string \<Rightarrow> string" where
  "scan_args [] path = path"
| "scan_args (a # as) path = scan_args as (match_names config_names a as path)"

definition FindConfigPath :: "string \<Rightarrow> string list \<Rightarrow> string" where
  "FindConfigPath env_config args = scan_args args env_config"

section \<open>Server configuration\<close>

record server_config =
  sc_Key :: string
  sc_Address :: string
  sc_StoreIntervalSec :: int
  sc_FileStoragePath :: string
  sc_Restore :: bool
  sc_DatabaseDSN :: string
  sc_RateLimit :: int
  sc_AuditFile :: string
  sc_AuditURL :: string
  sc_CryptoKey :: string
  sc_TrustedSubnet :: string
  sc_GRPCAddress :: string

record server_json =
  sj_Address :: string
  sj_Restore :: "bool option"
  sj_StoreInterval :: string
  sj_StoreFile :: string
  sj_DatabaseDSN :: string
  sj_CryptoKey :: string
  sj_TrustedSubnet :: string
  sj_GRPCAddress :: string

definition zero_server_config :: server_config where
  "zero_server_config = \<lparr>sc_Key = '''', sc_Address = '''', sc_StoreIntervalSec = 0, sc_FileStoragePath = '''',
     sc_Restore = False, sc_DatabaseDSN = '''', sc_RateLimit = 0, sc_AuditFile = '''', sc_AuditURL = '''',
     sc_CryptoKey = '''', sc_TrustedSubnet = '''', sc_GRPCAddress = ''''\<rparr>"

definition zero_server_json :: server_json where
  "zero_server_json = \<lparr>sj_Address = '''', sj_Restore = None, sj_StoreInterval = '''', sj_StoreFile = '''',
     sj_DatabaseDSN = '''', sj_CryptoKey = '''', sj_TrustedSubnet = '''', sj_GRPCAddress = ''''\<rparr>"

definition serverDefaults :: server_config where
  "serverDefaults = zero_server_config\<lparr>sc_Address := ''localhost:8080'', sc_RateLimit := 5,
     sc_StoreIntervalSec := 300, sc_FileStoragePath := ''metrics-db.json''\<rparr>"

text \<open>
  \<open>int(d.Seconds())\<close> of a duration in nanoseconds: truncation towards zero (exact below 2^23 seconds, where
  the intermediate float still separates adjacent nanoseconds).
\<close>

definition whole_seconds :: "int \<Rightarrow> int" where
  "whole_seconds d = sgn d * (\<bar>d\<bar> div 1000000000)"

definition serverConfigFromJSON :: "(nat \<Rightarrow> nat \<Rightarrow> nat \<Rightarrow> nat) \<Rightarrow> server_json \<Rightarrow> go_error + server_config" where
  "serverConfigFromJSON frac j =
     (let cfg = zero_server_config\<lparr>sc_Address := sj_Address j, sc_FileStoragePath := sj_StoreFile j,
            sc_DatabaseDSN := sj_DatabaseDSN j, sc_CryptoKey := sj_CryptoKey j,
            sc_TrustedSubnet := sj_TrustedSubnet j, sc_GRPCAddress := sj_GRPCAddress j\<rparr>;
          finish = (\<lambda>cfg. Inr (case sj_Restore j of None \<Rightarrow> cfg | Some b \<Rightarrow> cfg\<lparr>sc_Restore := b\<rparr>))
      in if sj_StoreInterval j \<noteq> '''' then
           (case ParseDuration frac (sj_StoreInterval j) of
              Inl err \<Rightarrow> Inl (ErrWrap ''store_interval: invalid duration'' err)
            | Inr d \<Rightarrow> finish (cfg\<lparr>sc_StoreIntervalSec := whole_seconds d\<rparr>))
         else finish cfg)"

text \<open>The JSON document, decoded as \<open>encoding/json\<close> does into the struct: last member wins, names fold case.\<close>

definition json_bool_pointer :: "json \<Rightarrow> bool option option" where
  "json_bool_pointer j = (case j of JNull \<Rightarrow> Some None | JBool b \<Rightarrow> Some (Some b) | _ \<Rightarrow> None)"

definition set_server_field :: "string \<Rightarrow> json \<Rightarrow> server_json \<Rightarrow> server_json option" where
  "set_server_field k j c =
     (let f = fold_name k in
      if f = ''ADDRESS'' then map_option (\<lambda>s. c\<lparr>sj_Address := s\<rparr>) (json_string_into j (sj_Address c))
      else if f = ''RESTORE'' then map_option (\<lambda>b. c\<lparr>sj_Restore := b\<rparr>) (json_bool_pointer j)
      else if f = ''STORE_INTERVAL'' then map_option (\<lambda>s. c\<lparr>sj_StoreInterval := s\<rparr>) (json_string_into j (sj_StoreInterval c))
      else if f = ''STORE_FILE'' then map_option (\<lambda>s. c\<lparr>sj_StoreFile := s\<rparr>) (json_string_into j (sj_StoreFile c))
      else if f = ''DATABASE_DSN'' then map_option (\<lambda>s. c\<lparr>sj_DatabaseDSN := s\<rparr>) (json_string_into j (sj_DatabaseDSN c))
      else if f = ''CRYPTO_KEY'' then map_option (\<lambda>s. c\<lparr>sj_CryptoKey := s\<rparr>) (json_string_into j (sj_CryptoKey c))
      else if f = ''TRUSTED_SUBNET'' then map_option (\<lambda>s. c\<lparr>sj_TrustedSubnet := s\<rparr>) (json_string_into j (sj_TrustedSubnet c))
      else if f = ''GRPC_ADDRESS'' then map_option (\<lambda>s. c\<lparr>sj_GRPCAddress := s\<rparr>) (json_string_into j (sj_GRPCAddress c))
      else Some c)"

fun set_server_fields :: "(string \<times> json) list \<Rightarrow> server_json \<Rightarrow> server_json option" where
  "set_server_fields [] c = Some c"
| "set_server_fields ((k, j) # kvs) c = Option.bind (set_server_field k j c) (set_server_fields kvs)"

definition unmarshal_server_json :: "bytes \<Rightarrow> server_json option" where
  "unmarshal_server_json b =
     (case json_unmarshal b of
        Some (JObj ms) \<Rightarrow> set_server_fields ms zero_server_json
      | Some JNull \<Rightarrow> Some zero_server_json
      | _ \<Rightarrow> None)"

definition loadJSONFile :: "(string \<Rightarrow> go_error + bytes) \<Rightarrow> (bytes \<Rightarrow> 'c option) \<Rightarrow> string \<Rightarrow> go_error + 'c" where
  "loadJSONFile read unmarshal path =
     (case read path of
        Inl err \<Rightarrow> Inl (ErrWrap ''read config file'' err)
      | Inr data \<Rightarrow>
          (case unmarshal data of
             None \<Rightarrow> Inl (ErrWrap ''parse config file'' (ErrOther ''json''))
           | Some c \<Rightarrow> Inr c))"

text \<open>
  The environment of a start: CONFIG, the arguments, the file system, the float arithmetic of durations, the
  merge and the environment overlay.
\<close>

record 'c start_env =
  se_config :: string
  se_args :: "string list"
  se_read :: "string \<Rightarrow> go_error + bytes"
  se_frac :: "nat \<Rightarrow> nat \<Rightarrow> nat \<Rightarrow> nat"
  se_merge :: "'c \<Rightarrow> 'c \<Rightarrow> go_error + 'c"
  se_env :: "'c \<Rightarrow> go_error + 'c"

datatype 'c parse_result = FlagExit | ParseFails go_error | Parsed 'c

text \<open>The fields without a flag default of their own start from the zero value.\<close>

definition server_flag_defaults :: "server_config \<Rightarrow> server_config" where
  "server_flag_defaults m = m\<lparr>sc_Key := '''', sc_AuditFile := '''', sc_AuditURL := ''''\<rparr>"

text \<open>The flags of the server, all but \<open>-r\<close> with a value; \<open>-c\<close> and \<open>-config\<close> are registered and ignored here.\<close>

definition server_flag_kind :: "string \<Rightarrow> bool option" where
  "server_flag_kind name =
     (if name = ''r'' then Some True
      else if name \<in> {''a'', ''k'', ''d'', ''l'', ''i'', ''f'', ''audit-file'', ''audit-url'', ''crypto-key'', ''t'',
        ''grpc'', ''c'', ''config''} then Some False
      else None)"

definition set_server_flag :: "string \<Rightarrow> string \<Rightarrow> server_config \<Rightarrow> server_config option" where
  "set_server_flag name v c =
     (if name = ''a'' then Some (c\<lparr>sc_Address := v\<rparr>)
      else if name = ''k'' then Some (c\<lparr>sc_Key := v\<rparr>)
      else if name = ''d'' then Some (c\<lparr>sc_DatabaseDSN := v\<rparr>)
      else if name = ''l'' then map_option (\<lambda>i. c\<lparr>sc_RateLimit := i\<rparr>) (parse_int0 v)
      else if name = ''i'' then map_option (\<lambda>i. c\<lparr>sc_StoreIntervalSec := i\<rparr>) (parse_int0 v)
      else if name = ''f'' then Some (c\<lparr>sc_FileStoragePath := v\<rparr>)
      else if name = ''r'' then map_option (\<lambda>b. c\<lparr>sc_Restore := b\<rparr>) (parse_bool v)
      else if name = ''audit-file'' then Some (c\<lparr>sc_AuditFile := v\<rparr>)
      else if name = ''audit-url'' then Some (c\<lparr>sc_AuditURL := v\<rparr>)
      else if name = ''crypto-key'' then Some (c\<lparr>sc_CryptoKey := v\<rparr>)
      else if name = ''t'' then Some (c\<lparr>sc_TrustedSubnet := v\<rparr>)
      else if name = ''grpc'' then Some (c\<lparr>sc_GRPCAddress := v\<rparr>)
      else Some c)"

definition server_file :: "server_config start_env \<Rightarrow> go_error + server_json" where
  "server_file se =
     (let cfgPath = FindConfigPath (se_config se) (se_args se)
      in if cfgPath \<noteq> '''' then loadJSONFile (se_read se) unmarshal_server_json cfgPath else Inr zero_server_json)"

definition ParseFlags :: "server_config start_env \<Rightarrow> server_config parse_result" where
  "ParseFlags se =
     (case server_file se of
        Inl err \<Rightarrow> ParseFails err
      | Inr jcfg \<Rightarrow>
          (case serverConfigFromJSON (se_frac se) jcfg of
             Inl err \<Rightarrow> ParseFails err
           | Inr fromJSON \<Rightarrow>
               (case se_merge se fromJSON serverDefaults of
                  Inl err \<Rightarrow> ParseFails (ErrWrap ''merge config defaults'' err)
                | Inr merged \<Rightarrow>
                    (case parse_flags server_flag_kind set_server_flag (se_args se) (server_flag_defaults merged) of
                       None \<Rightarrow> FlagExit
                     | Some (cfg, rest) \<Rightarrow>
                         (case se_env se cfg of
                            Inl err \<Rightarrow> ParseFails (ErrWrap ''parse env'' err)
                          | Inr cfg \<Rightarrow>
                              if rest \<noteq> [] then ParseFails (ErrOther ''unknown arguments'')
                              else Parsed cfg)))))"

section \<open>Agent configuration\<close>

record agent_config =
  ac_Address :: string
  ac_PollInterval :: int
  ac_ReportInterval :: int
  ac_Key :: string
  ac_RateLimit :: int
  ac_CryptoKey :: string
  ac_GRPCAddress :: string

record agent_json =
  aj_Address :: string
  aj_ReportInterval :: string
  aj_PollInterval :: string
  aj_CryptoKey :: string
  aj_GRPCAddress :: string

definition zero_agent_json :: agent_json where
  "zero_agent_json = \<lparr>aj_Address = '''', aj_ReportInterval = '''', aj_PollInterval = '''', aj_CryptoKey = '''',
     aj_GRPCAddress = ''''\<rparr>"

definition agentDefaults :: agent_config where
  "agentDefaults = \<lparr>ac_Address = ''localhost:8080'', ac_PollInterval = 2, ac_ReportInterval = 10, ac_Key = '''',
     ac_RateLimit = 5, ac_CryptoKey = '''', ac_GRPCAddress = ''''\<rparr>"

definition agentConfigFromJSON :: "(nat \<Rightarrow> nat \<Rightarrow> nat \<Rightarrow> nat) \<Rightarrow> agent_json \<Rightarrow> go_error + agent_config" where
  "agentConfigFromJSON frac j =
     (let cfg = \<lparr>ac_Address = aj_Address j, ac_PollInterval = 0, ac_ReportInterval = 0, ac_Key = '''',
            ac_RateLimit = 0, ac_CryptoKey = aj_CryptoKey j, ac_GRPCAddress = aj_GRPCAddress j\<rparr>;
          report = (\<lambda>cfg. if aj_ReportInterval j \<noteq> '''' then
              (case ParseDuration frac (aj_ReportInterval j) of
                 Inl err \<Rightarrow> Inl (ErrWrap ''report_interval: invalid duration'' err)
               | Inr d \<Rightarrow> Inr (cfg\<lparr>ac_ReportInterval := whole_seconds d\<rparr>))
            else Inr cfg)
      in if aj_PollInterval j \<noteq> '''' then
           (case ParseDuration frac (aj_PollInterval j) of
              Inl err \<Rightarrow> Inl (ErrWrap ''poll_interval: invalid duration'' err)
            | Inr d \<Rightarrow> report (cfg\<lparr>ac_PollInterval := whole_seconds d\<rparr>))
         else report cfg)"

definition set_agent_field :: "string \<Rightarrow> json \<Rightarrow> agent_json \<Rightarrow> agent_json option" where
  "set_agent_field k j c =
     (let f = fold_name k in
      if f = ''ADDRESS'' then map_option (\<lambda>s. c\<lparr>aj_Address := s\<rparr>) (json_string_into j (aj_Address c))
      else if f = ''REPORT_INTERVAL'' then map_option (\<lambda>s. c\<lparr>aj_ReportInterval := s\<rparr>) (json_string_into j (aj_ReportInterval c))
      else if f = ''POLL_INTERVAL'' then map_option (\<lambda>s. c\<lparr>aj_PollInterval := s\<rparr>) (json_string_into j (aj_PollInterval c))
      else if f = ''CRYPTO_KEY'' then map_option (\<lambda>s. c\<lparr>aj_CryptoKey := s\<rparr>) (json_string_into j (aj_CryptoKey c))
      else if f = ''GRPC_ADDRESS'' then map_option (\<lambda>s. c\<lparr>aj_GRPCAddress := s\<rparr>) (json_string_into j (aj_GRPCAddress c))
      else Some c)"

fun set_agent_fields :: "(string \<times> json) list \<Rightarrow> agent_json \<Rightarrow> agent_json option" where
  "set_agent_fields [] c = Some c"
| "set_agent_fields ((k, j) # kvs) c = Option.bind (set_agent_field k j c) (set_agent_fields kvs)"

definition unmarshal_agent_json :: "bytes \<Rightarrow> agent_json option" where
  "unmarshal_agent_json b =
     (case json_unmarshal b of
        Some (JObj ms) \<Rightarrow> set_agent_fields ms zero_agent_json
      | Some JNull \<Rightarrow> Some zero_agent_json
      | _ \<Rightarrow> None)"

definition agent_flag_kind :: "string \<Rightarrow> bool option" where
  "agent_flag_kind name =
     (if name \<in> {''a'', ''p'', ''r'', ''k'', ''l'', ''crypto-key'', ''grpc'', ''c'', ''config''} then Some False else None)"

definition set_agent_flag :: "string \<Rightarrow> string \<Rightarrow> agent_config \<Rightarrow> agent_config option" where
  "set_agent_flag name v c =
     (if name = ''a'' then Some (c\<lparr>ac_Address := v\<rparr>)
      else if name = ''p'' then map_option (\<lambda>i. c\<lparr>ac_PollInterval := i\<rparr>) (parse_int0 v)
      else if name = ''r'' then map_option (\<lambda>i. c\<lparr>ac_ReportInterval := i\<rparr>) (parse_int0 v)
      else if name = ''k'' then Some (c\<lparr>ac_Key := v\<rparr>)
      else if name = ''l'' then map_option (\<lambda>i. c\<lparr>ac_RateLimit := i\<rparr>) (parse_int0 v)
      else if name = ''crypto-key'' then Some (c\<lparr>ac_CryptoKey := v\<rparr>)
      else if name = ''grpc'' then Some (c\<lparr>ac_GRPCAddress := v\<rparr>)
      else Some c)"

definition agent_file :: "agent_config start_env \<Rightarrow> go_error + agent_json" where
  "agent_file se =
     (let cfgPath = FindConfigPath (se_config se) (se_args se)
      in if cfgPath \<noteq> '''' then loadJSONFile (se_read se) unmarshal_agent_json cfgPath else Inr zero_agent_json)"

text \<open>Arguments that are no flags are ignored by the agent.\<close>

definition ParseAgentFlags :: "agent_config start_env \<Rightarrow> agent_config parse_result" where
  "ParseAgentFlags se =
     (case agent_file se of
        Inl err \<Rightarrow> ParseFails err
      | Inr jcfg \<Rightarrow>
          (case agentConfigFromJSON (se_frac se) jcfg of
             Inl err \<Rightarrow> ParseFails err
           | Inr fromJSON \<Rightarrow>
               (case se_merge se fromJSON agentDefaults of
                  Inl err \<Rightarrow> ParseFails (ErrWrap ''merge config defaults'' err)
                | Inr merged \<Rightarrow>
                    (case parse_flags agent_flag_kind set_agent_flag (se_args se) (merged\<lparr>ac_Key := ''''\<rparr>) of
                       None \<Rightarrow> FlagExit
                     | Some (cfg, rest) \<Rightarrow>
                         (case se_env se cfg of
                            Inl err \<Rightarrow> ParseFails (ErrWrap ''parse env'' err)
                          | Inr cfg \<Rightarrow>
                              Parsed (if ac_RateLimit cfg \<le> 0
                                      then cfg\<lparr>ac_RateLimit := ac_RateLimit agentDefaults\<rparr> else cfg))))))"

end
