(* ===== verification/Server_Boot.thy ===== *)
theory Server_Boot
  imports Persistence_Facts Postgres Router Config Audit_Subject "HOL-Library.Sublist"
begin

text \<open>
  \<open>run\<close> of \<open>cmd/server/main.go\<close> from the configuration to its return: the storage it opens, the middleware
  configuration, and the resources it acquires and releases by \<open>defer\<close> on every path. The result is the
  sequence of its actions and its error; what happens while the server serves is \<open>Server_Run\<close>.
\<close>

section \<open>Storage\<close>

datatype backend = PgBackend pg_state | SyncBackend mem_store | MemBackend mem_store

text \<open>The variable \<open>mem\<close> of \<open>run\<close>, nil with a database.\<close>

fun backend_mem :: "backend \<Rightarrow> mem_store option" where
  "backend_mem (PgBackend _) = None"
| "backend_mem (SyncBackend m) = Some m"
| "backend_mem (MemBackend m) = Some m"

definition restore_mem :: "float_text \<Rightarrow> bool \<Rightarrow> file_system \<Rightarrow> server_config \<Rightarrow> mem_store" where
  "restore_mem ft readable fs cfg =
     (if sc_Restore cfg \<and> sc_FileStoragePath cfg \<noteq> ''''
      then snd (loadMetrics ft readable (sc_FileStoragePath cfg) fs NewMemStorage)
      else NewMemStorage)"

definition file_backend :: "float_text \<Rightarrow> bool \<Rightarrow> file_system \<Rightarrow> server_config \<Rightarrow> backend" where
  "file_backend ft readable fs cfg =
     (let mem = restore_mem ft readable fs cfg
      in if sc_FileStoragePath cfg \<noteq> '''' \<and> sc_StoreIntervalSec cfg = 0 then SyncBackend mem else MemBackend mem)"

text \<open>The two conditions under which \<open>run\<close> starts the periodic saver and writes the final snapshot.\<close>

definition saves_periodically :: "server_config \<Rightarrow> mem_store option \<Rightarrow> bool" where
  "saves_periodically cfg mem \<longleftrightarrow> mem \<noteq> None \<and> sc_FileStoragePath cfg \<noteq> '''' \<and> sc_StoreIntervalSec cfg > 0"

definition saves_finally :: "server_config \<Rightarrow> mem_store option \<Rightarrow> bool" where
  "saves_finally cfg mem \<longleftrightarrow> mem \<noteq> None \<and> sc_FileStoragePath cfg \<noteq> ''''"

section \<open>The actions of a run\<close>

text \<open>\<open>StartSaver d\<close> starts the saver goroutine with a ticker of \<open>d\<close> nanoseconds.\<close>

datatype resource = Logger | Signals | Database | AuditFile | AuditQueue

datatype action =
    Acquire resource
  | Defer resource
  | Release resource
  | StartSaver int
  | StartGrpc
  | Serve backend bool
  | FinalSnapshot

type_synonym run_result = "action list \<times> go_error option"

text \<open>
  A \<open>defer\<close> statement is an action of its own, where the code has it: \<open>Defer r\<close> registers the release of \<open>r\<close>. When
  the function returns, by whichever path, what was registered so far is released, the latest first.
\<close>

fun deferred :: "action list \<Rightarrow> resource list" where
  "deferred [] = []"
| "deferred (a # acts) = (case a of Defer r \<Rightarrow> deferred acts @ [r] | _ \<Rightarrow> deferred acts)"

definition run_defers :: "run_result \<Rightarrow> run_result" where
  "run_defers k = (case k of (acts, err) \<Rightarrow> (acts @ map Release (deferred acts), err))"

definition after :: "action list \<Rightarrow> run_result \<Rightarrow> run_result" where
  "after acts k = (case k of (acts', err) \<Rightarrow> (acts @ acts', err))"

text \<open>
  What the outside answers to the run: each operation that may fail, the file system at the start, and how
  \<open>ListenAndServe\<close> ends (\<open>None\<close> for \<open>http.ErrServerClosed\<close>).
\<close>

record ('priv, 'ip) boot_env =
  be_config :: "go_error + server_config"
  be_cidr :: "string \<Rightarrow> go_error + ('ip \<Rightarrow> bool)"
  be_logger :: "go_error option"
  be_connect :: "string \<Rightarrow> go_error + pg_state"
  be_float :: float_text
  be_readable :: bool
  be_disk :: file_system
  be_audit_open :: "string \<Rightarrow> go_error option"
  be_key :: "string \<Rightarrow> go_error + 'priv"
  be_listen_grpc :: "string \<Rightarrow> go_error option"
  be_serve :: "go_error option"

definition serve_stage :: "('priv, 'ip) boot_env \<Rightarrow> server_config \<Rightarrow> backend \<Rightarrow> bool \<Rightarrow> run_result" where
  "serve_stage be cfg store audited =
     (case be_serve be of
        Some err \<Rightarrow> ([Serve store audited], Some err)
      | None \<Rightarrow>
          (Serve store audited # (if saves_finally cfg (backend_mem store) then [FinalSnapshot] else []), None))"

definition grpc_stage :: "('priv, 'ip) boot_env \<Rightarrow> server_config \<Rightarrow> backend \<Rightarrow> bool \<Rightarrow> run_result" where
  "grpc_stage be cfg store audited =
     (if sc_GRPCAddress cfg \<noteq> '''' then
        (case be_listen_grpc be (sc_GRPCAddress cfg) of
           Some err \<Rightarrow> ([], Some (ErrWrap ''grpc listen'' err))
         | None \<Rightarrow> after [StartGrpc] (serve_stage be cfg store audited))
      else serve_stage be cfg store audited)"

text \<open>The private key is needed only to build the chain; a failure to load it ends the run.\<close>

definition load_key :: "('priv, 'ip) boot_env \<Rightarrow> server_config \<Rightarrow> go_error + 'priv option" where
  "load_key be cfg =
     (if sc_CryptoKey cfg \<noteq> '''' then
        (case be_key be (sc_CryptoKey cfg) of
           Inl err \<Rightarrow> Inl (ErrWrap ''load private key'' err) | Inr key \<Rightarrow> Inr (Some key))
      else Inr None)"

definition router_stage :: "('priv, 'ip) boot_env \<Rightarrow> server_config \<Rightarrow> backend \<Rightarrow> bool \<Rightarrow> run_result" where
  "router_stage be cfg store audited =
     (case load_key be cfg of Inl err \<Rightarrow> ([], Some err) | Inr _ \<Rightarrow> grpc_stage be cfg store audited)"

definition queue_stage :: "('priv, 'ip) boot_env \<Rightarrow> server_config \<Rightarrow> backend \<Rightarrow> nat \<Rightarrow> run_result" where
  "queue_stage be cfg store observers =
     (let n = observers + (if sc_AuditURL cfg \<noteq> '''' then 1 else 0)
      in if n > 0 then after [Acquire AuditQueue, Defer AuditQueue] (router_stage be cfg store True)
         else router_stage be cfg store False)"

definition audit_stage :: "('priv, 'ip) boot_env \<Rightarrow> server_config \<Rightarrow> backend \<Rightarrow> run_result" where
  "audit_stage be cfg store =
     (if sc_AuditFile cfg \<noteq> '''' then
        (case be_audit_open be (sc_AuditFile cfg) of
           Some err \<Rightarrow> ([], Some err)
         | None \<Rightarrow> after [Acquire AuditFile, Defer AuditFile] (queue_stage be cfg store 1))
      else queue_stage be cfg store 0)"

definition saver_stage :: "('priv, 'ip) boot_env \<Rightarrow> server_config \<Rightarrow> backend \<Rightarrow> run_result" where
  "saver_stage be cfg store =
     after (if saves_periodically cfg (backend_mem store) then [StartSaver (seconds_duration (sc_StoreIntervalSec cfg))] else [])
       (audit_stage be cfg store)"

definition storage_stage :: "('priv, 'ip) boot_env \<Rightarrow> server_config \<Rightarrow> run_result" where
  "storage_stage be cfg =
     (if sc_DatabaseDSN cfg \<noteq> '''' then
        (case be_connect be (sc_DatabaseDSN cfg) of
           Inl err \<Rightarrow> ([], Some (ErrWrap ''connect to database'' err))
         | Inr pg \<Rightarrow> after [Acquire Database, Defer Database] (saver_stage be cfg (PgBackend pg)))
      else saver_stage be cfg (file_backend (be_float be) (be_readable be) (be_disk be) cfg))"

definition trusted_subnet :: "('priv, 'ip) boot_env \<Rightarrow> server_config \<Rightarrow> go_error + ('ip \<Rightarrow> bool) option" where
  "trusted_subnet be cfg =
     (if sc_TrustedSubnet cfg \<noteq> '''' then
        (case be_cidr be (sc_TrustedSubnet cfg) of
           Inl err \<Rightarrow> Inl (ErrWrap ''invalid trusted_subnet'' err) | Inr net \<Rightarrow> Inr (Some net))
      else Inr None)"

definition run_body :: "('priv, 'ip) boot_env \<Rightarrow> run_result" where
  "run_body be =
     (case be_config be of
        Inl err \<Rightarrow> ([], Some err)
      | Inr cfg \<Rightarrow>
          (case trusted_subnet be cfg of
             Inl err \<Rightarrow> ([], Some err)
           | Inr _ \<Rightarrow>
               (case be_logger be of
                  Some err \<Rightarrow> ([], Some err)
                | None \<Rightarrow>
                    after [Acquire Logger, Defer Logger]
                      (after [Acquire Signals, Defer Signals] (storage_stage be cfg)))))"

definition run_server :: "('priv, 'ip) boot_env \<Rightarrow> run_result" where
  "run_server be = run_defers (run_body be)"

section \<open>What a run guarantees\<close>

text \<open>What a sequence of actions acquires and releases, in order.\<close>

fun acquired :: "action list \<Rightarrow> resource list" where
  "acquired [] = []"
| "acquired (a # acts) = (case a of Acquire r \<Rightarrow> r # acquired acts | _ \<Rightarrow> acquired acts)"

fun released :: "action list \<Rightarrow> resource list" where
  "released [] = []"
| "released (a # acts) = (case a of Release r \<Rightarrow> r # released acts | _ \<Rightarrow> released acts)"

text \<open>A part of the body: it defers the release of exactly what it acquires, in this order of acquisition.\<close>

definition tidy :: "resource list \<Rightarrow> run_result \<Rightarrow> bool" where
  "tidy rs k \<longleftrightarrow> deferred (fst k) = rev (acquired (fst k)) \<and> released (fst k) = [] \<and> subseq (acquired (fst k)) rs"

lemma fst_after [simp]: "fst (after acts k) = acts @ fst k"
  by (simp add: after_def split: prod.split)

lemma tidy_simps [simp]:
  "tidy rs ([], e)" "tidy rs (Serve b a # acts, e) = tidy rs (acts, e)"
  "tidy rs (FinalSnapshot # acts, e) = tidy rs (acts, e)"
  "tidy rs (after (StartGrpc # acts) k) = tidy rs (after acts k)"
  "tidy rs (after (StartSaver i # acts) k) = tidy rs (after acts k)" "tidy rs (after [] k) = tidy rs k"
  by (simp_all add: tidy_def)

lemma tidy_acquire: "tidy rs k \<Longrightarrow> tidy (r # rs) (after [Acquire r, Defer r] k)"
  by (simp add: tidy_def)

lemma tidy_skip: "tidy rs k \<Longrightarrow> tidy (r # rs) k"
  by (auto simp: tidy_def)

lemma tidy_router: "tidy [] (router_stage be cfg store audited)"
  by (simp add: router_stage_def grpc_stage_def serve_stage_def split: option.split sum.split)

lemma tidy_queue: "tidy [AuditQueue] (queue_stage be cfg store observers)"
  by (simp add: queue_stage_def Let_def tidy_acquire tidy_skip tidy_router)

lemma tidy_audit: "tidy [AuditFile, AuditQueue] (audit_stage be cfg store)"
  by (simp add: audit_stage_def tidy_acquire tidy_skip tidy_queue split: option.split)

lemma tidy_storage: "tidy [Database, AuditFile, AuditQueue] (storage_stage be cfg)"
  by (simp add: storage_stage_def saver_stage_def tidy_acquire tidy_skip tidy_audit split: sum.split)

lemma tidy_body: "tidy [Logger, Signals, Database, AuditFile, AuditQueue] (run_body be)"
  by (simp add: run_body_def tidy_acquire tidy_storage split: sum.split option.split)

text \<open>C31: On every path through \<open>run\<close>, failures included, the logger, the signal context, the database pool, the
  audit file and the audit queue are acquired in this order, as far as they are; everything that was acquired is
  released exactly once, after all other actions and in the reverse order: the audit queue is drained before the
  audit file is closed, and both before the database pool. (The gRPC listener has no \<open>defer\<close> and is not among
  them.)\<close>
theorem boot_releases_everything:
  "\<exists>pre. fst (run_server be) = pre @ map Release (rev (acquired pre)) \<and> released pre = []
     \<and> subseq (acquired pre) [Logger, Signals, Database, AuditFile, AuditQueue]"
  using tidy_body [of be] by (auto simp: run_server_def run_defers_def tidy_def split: prod.split)

lemma serve_in_stages:
  "Serve s a \<in> set (fst (saver_stage be cfg store)) \<Longrightarrow> s = store"
  by (auto simp: saver_stage_def audit_stage_def queue_stage_def router_stage_def grpc_stage_def serve_stage_def
      after_def Let_def split: if_splits option.splits sum.splits prod.splits)

lemma serve_in_run:
  assumes "Serve s a \<in> set (fst (run_server be))" "be_config be = Inr cfg" "sc_DatabaseDSN cfg = ''''"
  shows "s = file_backend (be_float be) (be_readable be) (be_disk be) cfg"
proof -
  have "Serve s a \<in> set (fst (storage_stage be cfg))"
    using assms(1,2) by (auto simp: run_server_def run_defers_def run_body_def after_def split: sum.splits option.splits prod.splits)
  then show ?thesis using assms(3) serve_in_stages by (auto simp: storage_stage_def)
qed

text \<open>A server restarted with RESTORE on the file an earlier run saved without an I/O error serves exactly
  the metrics of that save; it writes through when the interval is 0 and in memory otherwise.\<close>
lemma restart_serves_saved_metrics:
  assumes "be_config be = Inr cfg" and "sc_DatabaseDSN cfg = ''''" and "sc_Restore cfg"
    and "sc_FileStoragePath cfg = path" and "path \<noteq> ''''" and "be_readable be"
    and "float_text_ok (be_float be)" and "ranges_ok p m" and "persistable m" and "io_good p"
    and "fs (create_temp_name (dirOf path) (rand_part p)) = None"
    and "be_disk be = last (snd (saveMetrics (be_float be) p path m fs))"
    and "Serve s a \<in> set (fst (run_server be))"
  shows "s = (if sc_StoreIntervalSec cfg = 0 then SyncBackend m else MemBackend m)"
proof -
  obtain data where "be_disk be path = Some data" "unmarshal_list (be_float be) data = Some (snapshot_of p m)"
    using save_success [where fs = fs and path = path, OF assms(7-11)] assms(12) by metis
  then have "restore_mem (be_float be) True (be_disk be) cfg = m"
    using load_snapshot [OF assms(8)] assms(3-5) by (simp add: restore_mem_def loadMetrics_def read_file_def)
  with serve_in_run [OF assms(13,1,2)] assms(4-6) show ?thesis by (simp add: file_backend_def)
qed

definition demo_config :: server_config where
  "demo_config = serverDefaults\<lparr>sc_FileStoragePath := ''d/m.json'', sc_Restore := True,
     sc_AuditFile := ''audit.log''\<rparr>"

definition demo_boot :: "mem_store \<Rightarrow> (unit, unit) boot_env" where
  "demo_boot m = \<lparr>be_config = Inr demo_config, be_cidr = (\<lambda>_. Inl (ErrOther ''cidr'')), be_logger = None,
     be_connect = (\<lambda>_. Inl (ErrOther ''connect'')), be_float = bits_text, be_readable = True,
     be_disk = last (snd (saveMetrics bits_text good_plan ''d/m.json'' m Map.empty)),
     be_audit_open = (\<lambda>_. None), be_key = (\<lambda>_. Inl (ErrOther ''key'')), be_listen_grpc = (\<lambda>_. None),
     be_serve = None\<rparr>"

lemma restart_serves_saved_metrics_witness:
  "Serve (MemBackend (mem_UpdateCounter ''PollCount'' 7 NewMemStorage)) True
     \<in> set (fst (run_server (demo_boot (mem_UpdateCounter ''PollCount'' 7 NewMemStorage))))"
proof -
  let ?m = "mem_UpdateCounter ''PollCount'' 7 NewMemStorage"
  let ?s = "file_backend bits_text True (be_disk (demo_boot ?m)) demo_config"
  have run: "Serve ?s True \<in> set (fst (run_server (demo_boot ?m)))"
    by (simp add: run_server_def demo_boot_def demo_config_def serverDefaults_def zero_server_config_def
        run_body_def run_defers_def trusted_subnet_def storage_stage_def saver_stage_def audit_stage_def queue_stage_def
        router_stage_def load_key_def grpc_stage_def serve_stage_def after_def Let_def)
  have "?s = (if sc_StoreIntervalSec demo_config = 0 then SyncBackend ?m else MemBackend ?m)"
    by (rule restart_serves_saved_metrics [where be = "demo_boot ?m" and a = True and p = good_plan
          and fs = Map.empty and path = "''d/m.json''", OF _ _ _ _ _ _ _ _ _ _ _ _ run])
      (simp_all add: demo_boot_def demo_config_def serverDefaults_def zero_server_config_def bits_text_ok
        good_plan_ranges mem_UpdateCounter_def persistable_def valid_utf8_ascii byte_in_def)
  then show ?thesis using run by (simp add: demo_config_def serverDefaults_def zero_server_config_def)
qed

lemma acquired_append [simp]: "acquired (xs @ ys) = acquired xs @ acquired ys" "acquired (map Release rs) = []"
  by (induction xs, simp_all split: action.split) (induction rs, simp_all)

theorem boot_releases_everything_witness:
  "\<exists>pre. fst (run_server (demo_boot NewMemStorage)) =
       pre @ map Release [AuditQueue, AuditFile, Signals, Logger]
     \<and> acquired pre = [Logger, Signals, AuditFile, AuditQueue]"
proof -
  obtain pre where pre: "fst (run_server (demo_boot NewMemStorage)) = pre @ map Release (rev (acquired pre))"
    using boot_releases_everything [of "demo_boot NewMemStorage"] by blast
  have "acquired (fst (run_server (demo_boot NewMemStorage))) = [Logger, Signals, AuditFile, AuditQueue]"
    by (simp add: run_server_def demo_boot_def demo_config_def serverDefaults_def zero_server_config_def
        run_body_def run_defers_def trusted_subnet_def storage_stage_def saver_stage_def audit_stage_def queue_stage_def
        router_stage_def load_key_def grpc_stage_def serve_stage_def after_def Let_def)
  then have "acquired pre = [Logger, Signals, AuditFile, AuditQueue]" by (simp add: pre)
  with pre show ?thesis by (intro exI [of _ pre]) simp
qed

end
