(* ===== verification/Server_Run.thy ===== *)
theory Server_Run
  imports Persistence_Facts "HOL-Library.Transitive_Closure_Table"
begin

text \<open>
  What happens while \<open>run\<close> of \<open>cmd/server/main.go\<close> serves with file storage, until the process ends: handlers that
  write to the store (and, in synchronous mode, save under the mutex of \<open>syncStorage\<close>), the gRPC server on the
  same store, which stops accepting calls at its own pace, the goroutine of the periodic saver, the signal, \<open>ListenAndServe\<close> that returns as soon as \<open>Shutdown\<close> is called, the final snapshot,
  and a kill at any moment. A save takes its snapshot of the store in one step and writes the file in a later
  one, because no lock spans the two across the savers.
\<close>

section \<open>State\<close>

text \<open>Where the main goroutine is.\<close>

datatype phase = Serving | Closed | Finishing | Finished | Ended

fun phase_rank :: "phase \<Rightarrow> nat" where
  "phase_rank Serving = 0"
| "phase_rank Closed = 1"
| "phase_rank Finishing = 2"
| "phase_rank Finished = 3"
| "phase_rank Ended = 4"

lemma phase_rank_inj [simp]: "phase_rank a = phase_rank b \<longleftrightarrow> a = b"
  by (cases a; cases b) simp_all

lemma phase_rank_le [simp]: "phase_rank a \<le> 4"
  by (cases a) simp_all

instantiation phase :: linorder
begin

definition less_eq_phase :: "phase \<Rightarrow> phase \<Rightarrow> bool" where
  "less_eq_phase a b \<longleftrightarrow> phase_rank a \<le> phase_rank b"

definition less_phase :: "phase \<Rightarrow> phase \<Rightarrow> bool" where
  "less_phase a b \<longleftrightarrow> phase_rank a < phase_rank b"

instance
  by standard (auto simp: less_eq_phase_def less_phase_def simp flip: phase_rank_inj)

end

text \<open>
  A handler: its call is still to be applied, applied but not yet saved (synchronous mode), or being saved
  with the snapshot it has taken. The periodic saver is idle, saving, or has returned.
\<close>

datatype job = Called mem_call | Unsaved | Writing io_plan mem_store

datatype saver = SaverIdle | SaverWriting io_plan mem_store | SaverGone

text \<open>
  \<open>v_grpc\<close>: the gRPC server accepts calls. The last fields are history: the calls applied, the position in it
  of the call a handler has applied, and the positions of the calls whose handlers have returned.
\<close>

record server_state =
  v_mem :: mem_store
  v_disk :: file_system
  v_phase :: phase
  v_signal :: bool
  v_jobs :: "nat \<rightharpoonup> job"
  v_locked :: bool
  v_saver :: saver
  v_final :: "(io_plan \<times> mem_store) option"
  v_history :: "mem_call list"
  v_grpc :: bool
  v_pos :: "nat \<Rightarrow> nat"
  v_acked :: "nat set"

text \<open>The mode of the run, and what the environment may do: the calls of the clients and the fate of the saves.\<close>

record server_world =
  sw_float :: float_text
  sw_path :: string
  sw_sync :: bool
  sw_call :: "mem_call \<Rightarrow> bool"
  sw_plan :: "io_plan \<Rightarrow> bool"

text \<open>\<open>SaverGone\<close> from the start when the interval is not positive.\<close>

definition start_server :: "mem_store \<Rightarrow> file_system \<Rightarrow> bool \<Rightarrow> bool \<Rightarrow> server_state" where
  "start_server m fs periodic grpc = \<lparr>v_mem = m, v_disk = fs, v_phase = Serving, v_signal = False, v_jobs = Map.empty,
     v_locked = False, v_saver = (if periodic then SaverIdle else SaverGone), v_final = None, v_history = [],
     v_grpc = grpc, v_pos = (\<lambda>_. 0), v_acked = {}\<rparr>"

text \<open>\<open>syncStorage\<close> saves after every call but a rejected batch.\<close>

fun call_accepted :: "mem_call \<Rightarrow> bool" where
  "call_accepted (CallBatch xs) = list_all known_type xs"
| "call_accepted _ = True"

definition save_trace :: "server_world \<Rightarrow> io_plan \<Rightarrow> mem_store \<Rightarrow> server_state \<Rightarrow> file_system list" where
  "save_trace w p m s = snd (saveMetrics (sw_float w) p (sw_path w) m (v_disk s))"

definition written_out :: "server_world \<Rightarrow> io_plan \<Rightarrow> mem_store \<Rightarrow> server_state \<Rightarrow> server_state" where
  "written_out w p m s = s\<lparr>v_disk := last (save_trace w p m s)\<rparr>"

definition pending_save :: "server_state \<Rightarrow> io_plan \<Rightarrow> mem_store \<Rightarrow> bool" where
  "pending_save s p m \<longleftrightarrow> Some (Writing p m) \<in> range (v_jobs s) \<or> v_saver s = SaverWriting p m \<or> v_final s = Some (p, m)"

section \<open>Steps\<close>

text \<open>The handlers, of HTTP requests and of gRPC calls.\<close>

inductive handler_step :: "server_world \<Rightarrow> server_state \<Rightarrow> server_state \<Rightarrow> bool" for w where
  accept: "v_phase s = Serving \<Longrightarrow> v_jobs s i = None \<Longrightarrow> sw_call w c \<Longrightarrow>
     handler_step w s (s\<lparr>v_jobs := (v_jobs s)(i \<mapsto> Called c)\<rparr>)"
| accept_grpc: "v_grpc s \<Longrightarrow> v_jobs s i = None \<Longrightarrow> sw_call w (CallBatch ms) \<Longrightarrow>
     handler_step w s (s\<lparr>v_jobs := (v_jobs s)(i \<mapsto> Called (CallBatch ms))\<rparr>)"
| apply_call: "v_jobs s i = Some (Called c) \<Longrightarrow> sw_sync w \<and> call_accepted c \<Longrightarrow>
     handler_step w s (s\<lparr>v_mem := mem_call_exec c (v_mem s), v_history := v_history s @ [c],
       v_pos := (v_pos s)(i := length (v_history s)), v_jobs := (v_jobs s)(i \<mapsto> Unsaved)\<rparr>)"
| apply_and_return: "v_jobs s i = Some (Called c) \<Longrightarrow> \<not> (sw_sync w \<and> call_accepted c) \<Longrightarrow>
     handler_step w s (s\<lparr>v_mem := mem_call_exec c (v_mem s), v_history := v_history s @ [c],
       v_pos := (v_pos s)(i := length (v_history s)), v_jobs := (v_jobs s)(i := None),
       v_acked := insert (length (v_history s)) (v_acked s)\<rparr>)"
| lock_and_snapshot: "v_jobs s i = Some Unsaved \<Longrightarrow> \<not> v_locked s \<Longrightarrow> sw_plan w p \<Longrightarrow>
     handler_step w s (s\<lparr>v_locked := True, v_jobs := (v_jobs s)(i \<mapsto> Writing p (v_mem s))\<rparr>)"
| write_and_unlock: "v_jobs s i = Some (Writing p m) \<Longrightarrow>
     handler_step w s ((written_out w p m s)\<lparr>v_locked := False, v_jobs := (v_jobs s)(i := None),
       v_acked := insert (v_pos s i) (v_acked s)\<rparr>)"

text \<open>
  The saver goroutine: when both the ticker and the context are ready, \<open>select\<close> may take either, so a tick can
  still happen after the signal.
\<close>

inductive saver_step :: "server_world \<Rightarrow> server_state \<Rightarrow> server_state \<Rightarrow> bool" for w where
  tick: "v_saver s = SaverIdle \<Longrightarrow> sw_plan w p \<Longrightarrow> saver_step w s (s\<lparr>v_saver := SaverWriting p (v_mem s)\<rparr>)"
| tick_write: "v_saver s = SaverWriting p m \<Longrightarrow> saver_step w s ((written_out w p m s)\<lparr>v_saver := SaverIdle\<rparr>)"
| saver_return: "v_saver s = SaverIdle \<Longrightarrow> v_signal s \<Longrightarrow> saver_step w s (s\<lparr>v_saver := SaverGone\<rparr>)"

text \<open>
  The main goroutine; \<open>serve_error\<close> is any other return of \<open>ListenAndServe\<close>. \<open>grpc_stop\<close> is \<open>GracefulStop\<close> (or
  \<open>Stop\<close>, five seconds later) in a goroutine that nothing waits for; \<open>grpc_fail\<close> is a \<open>Serve\<close> that returns.
\<close>

inductive main_step :: "server_world \<Rightarrow> server_state \<Rightarrow> server_state \<Rightarrow> bool" for w where
  signal: "main_step w s (s\<lparr>v_signal := True\<rparr>)"
| serve_closed: "v_phase s = Serving \<Longrightarrow> v_signal s \<Longrightarrow> main_step w s (s\<lparr>v_phase := Closed\<rparr>)"
| serve_error: "v_phase s = Serving \<Longrightarrow> main_step w s (s\<lparr>v_phase := Ended\<rparr>)"
| final_snapshot: "v_phase s = Closed \<Longrightarrow> sw_plan w p \<Longrightarrow>
     main_step w s (s\<lparr>v_phase := Finishing, v_final := Some (p, v_mem s)\<rparr>)"
| final_write: "v_phase s = Finishing \<Longrightarrow> v_final s = Some (p, m) \<Longrightarrow>
     main_step w s ((written_out w p m s)\<lparr>v_phase := Finished, v_final := None\<rparr>)"
| return: "v_phase s = Finished \<Longrightarrow> main_step w s (s\<lparr>v_phase := Ended\<rparr>)"
| grpc_stop: "v_signal s \<Longrightarrow> main_step w s (s\<lparr>v_grpc := False\<rparr>)"
| grpc_fail: "main_step w s (s\<lparr>v_grpc := False\<rparr>)"

inductive server_step :: "server_world \<Rightarrow> server_state \<Rightarrow> server_state \<Rightarrow> bool" for w where
  handler: "v_phase s \<noteq> Ended \<Longrightarrow> handler_step w s s' \<Longrightarrow> server_step w s s'"
| saver: "v_phase s \<noteq> Ended \<Longrightarrow> saver_step w s s' \<Longrightarrow> server_step w s s'"
| main: "v_phase s \<noteq> Ended \<Longrightarrow> main_step w s s' \<Longrightarrow> server_step w s s'"
| kill: "v_phase s \<noteq> Ended \<Longrightarrow> server_step w s (s\<lparr>v_phase := Ended\<rparr>)"
| kill_while_saving: "v_phase s \<noteq> Ended \<Longrightarrow> pending_save s p m \<Longrightarrow> fs \<in> set (save_trace w p m s) \<Longrightarrow>
     server_step w s (s\<lparr>v_disk := fs, v_phase := Ended\<rparr>)"

inductive_cases server_stepE: "server_step w s s'"
inductive_cases handler_stepE: "handler_step w s s'"
inductive_cases saver_stepE: "saver_step w s s'"
inductive_cases main_stepE: "main_step w s s'"

lemma written_out_sel [simp]:
  "v_disk (written_out w p m s) = last (save_trace w p m s)" "v_mem (written_out w p m s) = v_mem s"
  "v_jobs (written_out w p m s) = v_jobs s" "v_saver (written_out w p m s) = v_saver s"
  "v_final (written_out w p m s) = v_final s" "v_history (written_out w p m s) = v_history s"
  "v_phase (written_out w p m s) = v_phase s" "v_locked (written_out w p m s) = v_locked s"
  "v_signal (written_out w p m s) = v_signal s" "v_grpc (written_out w p m s) = v_grpc s"
  "v_pos (written_out w p m s) = v_pos s" "v_acked (written_out w p m s) = v_acked s"
  by (simp_all add: written_out_def)

text \<open>The main goroutine never goes back.\<close>

lemma phase_le [simp]:
  "Serving \<le> a" "a \<le> Ended"
  by (cases a; simp add: less_eq_phase_def)+

lemma server_phase_mono: "server_step w s s' \<Longrightarrow> v_phase s \<le> v_phase s'"
  by (erule server_stepE; (erule handler_stepE | erule saver_stepE | erule main_stepE)?)
    (auto simp: less_eq_phase_def)

lemma server_phase_mono_run: "(server_step w)\<^sup>*\<^sup>* s s' \<Longrightarrow> v_phase s \<le> v_phase s'"
  by (induction rule: rtranclp_induct) (auto dest: server_phase_mono)

section \<open>The file is always a past state of the store\<close>

definition prefix_state :: "mem_store \<Rightarrow> mem_call list \<Rightarrow> mem_store \<Rightarrow> bool" where
  "prefix_state m0 h m \<longleftrightarrow> (\<exists>h1 h2. h = h1 @ h2 \<and> m = mem_run h1 m0)"

definition file_explained :: "server_world \<Rightarrow> mem_store \<Rightarrow> bytes option \<Rightarrow> mem_call list \<Rightarrow> bytes option \<Rightarrow> bool" where
  "file_explained w m0 old h content \<longleftrightarrow> content = old
     \<or> (\<exists>p m. sw_plan w p \<and> prefix_state m0 h m \<and> content = marshal_list (sw_float w) (snapshot_list p m) \<and> content \<noteq> None)"

definition history_inv :: "server_world \<Rightarrow> mem_store \<Rightarrow> bytes option \<Rightarrow> server_state \<Rightarrow> bool" where
  "history_inv w m0 old s \<longleftrightarrow>
     v_mem s = mem_run (v_history s) m0
     \<and> (\<forall>p m. pending_save s p m \<longrightarrow> sw_plan w p \<and> prefix_state m0 (v_history s) m)
     \<and> file_explained w m0 old (v_history s) (v_disk s (sw_path w))"

lemma prefix_state_now: "prefix_state m0 h (mem_run h m0)"
  unfolding prefix_state_def by (rule exI [of _ h]) simp

lemma prefix_state_later: "prefix_state m0 h m \<Longrightarrow> prefix_state m0 (h @ h') m"
  unfolding prefix_state_def by (metis append.assoc)

lemma file_explained_later: "file_explained w m0 old h c \<Longrightarrow> file_explained w m0 old (h @ h') c"
  unfolding file_explained_def using prefix_state_later by blast

definition no_temp_path :: "string \<Rightarrow> bool" where
  "no_temp_path path \<longleftrightarrow> (\<forall>rnd. create_temp_name (dirOf path) rnd \<noteq> path)"

lemma save_trace_path_any:
  assumes "no_temp_path path" "fs' \<in> set (snd (saveMetrics ft p path m fs))"
  shows "fs' path = fs path \<or> (fs' path = marshal_list ft (snapshot_list p m) \<and> fs' path \<noteq> None)"
proof (cases "marshal_list ft (snapshot_list p m)")
  case None
  with assms show ?thesis by (simp add: saveMetrics_def)
next
  case (Some data)
  let ?tmp = "create_temp_name (dirOf path) (rand_part p)"
  have tmp: "?tmp \<noteq> path" using assms(1) by (simp add: no_temp_path_def)
  have "write_states ?tmp data n fs \<noteq> []" for n by (simp add: write_states_def)
  then have "last (write_states ?tmp data n fs) path = fs path" for n
    using write_states_path tmp last_in_set by metis
  with Some tmp assms show ?thesis
    by (auto simp: saveMetrics_def Let_def remove_file_def dest: write_states_path split: if_splits)
qed

lemma save_trace_nonempty [simp]: "save_trace w p m s \<noteq> []"
  by (simp add: save_trace_def saveMetrics_def Let_def split: option.split)

lemma explained_after_save:
  assumes "no_temp_path (sw_path w)" "history_inv w m0 old s" "pending_save s p m" "fs \<in> set (save_trace w p m s)"
  shows "file_explained w m0 old (v_history s) (fs (sw_path w))"
proof -
  consider "fs (sw_path w) = v_disk s (sw_path w)"
    | "fs (sw_path w) = marshal_list (sw_float w) (snapshot_list p m)" "fs (sw_path w) \<noteq> None"
    using save_trace_path_any [OF assms(1)] assms(4) unfolding save_trace_def by blast
  then show ?thesis
  proof cases
    case 1
    then show ?thesis using assms(2) by (simp add: history_inv_def)
  next
    case 2
    then show ?thesis using assms(2,3) unfolding history_inv_def file_explained_def by blast
  qed
qed

lemma pending_save_upd [simp]:
  "pending_save (s\<lparr>v_phase := a\<rparr>) p m = pending_save s p m"
  "pending_save (s\<lparr>v_signal := b\<rparr>) p m = pending_save s p m"
  "pending_save (s\<lparr>v_disk := fs\<rparr>) p m = pending_save s p m"
  by (simp_all add: pending_save_def)

lemma history_inv_step:
  assumes "history_inv w m0 old s" "v_history s' = v_history s @ h" "v_mem s' = mem_run h (v_mem s)"
    and "\<And>p m. pending_save s' p m \<Longrightarrow> pending_save s p m \<or> sw_plan w p \<and> m = v_mem s'"
    and "v_disk s' (sw_path w) = v_disk s (sw_path w) \<or> file_explained w m0 old (v_history s) (v_disk s' (sw_path w))"
  shows "history_inv w m0 old s'"
proof -
  have mem: "v_mem s' = mem_run (v_history s') m0"
    using assms(1-3) by (simp add: history_inv_def mem_run_def)
  moreover have "sw_plan w p \<and> prefix_state m0 (v_history s') m" if "pending_save s' p m" for p m
    using assms(4) [OF that] assms(1,2) mem prefix_state_now prefix_state_later
    by (auto simp: history_inv_def)
  moreover have "file_explained w m0 old (v_history s') (v_disk s' (sw_path w))"
    using assms(1,2,5) file_explained_later by (auto simp: history_inv_def)
  ultimately show ?thesis by (simp add: history_inv_def)
qed

lemma mem_run_simps [simp]: "mem_run [] m = m" "mem_run [c] m = mem_call_exec c m"
  by (simp_all add: mem_run_def)

lemma saved_explained:
  assumes "no_temp_path (sw_path w)" "history_inv w m0 old s" "pending_save s p m"
  shows "file_explained w m0 old (v_history s) (last (save_trace w p m s) (sw_path w))"
  by (rule explained_after_save [OF assms]) simp

lemma history_inv_server_step:
  assumes "no_temp_path (sw_path w)" "history_inv w m0 old s" "server_step w s s'"
  shows "history_inv w m0 old s'"
  using assms(3)
proof cases
  case handler
  from handler(2) show ?thesis
  proof cases
    case (accept i c)
    then show ?thesis by (intro history_inv_step [OF assms(2), where h = "[]"]) (auto simp: pending_save_def)
  next
    case (accept_grpc i ms)
    then show ?thesis by (intro history_inv_step [OF assms(2), where h = "[]"]) (auto simp: pending_save_def)
  next
    case (apply_call i c)
    then show ?thesis by (intro history_inv_step [OF assms(2), where h = "[c]"]) (auto simp: pending_save_def)
  next
    case (apply_and_return i c)
    then show ?thesis by (intro history_inv_step [OF assms(2), where h = "[c]"]) (auto simp: pending_save_def)
  next
    case (lock_and_snapshot i p)
    then show ?thesis by (intro history_inv_step [OF assms(2), where h = "[]"]) (auto simp: pending_save_def)
  next
    case (write_and_unlock i p m)
    then have "pending_save s p m" by (auto simp: pending_save_def intro: range_eqI [where x = i])
    from saved_explained [OF assms(1,2) this] write_and_unlock show ?thesis
      by (intro history_inv_step [OF assms(2), where h = "[]"]) (auto simp: pending_save_def)
  qed
next
  case saver
  from saver(2) show ?thesis
  proof cases
    case (tick p)
    then show ?thesis by (intro history_inv_step [OF assms(2), where h = "[]"]) (auto simp: pending_save_def)
  next
    case (tick_write p m)
    then have "pending_save s p m" by (simp add: pending_save_def)
    from saved_explained [OF assms(1,2) this] tick_write show ?thesis
      by (intro history_inv_step [OF assms(2), where h = "[]"]) (auto simp: pending_save_def)
  next
    case saver_return
    then show ?thesis by (intro history_inv_step [OF assms(2), where h = "[]"]) (auto simp: pending_save_def)
  qed
next
  case main
  from main(2) show ?thesis
  proof cases
    case (final_write p m)
    then have "pending_save s p m" by (simp add: pending_save_def)
    from saved_explained [OF assms(1,2) this] final_write show ?thesis
      by (intro history_inv_step [OF assms(2), where h = "[]"]) (auto simp: pending_save_def)
  qed (intro history_inv_step [OF assms(2), where h = "[]"]; auto simp: pending_save_def)+
next
  case kill
  then show ?thesis by (intro history_inv_step [OF assms(2), where h = "[]"]) auto
next
  case (kill_while_saving p m fs)
  from explained_after_save [OF assms(1,2) kill_while_saving(3,4)] kill_while_saving show ?thesis
    by (intro history_inv_step [OF assms(2), where h = "[]"]) auto
qed

lemma history_inv_start: "history_inv w m0 (fs (sw_path w)) (start_server m0 fs periodic grpc)"
  by (simp add: history_inv_def start_server_def pending_save_def file_explained_def)

lemma history_inv_reachable:
  assumes "no_temp_path (sw_path w)" "(server_step w)\<^sup>*\<^sup>* (start_server m0 fs periodic grpc) s"
  shows "history_inv w m0 (fs (sw_path w)) s"
  using assms(2) by (induction rule: rtranclp_induct)
    (auto intro: history_inv_start history_inv_server_step [OF assms(1)])

text \<open>A list of metrics that has every entry of a store exactly once, and nothing else.\<close>

definition complete_listing :: "metrics list \<Rightarrow> mem_store \<Rightarrow> bool" where
  "complete_listing xs m \<longleftrightarrow> distinct xs
     \<and> set xs = {gauge_metric n v | n v. gauges m n = Some v} \<union> {counter_metric n d | n d. counters m n = Some d}"

definition finite_store :: "mem_store \<Rightarrow> bool" where
  "finite_store m \<longleftrightarrow> finite (dom (gauges m)) \<and> finite (dom (counters m))"

text \<open>\<open>range\<close> visits every key of a map.\<close>

definition plans_range :: "server_world \<Rightarrow> bool" where
  "plans_range w \<longleftrightarrow> (\<forall>p m. sw_plan w p \<longrightarrow> finite_store m \<longrightarrow> ranges_ok p m)"

lemma metric_kinds_differ [simp]: "gauge_metric n v \<noteq> counter_metric k d"
  by (simp add: gauge_metric_def counter_metric_def)

lemma metric_inj [simp]:
  "gauge_metric n v = gauge_metric k u \<longleftrightarrow> n = k \<and> v = u" "counter_metric n d = counter_metric k e \<longleftrightarrow> n = k \<and> d = e"
  by (auto simp: gauge_metric_def counter_metric_def)

lemma distinct_range_pairs: "distinct ks \<Longrightarrow> distinct (range_pairs m ks)"
  by (induction ks) (auto simp: set_range_pairs split: option.split)

lemma snapshot_complete:
  assumes "ranges_ok p m"
  shows "complete_listing (snapshot_list p m) m"
proof -
  have "visits (gauges m) (gauge_order p (gauges m))" "visits (counters m) (counter_order p (counters m))"
    using assms by (simp_all add: ranges_ok_def)
  then show ?thesis
    by (auto simp: complete_listing_def snapshot_list_eq [OF assms] snapshot_of_def set_range_pairs visits_def
        distinct_map distinct_range_pairs inj_on_def image_iff)
qed

lemma finite_store_run: "finite_store m \<Longrightarrow> finite_store (mem_run h m)"
proof (induction h arbitrary: m)
  case (Cons c h)
  have apply_one: "finite_store k \<Longrightarrow> finite_store (mem_apply x k)" for x k
    by (auto simp: finite_store_def mem_apply_def mem_UpdateGauge_def mem_UpdateCounter_def split: option.split)
  have "finite_store k \<Longrightarrow> finite_store (fold mem_apply xs k)" for xs k
    by (induction xs arbitrary: k) (simp_all add: apply_one)
  with Cons.prems have "finite_store (mem_call_exec c m)"
    by (cases c) (simp_all add: mem_batch_takeWhile, simp_all add: finite_store_def mem_UpdateGauge_def mem_UpdateCounter_def)
  from Cons.IH [OF this] show ?case by (simp add: mem_run_def)
qed simp

text \<open>C5: Whatever the interleaving of handlers, periodic saver and final snapshot, whatever becomes of each file
  operation, and even when the process is killed in the middle of any save, the snapshot file holds what it held at
  the start or one complete document: a list that has every metric of the store, as it was after some prefix of the
  calls, exactly once. Ranging over a map visits every key, and no temporary name is that of the file.\<close>
theorem file_is_a_past_state:
  assumes "no_temp_path (sw_path w)" and "plans_range w" and "finite_store m0"
    and "(server_step w)\<^sup>*\<^sup>* (start_server m0 fs periodic grpc) s"
  shows "v_disk s (sw_path w) = fs (sw_path w)
    \<or> (\<exists>xs h1 h2. v_history s = h1 @ h2 \<and> complete_listing xs (mem_run h1 m0)
         \<and> v_disk s (sw_path w) = marshal_list (sw_float w) xs \<and> v_disk s (sw_path w) \<noteq> None)"
proof -
  consider "v_disk s (sw_path w) = fs (sw_path w)"
    | p h1 h2 where "sw_plan w p" "v_history s = h1 @ h2" "v_disk s (sw_path w) \<noteq> None"
        "v_disk s (sw_path w) = marshal_list (sw_float w) (snapshot_list p (mem_run h1 m0))"
    using history_inv_reachable [OF assms(1,4)] unfolding history_inv_def file_explained_def prefix_state_def by blast
  then show ?thesis
  proof cases
    case (2 p h1 h2)
    have "ranges_ok p (mem_run h1 m0)" using assms(2) 2(1) finite_store_run [OF assms(3)] by (simp add: plans_range_def)
    with 2 snapshot_complete show ?thesis by blast
  qed simp
qed

end
