(* ===== verification/Server_Shutdown.thy ===== *)
theory Server_Shutdown
  imports Server_Run
begin

text \<open>
  The shutdown of \<open>cmd/server/main.go\<close> over the steps of \<open>Server_Run\<close>: what a final snapshot guarantees when
  nothing else is running, and the runs in which a save or an update comes too late.
\<close>

section \<open>Benign environments\<close>

definition storable :: "mem_store \<Rightarrow> bool" where
  "storable m \<longleftrightarrow> persistable m \<and> finite (dom (gauges m)) \<and> finite (dom (counters m))"

fun call_storable :: "mem_call \<Rightarrow> bool" where
  "call_storable (CallGauge n v) = (valid_utf8 n \<and> float_finite v)"
| "call_storable (CallCounter n d) = valid_utf8 n"
| "call_storable (CallBatch xs) = (list_all known_type xs \<and> list_all wire_ok xs)"

text \<open>Clients send valid names and finite values, saves meet no I/O error.\<close>

definition benign :: "server_world \<Rightarrow> bool" where
  "benign w \<longleftrightarrow> float_text_ok (sw_float w) \<and> no_temp_path (sw_path w)
     \<and> (\<forall>c. sw_call w c \<longrightarrow> call_storable c \<and> call_accepted c)
     \<and> (\<forall>p. sw_plan w p \<longrightarrow> io_good p \<and> (\<forall>m. storable m \<longrightarrow> ranges_ok p m))"

lemma storable_update:
  assumes "storable m" "valid_utf8 n"
  shows "storable (mem_UpdateCounter n d m)" "float_finite v \<Longrightarrow> storable (mem_UpdateGauge n v m)"
  using assms by (auto simp: storable_def persistable_def mem_UpdateCounter_def mem_UpdateGauge_def ran_def)

lemma storable_apply: "storable m \<Longrightarrow> wire_ok x \<Longrightarrow> storable (mem_apply x m)"
  by (auto simp: mem_apply_def wire_ok_def intro: storable_update split: option.split)

lemma storable_fold: "list_all wire_ok xs \<Longrightarrow> storable m \<Longrightarrow> storable (fold mem_apply xs m)"
  by (induction xs arbitrary: m) (simp_all add: storable_apply)

lemma storable_call: "storable m \<Longrightarrow> call_storable c \<Longrightarrow> storable (mem_call_exec c m)"
  by (cases c) (simp_all add: storable_update mem_batch_known storable_fold)

lemma storable_New [simp]: "storable NewMemStorage"
  by (simp add: storable_def persistable_def)

definition file_holds :: "server_world \<Rightarrow> mem_store \<Rightarrow> file_system \<Rightarrow> bool" where
  "file_holds w m fs \<longleftrightarrow> loadMetrics (sw_float w) True (sw_path w) fs NewMemStorage = (None, m)"

definition temps_free :: "server_world \<Rightarrow> file_system \<Rightarrow> bool" where
  "temps_free w fs \<longleftrightarrow> (\<forall>rnd. fs (create_temp_name (dirOf (sw_path w)) rnd) = None)"

lemma benign_save:
  assumes "benign w" "sw_plan w p" "storable m" "temps_free w (v_disk s)"
  shows "file_holds w m (last (save_trace w p m s))" "temps_free w (last (save_trace w p m s))"
proof -
  have ok: "float_text_ok (sw_float w)" "ranges_ok p m" "persistable m" "io_good p"
    "v_disk s (create_temp_name (dirOf (sw_path w)) (rand_part p)) = None"
    using assms by (simp_all add: benign_def storable_def temps_free_def)
  from save_success [where fs = "v_disk s" and path = "sw_path w", OF ok] load_snapshot [OF ok(2)]
  show "file_holds w m (last (save_trace w p m s))"
    by (auto simp: file_holds_def save_trace_def loadMetrics_def read_file_def)
  show "temps_free w (last (save_trace w p m s))"
    using assms(1,4) ok(4)
    by (auto simp: temps_free_def save_trace_def saveMetrics_def Let_def io_good_def benign_def no_temp_path_def
        split: option.split)
qed

lemma document_holds:
  assumes "benign w" "sw_plan w p" "storable m"
    and "fs (sw_path w) = marshal_list (sw_float w) (snapshot_list p m)" "fs (sw_path w) \<noteq> None"
  shows "file_holds w m fs"
  unfolding file_holds_def
  by (rule document_restores [where fs = fs and path = "sw_path w" and p = p])
    (use assms in \<open>simp_all add: benign_def storable_def\<close>)

lemma benign_call: "benign w \<Longrightarrow> sw_call w c \<Longrightarrow> call_storable c \<and> call_accepted c"
  by (simp add: benign_def)

section \<open>Quiet shutdown\<close>

text \<open>
  After serving has ended with no handler running, the store is fixed at \<open>M\<close> and every snapshot still to be
  written is one of \<open>M\<close>.
\<close>

definition quiet :: "server_world \<Rightarrow> mem_store \<Rightarrow> server_state \<Rightarrow> bool" where
  "quiet w M s \<longleftrightarrow> v_mem s = M \<and> v_jobs s = Map.empty \<and> \<not> v_grpc s \<and> v_phase s \<noteq> Serving
     \<and> (\<forall>p m. pending_save s p m \<longrightarrow> m = M \<and> sw_plan w p)
     \<and> (v_phase s \<noteq> Ended \<longrightarrow> temps_free w (v_disk s))
     \<and> (v_phase s = Finished \<longrightarrow> file_holds w M (v_disk s))"

lemma quiet_step:
  assumes "benign w" "storable M" "quiet w M s" "server_step w s s'"
  shows "quiet w M s'"
proof -
  note save = benign_save [OF assms(1) _ assms(2)]
  from assms(3) have q: "v_mem s = M" "v_jobs s = Map.empty \<and> \<not> v_grpc s" "v_phase s \<noteq> Serving"
    "\<And>p m. pending_save s p m \<Longrightarrow> m = M \<and> sw_plan w p"
    by (auto simp: quiet_def)
  from assms(4) show ?thesis
  proof cases
    case handler
    from handler(2) show ?thesis by cases (use q(2,3) in simp_all)
  next
    case saver
    from saver(2) show ?thesis
    proof cases
      case (tick_write p m)
      then have "m = M" "sw_plan w p" using q(4) [of p m] by (simp_all add: pending_save_def)
      with save [of p s] assms(3) saver(1) tick_write show ?thesis by (auto simp: quiet_def pending_save_def)
    qed (use assms(3) saver(1) in \<open>auto simp: quiet_def pending_save_def\<close>)
  next
    case main
    from main(2) show ?thesis
    proof cases
      case (final_write p m)
      then have "m = M" "sw_plan w p" using q(4) [of p m] by (simp_all add: pending_save_def)
      with save [of p s] assms(3) main(1) final_write show ?thesis by (auto simp: quiet_def pending_save_def)
    qed (use assms(3) main(1) in \<open>auto simp: quiet_def pending_save_def\<close>)
  next
    case kill
    with assms(3) show ?thesis by (simp add: quiet_def)
  next
    case (kill_while_saving p m fs)
    with assms(3) kill_while_saving(1) show ?thesis by (auto simp: quiet_def)
  qed
qed

text \<open>C12: If the names in the store are valid UTF-8 and its gauges finite, saves meet no I/O error and no file with
  the name of a temporary one is left, and no handler, no gRPC server and no periodic save is running when
  \<open>ListenAndServe\<close> has returned, then whatever the saver does meanwhile, the file left when the final snapshot has
  been written restores exactly the metrics the server held. (With a gauge that is not a number, or with an I/O error, the final save
  fails, and what came after the last good one is lost.)\<close>
theorem quiet_shutdown_loses_nothing:
  assumes "benign w" and "v_phase s = Closed" and "v_jobs s = Map.empty" and "\<not> v_grpc s" and "v_final s = None"
    and "v_saver s = SaverIdle \<or> v_saver s = SaverGone" and "storable (v_mem s)" and "temps_free w (v_disk s)"
    and "(server_step w)\<^sup>*\<^sup>* s s'" and "v_phase s' = Finished"
  shows "v_mem s' = v_mem s \<and> loadMetrics (sw_float w) True (sw_path w) (v_disk s') NewMemStorage = (None, v_mem s)"
proof -
  have "quiet w (v_mem s) s"
    using assms(2-6,8) by (auto simp: quiet_def pending_save_def)
  with assms(9) have "quiet w (v_mem s) s'"
    by (induction rule: rtranclp_induct) (auto intro: quiet_step [OF assms(1,7)])
  then show ?thesis using assms(10) by (simp add: quiet_def file_holds_def)
qed

definition demo_world :: "bool \<Rightarrow> server_world" where
  "demo_world sync = \<lparr>sw_float = bits_text, sw_path = ''d/m'', sw_sync = sync,
     sw_call = (\<lambda>c. c = CallCounter ''c'' 1), sw_plan = (\<lambda>p. p = good_plan)\<rparr>"

lemma demo_world_sel [simp]:
  "sw_float (demo_world b) = bits_text" "sw_path (demo_world b) = ''d/m''" "sw_sync (demo_world b) = b"
  "sw_call (demo_world b) c \<longleftrightarrow> c = CallCounter ''c'' 1" "sw_plan (demo_world b) p \<longleftrightarrow> p = good_plan"
  by (simp_all add: demo_world_def)

lemma demo_temp_name: "create_temp_name (dirOf ''d/m'') rnd = ''d/metrics-'' @ rnd @ ''.tmp''"
  using staging_directory [of "''m''" "''d''" rnd] by (simp add: is_sep_def)

lemma demo_benign: "benign (demo_world b)"
  by (auto simp: benign_def bits_text_ok no_temp_path_def demo_temp_name storable_def good_plan_ranges
      valid_utf8_ascii byte_in_def)

definition one_count :: mem_store where
  "one_count = mem_UpdateCounter ''c'' 1 NewMemStorage"

lemma one_count_storable: "storable one_count"
  unfolding one_count_def by (rule storable_update) (simp_all add: valid_utf8_ascii byte_in_def)

lemma temps_free_empty [simp]: "temps_free w Map.empty"
  by (simp add: temps_free_def)

text \<open>A server about to write its final snapshot, and the end of that write.\<close>

definition closing :: "mem_store \<Rightarrow> saver \<Rightarrow> server_state" where
  "closing m sv = \<lparr>v_mem = m, v_disk = Map.empty, v_phase = Closed, v_signal = True, v_jobs = Map.empty,
     v_locked = False, v_saver = sv, v_final = None, v_history = [CallCounter ''c'' 1],
     v_grpc = False, v_pos = (\<lambda>_. 0), v_acked = {0}\<rparr>"

definition final_state :: "server_world \<Rightarrow> mem_store \<Rightarrow> saver \<Rightarrow> server_state" where
  "final_state w m sv = (written_out w good_plan m (closing m sv))\<lparr>v_phase := Finished\<rparr>"

lemma closing_finishes:
  assumes "sw_plan w good_plan"
  shows "(server_step w)\<^sup>*\<^sup>* (closing m sv) (final_state w m sv)"
proof -
  let ?s = "(closing m sv)\<lparr>v_phase := Finishing, v_final := Some (good_plan, m)\<rparr>"
  have "server_step w (closing m sv) ((closing m sv)\<lparr>v_phase := Finishing,
      v_final := Some (good_plan, v_mem (closing m sv))\<rparr>)"
    by (intro server_step.main main_step.final_snapshot assms) (simp_all add: closing_def)
  moreover have "server_step w ?s ((written_out w good_plan m ?s)\<lparr>v_phase := Finished, v_final := None\<rparr>)"
    by (intro server_step.main main_step.final_write) simp_all
  moreover have "(written_out w good_plan m ?s)\<lparr>v_phase := Finished, v_final := None\<rparr> = final_state w m sv"
    by (simp add: final_state_def written_out_def save_trace_def closing_def)
  ultimately show ?thesis by (simp add: closing_def converse_rtranclp_into_rtranclp)
qed

theorem quiet_shutdown_loses_nothing_witness:
  "v_phase (final_state (demo_world False) one_count SaverIdle) = Finished
   \<and> loadMetrics bits_text True ''d/m'' (v_disk (final_state (demo_world False) one_count SaverIdle)) NewMemStorage
      = (None, one_count)"
proof -
  have f: "v_phase (final_state (demo_world False) one_count SaverIdle) = Finished" by (simp add: final_state_def)
  show ?thesis
    using quiet_shutdown_loses_nothing [OF demo_benign _ _ _ _ _ _ _ closing_finishes f] one_count_storable f
    by (simp add: closing_def)
qed

section \<open>A save that comes too late\<close>

text \<open>One request served to its end, from the start to the return of \<open>ListenAndServe\<close>.\<close>

lemma mem_call_one: "mem_UpdateCounter ''c'' 1 NewMemStorage = one_count"
  by (simp add: one_count_def)

lemma serve_one_request:
  assumes "w = demo_world False"
  shows "(server_step w)\<^sup>*\<^sup>* ((start_server NewMemStorage Map.empty True False)\<lparr>v_saver := sv\<rparr>) (closing one_count sv)"
proof -
  let ?s0 = "(start_server NewMemStorage Map.empty True False)\<lparr>v_saver := sv\<rparr>"
  let ?s1 = "?s0\<lparr>v_jobs := [0 \<mapsto> Called (CallCounter ''c'' 1)]\<rparr>"
  let ?s2 = "?s0\<lparr>v_mem := one_count, v_history := [CallCounter ''c'' 1], v_acked := {0}\<rparr>"
  have "server_step w ?s0 (?s0\<lparr>v_jobs := (v_jobs ?s0)(0 \<mapsto> Called (CallCounter ''c'' 1))\<rparr>)"
    by (intro server_step.handler handler_step.accept) (simp_all add: start_server_def assms)
  moreover have "server_step w ?s1 (?s1\<lparr>v_mem := mem_call_exec (CallCounter ''c'' 1) (v_mem ?s1),
      v_history := v_history ?s1 @ [CallCounter ''c'' 1], v_pos := (v_pos ?s1)(0 := length (v_history ?s1)),
      v_jobs := (v_jobs ?s1)(0 := None), v_acked := insert (length (v_history ?s1)) (v_acked ?s1)\<rparr>)"
    by (intro server_step.handler handler_step.apply_and_return) (simp_all add: start_server_def assms)
  moreover have "server_step w ?s2 (?s2\<lparr>v_signal := True\<rparr>)"
    by (intro server_step.main main_step.signal) (simp add: start_server_def)
  moreover have "server_step w (?s2\<lparr>v_signal := True\<rparr>) (?s2\<lparr>v_signal := True, v_phase := Closed\<rparr>)"
    using main_step.serve_closed [of "?s2\<lparr>v_signal := True\<rparr>" w]
    by (intro server_step.main) (simp_all add: start_server_def)
  moreover have "?s2\<lparr>v_signal := True, v_phase := Closed\<rparr> = closing one_count sv"
    by (simp add: start_server_def closing_def)
  ultimately show ?thesis
    using assms by (simp add: start_server_def mem_call_one fun_upd_idem converse_rtranclp_into_rtranclp)
qed

text \<open>The final snapshot can be undone: the periodic saver, which holds no lock and is not waited for, may have
  taken its snapshot before the last request and write it after the final one. In such a run no handler is
  in flight at the end and every save succeeds, and yet the counter the client was told about is not in the file
  the server leaves.\<close>
lemma late_periodic_save_loses_updates:
  "\<exists>s. (server_step (demo_world False))\<^sup>*\<^sup>* (start_server NewMemStorage Map.empty True False) s
     \<and> v_phase s = Finished \<and> v_jobs s = Map.empty \<and> v_history s = [CallCounter ''c'' 1]
     \<and> counters (v_mem s) ''c'' = Some 1
     \<and> loadMetrics bits_text True ''d/m'' (v_disk s) NewMemStorage = (None, NewMemStorage)"
proof -
  let ?w = "demo_world False" and ?sv = "SaverWriting good_plan NewMemStorage"
  let ?f = "final_state ?w one_count ?sv"
  let ?s = "(written_out ?w good_plan NewMemStorage ?f)\<lparr>v_saver := SaverIdle\<rparr>"
  have "server_step ?w (start_server NewMemStorage Map.empty True False)
      ((start_server NewMemStorage Map.empty True False)\<lparr>v_saver := SaverWriting good_plan
         (v_mem (start_server NewMemStorage Map.empty True False))\<rparr>)"
    by (intro server_step.saver saver_step.tick) (simp_all add: start_server_def)
  also have "(server_step ?w)\<^sup>*\<^sup>* \<dots> (closing one_count ?sv)"
    using serve_one_request [of ?w ?sv] by (simp add: start_server_def)
  also have "(server_step ?w)\<^sup>*\<^sup>* \<dots> ?f" by (rule closing_finishes) simp
  also have "server_step ?w ?f ?s"
    by (intro server_step.saver saver_step.tick_write) (simp_all add: final_state_def closing_def)
  finally have reach: "(server_step ?w)\<^sup>*\<^sup>* (start_server NewMemStorage Map.empty True False) ?s" .
  have "temps_free ?w (v_disk ?f)"
    using benign_save(2) [OF demo_benign _ one_count_storable, of False good_plan "closing one_count ?sv"]
    by (simp add: final_state_def closing_def)
  then have "file_holds ?w NewMemStorage (v_disk ?s)"
    using benign_save(1) [OF demo_benign _ storable_New, of False good_plan ?f] by simp
  then have "loadMetrics bits_text True ''d/m'' (v_disk ?s) NewMemStorage = (None, NewMemStorage)"
    by (simp add: file_holds_def)
  moreover have "v_phase ?s = Finished" "v_jobs ?s = Map.empty" "v_history ?s = [CallCounter ''c'' 1]"
    "counters (v_mem ?s) ''c'' = Some 1"
    by (simp_all add: final_state_def closing_def one_count_def mem_UpdateCounter_def)
  ultimately show ?thesis using reach by blast
qed

end
