(* ===== verification/Server_Sync.thy ===== *)
theory Server_Sync
  imports Server_Shutdown
begin

text \<open>
  \<open>syncStorage\<close> under concurrent handlers: what its file holds at quiet moments, and what a crash at any moment
  leaves of the calls that have been answered.
\<close>

section \<open>Synchronous mode with concurrent handlers\<close>

text \<open>
  Until the final snapshot: a snapshot being written is the present store unless some handler still has to save,
  and when no handler has to, the file holds the present store.
\<close>

definition some_unsaved :: "server_state \<Rightarrow> bool" where
  "some_unsaved s \<longleftrightarrow> Some Unsaved \<in> range (v_jobs s)"

definition sync_inv :: "server_world \<Rightarrow> server_state \<Rightarrow> bool" where
  "sync_inv w s \<longleftrightarrow> storable (v_mem s) \<and> temps_free w (v_disk s) \<and> v_saver s = SaverGone \<and> v_final s = None
     \<and> (\<forall>i c. v_jobs s i = Some (Called c) \<longrightarrow> sw_call w c)
     \<and> (\<forall>i p m. v_jobs s i = Some (Writing p m) \<longrightarrow> v_locked s \<and> sw_plan w p \<and> storable m)
     \<and> (\<forall>i p m. v_jobs s i = Some (Writing p m) \<longrightarrow> m = v_mem s \<or> some_unsaved s)
     \<and> (\<forall>i j p m q k. v_jobs s i = Some (Writing p m) \<longrightarrow> v_jobs s j = Some (Writing q k) \<longrightarrow> i = j)
     \<and> (v_history s = [] \<or> some_unsaved s \<or> (\<exists>i p. v_jobs s i = Some (Writing p (v_mem s)))
        \<or> file_holds w (v_mem s) (v_disk s))"

lemma some_unsaved_upd:
  "v_jobs s i = Some Unsaved \<Longrightarrow> some_unsaved s"
  "some_unsaved s \<longleftrightarrow> (\<exists>i. v_jobs s i = Some Unsaved)"
  by (auto simp: some_unsaved_def image_iff) metis+

lemma some_unsaved_same:
  assumes "v_jobs s i \<noteq> Some Unsaved" "x \<noteq> Some Unsaved" "v_jobs s' = (v_jobs s)(i := x)"
  shows "some_unsaved s' \<longleftrightarrow> some_unsaved s"
  unfolding some_unsaved_upd(2) assms(3) using assms(1,2) by (metis fun_upd_apply)

lemma sync_inv_handler:
  assumes "benign w" "sw_sync w" "sync_inv w s" "handler_step w s s'"
  shows "sync_inv w s'"
  using assms(4)
proof cases
  case (accept i c)
  have u: "some_unsaved s' \<longleftrightarrow> some_unsaved s"
    by (rule some_unsaved_same [of s i "Some (Called c)"]) (use accept in simp_all)
  have wr: "v_jobs s' j = Some (Writing q m) \<longleftrightarrow> v_jobs s j = Some (Writing q m)" for j q m
    using accept by auto
  have c: "\<forall>j d. v_jobs s' j = Some (Called d) \<longrightarrow> sw_call w d"
    using assms(3) accept by (auto simp: sync_inv_def)
  have sel: "v_mem s' = v_mem s" "v_disk s' = v_disk s" "v_saver s' = v_saver s" "v_final s' = v_final s"
    "v_locked s' = v_locked s" "v_history s' = v_history s"
    using accept by simp_all
  from assms(3) c show ?thesis unfolding sync_inv_def wr u sel by (elim conjE) (intro conjI; assumption)
next
  case (accept_grpc i ms)
  have u: "some_unsaved s' \<longleftrightarrow> some_unsaved s"
    by (rule some_unsaved_same [of s i "Some (Called (CallBatch ms))"]) (use accept_grpc in simp_all)
  have wr: "v_jobs s' j = Some (Writing q m) \<longleftrightarrow> v_jobs s j = Some (Writing q m)" for j q m
    using accept_grpc by auto
  have c: "\<forall>j d. v_jobs s' j = Some (Called d) \<longrightarrow> sw_call w d"
    using assms(3) accept_grpc by (auto simp: sync_inv_def)
  have sel: "v_mem s' = v_mem s" "v_disk s' = v_disk s" "v_saver s' = v_saver s" "v_final s' = v_final s"
    "v_locked s' = v_locked s" "v_history s' = v_history s"
    using accept_grpc by simp_all
  from assms(3) c show ?thesis unfolding sync_inv_def wr u sel by (elim conjE) (intro conjI; assumption)
next
  case (apply_and_return i c)
  then have "call_accepted c" using assms(3) benign_call [OF assms(1)] by (simp add: sync_inv_def)
  with apply_and_return assms(2) show ?thesis by simp
next
  case (apply_call i c)
  have "sw_call w c" using assms(3) apply_call by (simp add: sync_inv_def)
  then have c: "call_storable c" "call_accepted c" using benign_call [OF assms(1)] by simp_all
  have u: "some_unsaved s'" unfolding some_unsaved_upd(2) using apply_call c assms(2) by auto
  have wr: "v_jobs s' j = Some (Writing q m) \<longleftrightarrow> v_jobs s j = Some (Writing q m)" for j q m
    using apply_call by auto
  have "storable (v_mem s')" using assms(3) apply_call c storable_call by (simp add: sync_inv_def)
  moreover have "\<forall>j d. v_jobs s' j = Some (Called d) \<longrightarrow> sw_call w d"
    using assms(3) apply_call by (auto simp: sync_inv_def split: if_splits)
  moreover have sel: "v_disk s' = v_disk s" "v_saver s' = v_saver s" "v_final s' = v_final s" "v_locked s' = v_locked s"
    using apply_call by simp_all
  ultimately show ?thesis using assms(3) u unfolding sync_inv_def wr sel by simp
next
  case (lock_and_snapshot i p)
  then have none: "v_jobs s j \<noteq> Some (Writing q m)" for j q m using assms(3) by (auto simp: sync_inv_def)
  then have wr: "v_jobs s' j = Some (Writing q m) \<longleftrightarrow> j = i \<and> q = p \<and> m = v_mem s" for j q m
    using lock_and_snapshot by auto
  have c: "\<forall>j d. v_jobs s' j = Some (Called d) \<longrightarrow> sw_call w d"
    using assms(3) lock_and_snapshot by (auto simp: sync_inv_def)
  have sel: "v_mem s' = v_mem s" "v_disk s' = v_disk s" "v_saver s' = v_saver s" "v_final s' = v_final s" "v_locked s'"
    using lock_and_snapshot by simp_all
  with assms(3) c lock_and_snapshot(4) show ?thesis unfolding sync_inv_def wr sel by simp
next
  case (write_and_unlock i p m)
  have one: "v_jobs s j = Some (Writing q k) \<longrightarrow> j = i" for j q k
    using assms(3) write_and_unlock unfolding sync_inv_def by blast
  have wr: "v_jobs s' j \<noteq> Some (Writing q k)" for j q k
    using one [of j q k] write_and_unlock by auto
  have u: "some_unsaved s' \<longleftrightarrow> some_unsaved s"
    by (rule some_unsaved_same [of s i None]) (use write_and_unlock in simp_all)
  have m: "sw_plan w p" "storable m" "m = v_mem s \<or> some_unsaved s" "temps_free w (v_disk s)"
    using assms(3) write_and_unlock unfolding sync_inv_def by blast+
  note save = benign_save [OF assms(1) m(1,2,4)]
  have c: "\<forall>j d. v_jobs s' j = Some (Called d) \<longrightarrow> sw_call w d"
    using assms(3) write_and_unlock by (auto simp: sync_inv_def)
  have sel: "v_mem s' = v_mem s" "v_disk s' = last (save_trace w p m s)" "v_saver s' = v_saver s"
    "v_final s' = v_final s" "v_history s' = v_history s"
    using write_and_unlock by simp_all
  have "some_unsaved s \<or> file_holds w (v_mem s) (last (save_trace w p m s))" using m(3) save(1) by blast
  with assms(3) c save(2) wr show ?thesis unfolding sync_inv_def u sel by simp
qed

lemma sync_inv_step:
  assumes "benign w" "sw_sync w" "v_phase s \<le> Closed \<Longrightarrow> sync_inv w s" "server_step w s s'" "v_phase s' \<le> Closed"
  shows "sync_inv w s'"
proof -
  have "sync_inv w s" using assms(3-5) server_phase_mono order_trans by blast
  from assms(4) show ?thesis
  proof cases
    case handler
    then show ?thesis using sync_inv_handler [OF assms(1,2) \<open>sync_inv w s\<close>] by simp
  next
    case saver
    from saver(2) \<open>sync_inv w s\<close> show ?thesis by cases (simp_all add: sync_inv_def)
  next
    case main
    from main(2) \<open>sync_inv w s\<close> assms(5) show ?thesis
      by cases (simp_all add: sync_inv_def some_unsaved_def less_eq_phase_def)
  qed (use assms(5) in \<open>simp_all add: less_eq_phase_def\<close>)
qed

text \<open>C6: In synchronous mode with any number of concurrent handlers, let the clients send valid UTF-8 strings, finite
  gauges and batches without an unknown type, let the store start with such metrics, and let saves meet
  no I/O error and no file with the name of a temporary one. Then at every moment before the final snapshot at which
  some call has been applied and no handler stands between its update and the end of its save, the file restores
  exactly the metrics in memory: the mutex around the save is enough although the update itself is outside it.\<close>
theorem sync_file_is_current:
  assumes "benign w" and "sw_sync w" and "storable m0" and "temps_free w fs"
    and "(server_step w)\<^sup>*\<^sup>* (start_server m0 fs False grpc) s" and "v_phase s \<le> Closed" and "v_history s \<noteq> []"
    and "\<forall>j. v_jobs s j = None \<or> (\<exists>c. v_jobs s j = Some (Called c))"
  shows "loadMetrics (sw_float w) True (sw_path w) (v_disk s) NewMemStorage = (None, v_mem s)"
proof -
  have "v_phase s \<le> Closed \<longrightarrow> sync_inv w s"
    using assms(5)
  proof (induction rule: rtranclp_induct)
    case base
    show ?case using assms(3,4) by (simp add: sync_inv_def start_server_def)
  next
    case (step y z)
    then show ?case using sync_inv_step [OF assms(1,2)] by blast
  qed
  moreover have "\<not> some_unsaved s" "v_jobs s i \<noteq> Some (Writing p m)" for i p m
    using assms(8) by (auto simp: some_unsaved_upd(2)) (metis job.distinct option.distinct(1) option.inject)+
  ultimately show ?thesis using assms(6,7) unfolding sync_inv_def file_holds_def by blast
qed

text \<open>A synchronous server after one request.\<close>

definition one_saved :: server_state where
  "one_saved = (written_out (demo_world True) good_plan one_count
     ((start_server NewMemStorage Map.empty False False)\<lparr>v_mem := one_count, v_history := [CallCounter ''c'' 1]\<rparr>))
     \<lparr>v_locked := False, v_jobs := Map.empty, v_acked := {0}\<rparr>"

lemma one_saved_reachable:
  "(server_step (demo_world True))\<^sup>*\<^sup>* (start_server NewMemStorage Map.empty False False) one_saved"
proof -
  let ?w = "demo_world True" and ?c = "CallCounter ''c'' 1"
  let ?s0 = "start_server NewMemStorage Map.empty False False"
  let ?s1 = "?s0\<lparr>v_jobs := [0 \<mapsto> Called ?c]\<rparr>"
  let ?s2 = "?s0\<lparr>v_mem := one_count, v_history := [?c], v_jobs := [0 \<mapsto> Unsaved]\<rparr>"
  let ?s3 = "?s2\<lparr>v_locked := True, v_jobs := [0 \<mapsto> Writing good_plan one_count]\<rparr>"
  have "server_step ?w ?s0 (?s0\<lparr>v_jobs := (v_jobs ?s0)(0 \<mapsto> Called ?c)\<rparr>)"
    by (intro server_step.handler handler_step.accept) (simp_all add: start_server_def)
  moreover have "server_step ?w ?s1 (?s1\<lparr>v_mem := mem_call_exec ?c (v_mem ?s1), v_history := v_history ?s1 @ [?c],
      v_pos := (v_pos ?s1)(0 := length (v_history ?s1)), v_jobs := (v_jobs ?s1)(0 \<mapsto> Unsaved)\<rparr>)"
    by (intro server_step.handler handler_step.apply_call) (simp_all add: start_server_def)
  moreover have "server_step ?w ?s2 (?s2\<lparr>v_locked := True, v_jobs := (v_jobs ?s2)(0 \<mapsto> Writing good_plan (v_mem ?s2))\<rparr>)"
    by (intro server_step.handler handler_step.lock_and_snapshot) (simp_all add: start_server_def)
  moreover have "server_step ?w ?s3 ((written_out ?w good_plan one_count ?s3)
      \<lparr>v_locked := False, v_jobs := (v_jobs ?s3)(0 := None),
        v_acked := insert (v_pos ?s3 0) (v_acked ?s3)\<rparr>)"
    by (intro server_step.handler handler_step.write_and_unlock) (simp_all add: start_server_def)
  moreover have "(written_out ?w good_plan one_count ?s3)\<lparr>v_locked := False, v_jobs := (v_jobs ?s3)(0 := None),
        v_acked := insert (v_pos ?s3 0) (v_acked ?s3)\<rparr>
      = one_saved"
    by (simp add: one_saved_def written_out_def save_trace_def start_server_def)
  ultimately show ?thesis
    by (simp add: start_server_def mem_call_one fun_upd_idem converse_rtranclp_into_rtranclp)
qed

theorem sync_file_is_current_witness:
  "loadMetrics bits_text True ''d/m'' (v_disk one_saved) NewMemStorage = (None, one_count)"
proof -
  have "v_phase one_saved \<le> Closed" "v_history one_saved \<noteq> []" "v_mem one_saved = one_count"
    "\<forall>j. v_jobs one_saved j = None \<or> (\<exists>c. v_jobs one_saved j = Some (Called c))"
    by (simp_all add: one_saved_def start_server_def)
  with sync_file_is_current [OF demo_benign _ storable_New temps_free_empty one_saved_reachable]
  show ?thesis by simp
qed

lemma demo_plans_range: "plans_range (demo_world b)"
  by (simp add: plans_range_def finite_store_def good_plan_ranges)

theorem file_is_a_past_state_witness:
  "v_disk one_saved ''d/m'' = Map.empty ''d/m''
   \<or> (\<exists>xs h1 h2. v_history one_saved = h1 @ h2 \<and> complete_listing xs (mem_run h1 NewMemStorage)
        \<and> v_disk one_saved ''d/m'' = marshal_list bits_text xs \<and> v_disk one_saved ''d/m'' \<noteq> None)"
  using file_is_a_past_state [OF _ demo_plans_range _ one_saved_reachable] demo_benign [of True]
  by (simp add: benign_def finite_store_def)

section \<open>What a crash leaves\<close>

text \<open>The file systems a kill at this moment may leave behind.\<close>

definition crash_disk :: "server_world \<Rightarrow> server_state \<Rightarrow> file_system \<Rightarrow> bool" where
  "crash_disk w s fs \<longleftrightarrow> fs = v_disk s \<or> (\<exists>p m. pending_save s p m \<and> fs \<in> set (save_trace w p m s))"

text \<open>The file covers the answered calls: it restores the first \<open>k\<close> calls, and no answered call is later.\<close>

definition covers :: "mem_store \<Rightarrow> server_state \<Rightarrow> nat \<Rightarrow> mem_store \<Rightarrow> bool" where
  "covers m0 s k m \<longleftrightarrow> k \<le> length (v_history s) \<and> (\<forall>a \<in> v_acked s. a < k) \<and> m = mem_run (take k (v_history s)) m0"

definition ack_inv :: "server_world \<Rightarrow> mem_store \<Rightarrow> bytes option \<Rightarrow> server_state \<Rightarrow> bool" where
  "ack_inv w m0 old s \<longleftrightarrow> sync_inv w s \<and> list_all call_storable (v_history s) \<and> v_mem s = mem_run (v_history s) m0
     \<and> (\<forall>a \<in> v_acked s. a < length (v_history s))
     \<and> (\<forall>i. v_jobs s i = Some Unsaved \<longrightarrow> v_pos s i < length (v_history s))
     \<and> (\<forall>i p m. v_jobs s i = Some (Writing p m) \<longrightarrow> (\<exists>k. v_pos s i < k \<and> covers m0 s k m))
     \<and> (v_acked s = {} \<and> v_disk s (sw_path w) = old \<or> (\<exists>k m. covers m0 s k m \<and> file_holds w m (v_disk s)))"

lemma storable_run: "list_all call_storable cs \<Longrightarrow> storable m \<Longrightarrow> storable (mem_run cs m)"
  by (induction cs arbitrary: m) (simp_all add: mem_run_def storable_call)

lemma covers_grow:
  "covers m0 s k m \<Longrightarrow> v_history s' = v_history s @ h \<Longrightarrow> v_acked s' \<subseteq> v_acked s \<Longrightarrow> covers m0 s' k m"
  by (auto simp: covers_def)

lemma covers_now:
  "v_mem s = mem_run (v_history s) m0 \<Longrightarrow> \<forall>a \<in> v_acked s. a < length (v_history s)
    \<Longrightarrow> covers m0 s (length (v_history s)) (v_mem s)"
  by (simp add: covers_def)

lemma file_holds_path: "fs (sw_path w) = fs' (sw_path w) \<Longrightarrow> file_holds w m fs = file_holds w m fs'"
  by (simp add: file_holds_def loadMetrics_def read_file_def)

lemma ack_invD:
  assumes "ack_inv w m0 old s"
  shows "sync_inv w s" "v_mem s = mem_run (v_history s) m0" "\<forall>a \<in> v_acked s. a < length (v_history s)"
    "v_jobs s i = Some Unsaved \<Longrightarrow> v_pos s i < length (v_history s)"
    "v_jobs s i = Some (Writing p m) \<Longrightarrow> \<exists>k. v_pos s i < k \<and> covers m0 s k m"
    "list_all call_storable (v_history s)"
  using assms unfolding ack_inv_def by blast+

lemma sync_invD:
  assumes "sync_inv w s"
  shows "storable (v_mem s)" "temps_free w (v_disk s)"
    "v_jobs s i = Some (Called c) \<Longrightarrow> sw_call w c"
    "v_jobs s i = Some (Writing p m) \<Longrightarrow> v_locked s \<and> sw_plan w p \<and> storable m"
    "v_jobs s i = Some (Writing p m) \<Longrightarrow> v_jobs s j = Some (Writing q m') \<Longrightarrow> i = j"
  using assms unfolding sync_inv_def by blast+

text \<open>A step of one handler that neither writes the file nor answers a call.\<close>

lemma ack_inv_grow:
  assumes "ack_inv w m0 old s" "sync_inv w s'" "v_history s' = v_history s @ h" "list_all call_storable h"
    and "v_mem s' = mem_run h (v_mem s)" "v_acked s' = v_acked s" "v_disk s' = v_disk s"
    and "v_jobs s' = (v_jobs s)(i := x)" "\<And>j. j \<noteq> i \<Longrightarrow> v_pos s' j = v_pos s j"
    and "x = Some Unsaved \<Longrightarrow> v_pos s' i < length (v_history s')"
    and "\<And>p m. x = Some (Writing p m) \<Longrightarrow> \<exists>k. v_pos s' i < k \<and> covers m0 s' k m"
  shows "ack_inv w m0 old s'"
proof -
  note inv = ack_invD [OF assms(1)]
  have grow: "covers m0 s k m \<Longrightarrow> covers m0 s' k m" for k m
    using covers_grow [OF _ assms(3)] assms(6) by simp
  have "v_mem s' = mem_run (v_history s') m0" "\<forall>a \<in> v_acked s'. a < length (v_history s')"
    "list_all call_storable (v_history s')"
    using inv assms(3-6) by (auto simp: mem_run_def)
  moreover have "v_acked s' = {} \<and> v_disk s' (sw_path w) = old \<or> (\<exists>k m. covers m0 s' k m \<and> file_holds w m (v_disk s'))"
    using assms(1,6,7) grow unfolding ack_inv_def by metis
  moreover have "v_pos s' j < length (v_history s')" if "v_jobs s' j = Some Unsaved" for j
    using that assms(3,8,9,10) inv(4) [of j] by (cases "j = i") auto
  moreover have "\<exists>k. v_pos s' j < k \<and> covers m0 s' k m" if "v_jobs s' j = Some (Writing p m)" for j p m
    using that assms(8,9,11) inv(5) [of j p m] grow by (cases "j = i") auto
  ultimately show ?thesis using assms(2) unfolding ack_inv_def by blast
qed

lemma ack_inv_handler:
  assumes "benign w" "sw_sync w" "ack_inv w m0 old s" "handler_step w s s'"
  shows "ack_inv w m0 old s'"
proof -
  note inv = ack_invD [OF assms(3)]
  note si = sync_invD [OF inv(1)]
  have sync': "sync_inv w s'" by (rule sync_inv_handler [OF assms(1,2) inv(1) assms(4)])
  from assms(4) show ?thesis
  proof cases
    case (accept i c)
    then show ?thesis by (intro ack_inv_grow [OF assms(3) sync', where h = "[]"]) auto
  next
    case (accept_grpc i ms)
    then show ?thesis by (intro ack_inv_grow [OF assms(3) sync', where h = "[]"]) auto
  next
    case (apply_call i c)
    have "call_storable c" using benign_call [OF assms(1) si(3) [OF apply_call(2)]] by simp
    with apply_call show ?thesis by (intro ack_inv_grow [OF assms(3) sync', where h = "[c]"]) auto
  next
    case (apply_and_return i c)
    then have "call_accepted c" using benign_call [OF assms(1) si(3)] by blast
    with apply_and_return assms(2) show ?thesis by simp
  next
    case (lock_and_snapshot i p)
    have "covers m0 s' (length (v_history s)) (v_mem s)"
      using covers_grow [OF covers_now [OF inv(2,3)], of s' "[]"] lock_and_snapshot by simp
    with lock_and_snapshot inv(4) [OF lock_and_snapshot(2)] show ?thesis
      by (intro ack_inv_grow [OF assms(3) sync', where h = "[]" and i = i and x = "Some (Writing p (v_mem s))"]) auto
  next
    case (write_and_unlock i p m)
    obtain k where k: "v_pos s i < k" "covers m0 s k m" using inv(5) [OF write_and_unlock(2)] by blast
    have w: "sw_plan w p" "storable m" using si(4) [OF write_and_unlock(2)] by simp_all
    have held: "file_holds w m (v_disk s')" using benign_save(1) [OF assms(1) w si(2)] write_and_unlock(1) by simp
    have cov: "covers m0 s' k m" using k write_and_unlock(1) by (auto simp: covers_def)
    have none: "v_jobs s' j \<noteq> Some (Writing q m')" for j q m'
      using si(5) [OF write_and_unlock(2), of j] write_and_unlock(1) by auto
    have "\<forall>a \<in> v_acked s'. a < length (v_history s')"
      using cov by (auto simp: covers_def)
    moreover have "v_jobs s' j = Some Unsaved \<Longrightarrow> v_pos s' j < length (v_history s')" for j
      using inv(4) [of j] write_and_unlock(1) by (auto split: if_splits)
    moreover have "v_mem s' = mem_run (v_history s') m0" "list_all call_storable (v_history s')"
      using inv(2,6) write_and_unlock(1) by simp_all
    ultimately show ?thesis using sync' held cov none unfolding ack_inv_def by blast
  qed
qed

lemma ack_inv_step:
  assumes "benign w" "sw_sync w" "ack_inv w m0 old s" "server_step w s s'" "v_phase s' \<le> Closed"
  shows "ack_inv w m0 old s'"
proof -
  have sync': "sync_inv w s'" using sync_inv_step [OF assms(1,2) _ assms(4,5)] ack_invD(1) [OF assms(3)] by blast
  have keep: "ack_inv w m0 old s'" if "v_history s' = v_history s" "v_mem s' = v_mem s" "v_acked s' = v_acked s"
    "v_disk s' = v_disk s" "v_jobs s' = v_jobs s" "v_pos s' = v_pos s"
    using ack_inv_grow [OF assms(3) sync', of "[]" 0 "v_jobs s 0"] ack_invD [OF assms(3)] that
    by (auto simp: covers_def)
  from assms(4) show ?thesis
  proof cases
    case handler
    then show ?thesis using ack_inv_handler [OF assms(1-3)] by simp
  next
    case saver
    have "v_saver s = SaverGone" using ack_invD(1) [OF assms(3)] by (simp add: sync_inv_def)
    with saver(2) show ?thesis by cases simp_all
  next
    case main
    from main(2) assms(5) show ?thesis by cases (rule keep; simp add: less_eq_phase_def)+
  qed (use assms(5) in \<open>simp_all add: less_eq_phase_def\<close>)
qed

lemma ack_inv_reachable:
  assumes "benign w" "sw_sync w" "storable m0" "temps_free w fs"
    and "(server_step w)\<^sup>*\<^sup>* (start_server m0 fs False grpc) s" "v_phase s \<le> Closed"
  shows "ack_inv w m0 (fs (sw_path w)) s"
  using assms(5,6)
proof (induction rule: rtranclp_induct)
  case base
  show ?case using assms(3,4) by (simp add: ack_inv_def sync_inv_def start_server_def)
next
  case (step y z)
  then have "v_phase y \<le> Closed" using server_phase_mono order_trans by blast
  then show ?case using ack_inv_step [OF assms(1,2) step.IH step.hyps(2) step.prems] by simp
qed

lemma crash_disk_path:
  assumes "benign w" "sync_inv w s" "crash_disk w s fs"
  shows "fs (sw_path w) = v_disk s (sw_path w)
    \<or> (\<exists>i p m. v_jobs s i = Some (Writing p m) \<and> file_holds w m fs)"
proof -
  have tmp: "no_temp_path (sw_path w)" using assms(1) by (simp add: benign_def)
  consider "fs = v_disk s" | p m where "pending_save s p m" "fs \<in> set (save_trace w p m s)"
    using assms(3) by (auto simp: crash_disk_def)
  then show ?thesis
  proof cases
    case (2 p m)
    then obtain i where i: "v_jobs s i = Some (Writing p m)"
      using assms(2) by (auto simp: pending_save_def sync_inv_def)
    have w: "sw_plan w p" "storable m" using sync_invD(4) [OF assms(2) i] by simp_all
    from save_trace_path_any [OF tmp 2(2) [unfolded save_trace_def]] show ?thesis
      using document_holds [OF assms(1) w] i by blast
  qed simp
qed

text \<open>In synchronous mode an answered write survives a crash: kill the server at any moment before its
  final snapshot, in the middle of a save or not, with any number of HTTP and gRPC handlers at work, and the file
  it leaves restores the store after a prefix of the calls that contains every call already answered (or, when
  none has been, is possibly the file of the start).\<close>
lemma answered_writes_survive_crash:
  assumes "benign w" and "sw_sync w" and "storable m0" and "temps_free w fs"
    and "(server_step w)\<^sup>*\<^sup>* (start_server m0 fs False grpc) s" and "v_phase s \<le> Closed" and "crash_disk w s left"
  shows "(v_acked s = {} \<and> left (sw_path w) = fs (sw_path w))
    \<or> (\<exists>k \<le> length (v_history s). (\<forall>a \<in> v_acked s. a < k)
         \<and> loadMetrics (sw_float w) True (sw_path w) left NewMemStorage
            = (None, mem_run (take k (v_history s)) m0))"
proof -
  have inv: "ack_inv w m0 (fs (sw_path w)) s" by (rule ack_inv_reachable [OF assms(1-6)])
  from crash_disk_path [OF assms(1) ack_invD(1) [OF inv] assms(7)] show ?thesis
  proof (elim disjE exE conjE)
    assume same: "left (sw_path w) = v_disk s (sw_path w)"
    from inv have "v_acked s = {} \<and> v_disk s (sw_path w) = fs (sw_path w)
        \<or> (\<exists>k m. covers m0 s k m \<and> file_holds w m (v_disk s))"
      unfolding ack_inv_def by blast
    then show ?thesis using same file_holds_path [of left w "v_disk s", OF same] unfolding covers_def file_holds_def by metis
  next
    fix i p m
    assume "v_jobs s i = Some (Writing p m)" "file_holds w m left"
    with ack_invD(5) [OF inv] show ?thesis unfolding covers_def file_holds_def by blast
  qed
qed

lemma answered_writes_survive_crash_witness:
  "\<exists>k \<le> 1. 0 < k \<and> loadMetrics bits_text True ''d/m'' (v_disk one_saved) NewMemStorage
     = (None, mem_run (take k [CallCounter ''c'' 1]) NewMemStorage)"
proof -
  have s: "v_phase one_saved \<le> Closed" "crash_disk (demo_world True) one_saved (v_disk one_saved)"
    "v_acked one_saved = {0}" "v_history one_saved = [CallCounter ''c'' 1]"
    by (simp_all add: one_saved_def start_server_def crash_disk_def)
  show ?thesis
    using answered_writes_survive_crash [OF demo_benign _ storable_New temps_free_empty one_saved_reachable s(1,2)] s(3,4)
    by auto
qed

end
