(* ===== verification/Server_Recovery.thy ===== *)
theory Server_Recovery
  imports Server_Boot Server_Sync
begin

text \<open>
  Two runs of \<open>cmd/server/main.go\<close> one after the other: what the second serves after the first was killed, and
  the updates that the end of the first can lose although it was orderly.
\<close>

section \<open>Restart\<close>

text \<open>What a file restores is what a restarted server serves.\<close>

lemma restart_serves_file:
  assumes "be_config be = Inr cfg" "sc_DatabaseDSN cfg = ''''" "sc_Restore cfg" "sc_FileStoragePath cfg = path" "path \<noteq> ''''"
    and "be_readable be" "loadMetrics (be_float be) True path (be_disk be) NewMemStorage = (None, m)"
    and "Serve b a \<in> set (fst (run_server be))"
  shows "b = (if sc_StoreIntervalSec cfg = 0 then SyncBackend m else MemBackend m)"
  using serve_in_run [OF assms(8,1,2)] assms(3-7) by (simp add: file_backend_def restore_mem_def)

text \<open>C10: No answered write of well-formed metrics is lost by a crash and a restart, as long as saves succeed: let
  the clients send valid UTF-8 strings, finite gauges and batches without an unknown type, let the
  store start with such metrics, and let saves meet no I/O error and no file with the name of a temporary one. When
  such a server with synchronous storage is killed at any moment before its final snapshot and started again with
  RESTORE on what the kill left, it serves the store after a prefix of the calls of the first run that contains
  every answered one, unless none was answered. (A gauge that is not a number, or a save that fails, is answered too
  and not saved.)\<close>
theorem crash_and_restart_keep_answered_writes:
  assumes "benign w" and "sw_sync w" and "storable m0" and "temps_free w fs"
    and "(server_step w)\<^sup>*\<^sup>* (start_server m0 fs False grpc) s" and "v_phase s \<le> Closed" and "crash_disk w s left"
    and "v_acked s \<noteq> {}"
    and "be_config be = Inr cfg" and "sc_DatabaseDSN cfg = ''''" and "sc_Restore cfg"
    and "sc_FileStoragePath cfg = sw_path w" and "sw_path w \<noteq> ''''" and "sc_StoreIntervalSec cfg = 0"
    and "be_readable be" and "be_float be = sw_float w" and "be_disk be = left"
    and "Serve b a \<in> set (fst (run_server be))"
  shows "\<exists>k \<le> length (v_history s). (\<forall>i \<in> v_acked s. i < k) \<and> b = SyncBackend (mem_run (take k (v_history s)) m0)"
proof -
  obtain k where k: "k \<le> length (v_history s)" "\<forall>i \<in> v_acked s. i < k"
    "loadMetrics (sw_float w) True (sw_path w) left NewMemStorage = (None, mem_run (take k (v_history s)) m0)"
    using answered_writes_survive_crash [OF assms(1-7)] assms(8) by blast
  have "b = SyncBackend (mem_run (take k (v_history s)) m0)"
    using restart_serves_file [OF assms(9-13,15) _ assms(18)] k(3) assms(14,16,17) by simp
  with k show ?thesis by blast
qed

definition recovery_config :: server_config where
  "recovery_config = serverDefaults\<lparr>sc_FileStoragePath := ''d/m'', sc_Restore := True, sc_StoreIntervalSec := 0\<rparr>"

definition recovery_boot :: "file_system \<Rightarrow> (unit, unit) boot_env" where
  "recovery_boot dsk = (demo_boot NewMemStorage)\<lparr>be_config := Inr recovery_config, be_disk := dsk\<rparr>"

lemma recovery_serves:
  "Serve (file_backend bits_text True dsk recovery_config) False \<in> set (fst (run_server (recovery_boot dsk)))"
  by (simp add: run_server_def recovery_boot_def demo_boot_def recovery_config_def serverDefaults_def zero_server_config_def
      run_body_def run_defers_def trusted_subnet_def storage_stage_def saver_stage_def audit_stage_def queue_stage_def
      router_stage_def load_key_def grpc_stage_def serve_stage_def after_def Let_def)

theorem crash_and_restart_keep_answered_writes_witness:
  "\<exists>k \<le> 1. 0 < k \<and> file_backend bits_text True (v_disk one_saved) recovery_config
     = SyncBackend (mem_run (take k [CallCounter ''c'' 1]) NewMemStorage)"
proof -
  have s: "v_phase one_saved \<le> Closed" "crash_disk (demo_world True) one_saved (v_disk one_saved)"
    "v_acked one_saved = {0}" "v_history one_saved = [CallCounter ''c'' 1]"
    by (simp_all add: one_saved_def start_server_def crash_disk_def)
  show ?thesis
    using crash_and_restart_keep_answered_writes [where cfg = recovery_config, OF demo_benign _ storable_New temps_free_empty one_saved_reachable s(1,2)
        _ _ _ _ _ _ _ _ _ _ recovery_serves] s(3,4)
    by (simp add: recovery_boot_def demo_boot_def recovery_config_def serverDefaults_def zero_server_config_def)
qed

section \<open>Updates lost by an orderly shutdown\<close>

lemma main_steps:
  "v_phase s \<noteq> Ended \<Longrightarrow> main_step w s s' \<Longrightarrow> server_step w s s'"
  "v_phase s \<noteq> Ended \<Longrightarrow> handler_step w s s' \<Longrightarrow> server_step w s s'"
  by (auto intro: server_step.main server_step.handler)

text \<open>C11: The final snapshot takes no lock: in synchronous mode a request still in flight when \<open>ListenAndServe\<close>
  returns may save and be answered between the final snapshot and its write, which then puts the older
  document over the newer one. Every save succeeds and the answered update is gone.\<close>
theorem final_write_undoes_answered_update:
  "\<exists>s. (server_step (demo_world True))\<^sup>*\<^sup>* (start_server NewMemStorage Map.empty False False) s
     \<and> v_phase s = Finished \<and> v_jobs s = Map.empty \<and> v_history s = [CallCounter ''c'' 1] \<and> v_acked s = {0}
     \<and> loadMetrics bits_text True ''d/m'' (v_disk s) NewMemStorage = (None, NewMemStorage)"
proof -
  let ?w = "demo_world True" and ?c = "CallCounter ''c'' 1"
  let ?s0 = "start_server NewMemStorage Map.empty False False"
  let ?s1 = "?s0\<lparr>v_jobs := [0 \<mapsto> Called ?c]\<rparr>"
  let ?s2 = "?s1\<lparr>v_signal := True\<rparr>"
  let ?s3 = "?s2\<lparr>v_phase := Closed\<rparr>"
  let ?s4 = "?s3\<lparr>v_phase := Finishing, v_final := Some (good_plan, NewMemStorage)\<rparr>"
  let ?s5 = "?s4\<lparr>v_mem := one_count, v_history := [?c], v_jobs := [0 \<mapsto> Unsaved]\<rparr>"
  let ?s6 = "?s5\<lparr>v_locked := True, v_jobs := [0 \<mapsto> Writing good_plan one_count]\<rparr>"
  let ?s7 = "(written_out ?w good_plan one_count ?s6)\<lparr>v_locked := False, v_jobs := Map.empty, v_acked := {0}\<rparr>"
  let ?s8 = "(written_out ?w good_plan NewMemStorage ?s7)\<lparr>v_phase := Finished, v_final := None\<rparr>"
  note start = start_server_def
  have "(server_step ?w)\<^sup>*\<^sup>* ?s0 ?s1"
    using handler_step.accept [of ?s0 0 ?w ?c] by (intro r_into_rtranclp main_steps(2)) (simp_all add: start)
  also have "server_step ?w ?s1 ?s2"
    using main_step.signal [of ?w ?s1] by (intro main_steps(1)) (simp_all add: start)
  also have "server_step ?w ?s2 ?s3"
    using main_step.serve_closed [of ?s2 ?w] by (intro main_steps(1)) (simp_all add: start)
  also have "server_step ?w ?s3 ?s4"
    using main_step.final_snapshot [of ?s3 ?w good_plan] by (intro main_steps(1)) (simp_all add: start)
  also have "server_step ?w ?s4 ?s5"
    using handler_step.apply_call [of ?s4 0 ?c ?w] by (intro main_steps(2)) (simp_all add: start mem_call_one fun_upd_idem)
  also have "server_step ?w ?s5 ?s6"
    using handler_step.lock_and_snapshot [of ?s5 0 ?w good_plan] by (intro main_steps(2)) (simp_all add: start)
  also have "server_step ?w ?s6 ?s7"
    using handler_step.write_and_unlock [of ?s6 0 good_plan one_count ?w] by (intro main_steps(2)) (simp_all add: start)
  also have "server_step ?w ?s7 ?s8"
    using main_step.final_write [of ?s7 good_plan NewMemStorage ?w] by (intro main_steps(1)) (simp_all add: start)
  finally have reach: "(server_step ?w)\<^sup>*\<^sup>* ?s0 ?s8" .
  have "temps_free ?w (v_disk ?s7)"
    using benign_save(2) [OF demo_benign _ one_count_storable, of True good_plan ?s6] by (simp add: start)
  then have "file_holds ?w NewMemStorage (v_disk ?s8)"
    using benign_save(1) [OF demo_benign _ storable_New, of True good_plan ?s7] by simp
  with reach show ?thesis
    by (intro exI [of _ ?s8]) (simp_all add: file_holds_def start)
qed

text \<open>The gRPC server is stopped by a goroutine of its own that nothing waits for: it may still accept, apply
  and answer a call after the final snapshot has been written.\<close>

definition batch_world :: server_world where
  "batch_world = (demo_world False)\<lparr>sw_call := (\<lambda>c. c = CallBatch [counter_metric ''c'' 1])\<rparr>"

lemma batch_world_sel [simp]:
  "sw_float batch_world = bits_text" "sw_path batch_world = ''d/m''" "sw_sync batch_world = False"
  "sw_call batch_world c \<longleftrightarrow> c = CallBatch [counter_metric ''c'' 1]" "sw_plan batch_world p \<longleftrightarrow> p = good_plan"
  by (simp_all add: batch_world_def demo_world_def)

lemma batch_world_benign: "benign batch_world"
  using demo_benign [of False] by (auto simp: benign_def wire_ok_def valid_utf8_ascii byte_in_def TypeCounter_def)

lemma grpc_update_after_final_snapshot:
  "\<exists>s. (server_step batch_world)\<^sup>*\<^sup>* (start_server NewMemStorage Map.empty False True) s
     \<and> v_phase s = Finished \<and> v_jobs s = Map.empty \<and> v_acked s = {0} \<and> counters (v_mem s) ''c'' = Some 1
     \<and> loadMetrics bits_text True ''d/m'' (v_disk s) NewMemStorage = (None, NewMemStorage)"
proof -
  let ?w = batch_world and ?ms = "[counter_metric ''c'' 1]"
  let ?s0 = "start_server NewMemStorage Map.empty False True"
  let ?s1 = "?s0\<lparr>v_signal := True\<rparr>"
  let ?s2 = "?s1\<lparr>v_phase := Closed\<rparr>"
  let ?s3 = "?s2\<lparr>v_phase := Finishing, v_final := Some (good_plan, NewMemStorage)\<rparr>"
  let ?s4 = "(written_out ?w good_plan NewMemStorage ?s3)\<lparr>v_phase := Finished, v_final := None\<rparr>"
  let ?s5 = "?s4\<lparr>v_jobs := [0 \<mapsto> Called (CallBatch ?ms)]\<rparr>"
  let ?s6 = "?s4\<lparr>v_mem := mem_call_exec (CallBatch ?ms) NewMemStorage, v_history := [CallBatch ?ms], v_pos := (\<lambda>_. 0),
    v_jobs := Map.empty, v_acked := {0}\<rparr>"
  note start = start_server_def
  have "(server_step ?w)\<^sup>*\<^sup>* ?s0 ?s1"
    using main_step.signal [of ?w ?s0] by (intro r_into_rtranclp main_steps(1)) (simp_all add: start)
  also have "server_step ?w ?s1 ?s2"
    using main_step.serve_closed [of ?s1 ?w] by (intro main_steps(1)) (simp_all add: start)
  also have "server_step ?w ?s2 ?s3"
    using main_step.final_snapshot [of ?s2 ?w good_plan] by (intro main_steps(1)) (simp_all add: start)
  also have "server_step ?w ?s3 ?s4"
    using main_step.final_write [of ?s3 good_plan NewMemStorage ?w] by (intro main_steps(1)) (simp_all add: start)
  also have "server_step ?w ?s4 ?s5"
    using handler_step.accept_grpc [of ?s4 0 ?w ?ms] by (intro main_steps(2)) (simp_all add: start)
  also have "server_step ?w ?s5 ?s6"
    using handler_step.apply_and_return [of ?s5 0 "CallBatch ?ms" ?w]
    by (intro main_steps(2)) (simp_all add: start fun_upd_idem del: mem_call_exec.simps)
  finally have reach: "(server_step ?w)\<^sup>*\<^sup>* ?s0 ?s6" .
  have "file_holds ?w NewMemStorage (v_disk ?s6)"
    using benign_save(1) [OF batch_world_benign _ storable_New, of good_plan ?s3] by (simp add: start)
  with reach show ?thesis
    by (intro exI [of _ ?s6]) (simp_all add: file_holds_def start mem_batch_counter mem_UpdateCounter_def)
qed

end
