(* ===== verification/Agent_Durable.thy ===== *)
theory Agent_Durable
  imports Agent_Http_Facts Server_Recovery
begin

text \<open>
  The HTTP agent against a server in synchronous mode: whatever the server has applied is in its file between any
  two attempts, and the save of one more may be under way during an attempt, so a server that is killed and started
  again serves it. The interface of the link is extended by what each attempt keeps of the server (locale
  \<open>durable_link\<close>).
\<close>

section \<open>A link that keeps something of the server\<close>

locale durable_link = metric_link attempt store_of
  for attempt :: "rpc_fate \<Rightarrow> metrics \<Rightarrow> 'w \<Rightarrow> go_error option \<times> 'w" and store_of :: "'w \<Rightarrow> mem_store" +
  fixes durable :: "'w \<Rightarrow> bool"
  assumes keeps: "collected m \<Longrightarrow> durable w \<Longrightarrow> durable (snd (attempt fate m w))"
begin

lemma durable_step:
  assumes "http_reachable to_float attempt n w0 s" "durable (h_server s)" "http_step to_float attempt s s'"
  shows "durable (h_server s')"
  using assms(3) unfolding http_step_def
proof (elim disjE)
  assume "http_env_step to_float s s'"
  from http_env_unchanged(6) [OF this] assms(2) show ?thesis by simp
next
  assume "http_own_step attempt s s'"
  then show ?thesis
  proof cases
    case (http_retries i m d fate e w)
    with keeps [OF worker_collected [OF assms(1) http_retries(2,3)] assms(2), of fate] show ?thesis by simp
  next
    case (http_ends i m d fate e w)
    with keeps [OF worker_collected [OF assms(1) http_ends(2,3)] assms(2), of fate] show ?thesis by simp
  qed (use assms(2) in simp_all)
qed

lemma durable_reachable:
  assumes "http_reachable to_float attempt n w0 s" "durable w0"
  shows "durable (h_server s)"
  using assms(1)
proof (induction rule: http_reachable_induct)
  case (start b u)
  show ?case using assms(2) by (simp add: start_http_agent_def)
next
  case (step s s')
  show ?case using durable_step step by blast
qed

end

section \<open>The synchronous server\<close>

text \<open>Saves meet no I/O error and range over the maps completely; temporary names are never the file's own.\<close>

definition saves_well :: "(nat \<Rightarrow> io_plan) \<Rightarrow> string \<Rightarrow> bool" where
  "saves_well plan path \<longleftrightarrow> no_temp_path path \<and> (\<forall>k. io_good (plan k) \<and> (\<forall>m. storable m \<longrightarrow> ranges_ok (plan k) m))"

text \<open>The file restores the metrics in memory and no temporary file is left.\<close>

definition safe_on_disk :: "float_text \<Rightarrow> string \<Rightarrow> sync_state \<Rightarrow> bool" where
  "safe_on_disk ft path s \<longleftrightarrow> storable (inner s) \<and> current ft path s
     \<and> (\<forall>rnd. disk s (create_temp_name (dirOf path) rnd) = None)"

lemma sync_save_safe:
  assumes "float_text_ok ft" "saves_well plan path" "storable (inner s)"
    and "\<And>rnd. disk s (create_temp_name (dirOf path) rnd) = None"
  shows "safe_on_disk ft path (sync_save ft plan path s)"
proof -
  have p: "io_good (plan (saves s))" "ranges_ok (plan (saves s)) (inner s)" "persistable (inner s)" "no_temp_path path"
    using assms(2,3) by (simp_all add: saves_well_def storable_def)
  have "current ft path (sync_save ft plan path s)"
    by (rule sync_save_current) (use assms(1,4) p in simp_all)
  moreover have "disk (sync_save ft plan path s) (create_temp_name (dirOf path) rnd) = None" for rnd
    using assms(4) p(1,4)
    by (auto simp: sync_save_def saveMetrics_def Let_def io_good_def no_temp_path_def split: option.split)
  ultimately show ?thesis using assms(3) by (simp add: safe_on_disk_def)
qed

lemma store_op_safe:
  assumes "float_text_ok ft" "saves_well plan path" "collected m" "finite_value m" "safe_on_disk ft path s"
  shows "safe_on_disk ft path (store_op (sync_ops ft plan path) m s)"
proof -
  have "store_op (sync_ops ft plan path) m s = sync_save ft plan path (s\<lparr>inner := mem_apply m (inner s)\<rparr>)"
    using assms(3) by (auto elim!: collected_cases simp: store_op_def sync_ops_def sync_UpdateGauge_def
        sync_UpdateCounter_def TypeGauge_def TypeCounter_def)
  moreover have "storable (mem_apply m (inner s))"
    using storable_apply [OF _ collected_wire [OF assms(3,4)]] assms(5) by (simp add: safe_on_disk_def)
  ultimately show ?thesis using sync_save_safe [OF assms(1,2)] assms(5) by (simp add: safe_on_disk_def)
qed

definition server_safe :: "string \<Rightarrow> (sync_state, 'a, 'pub, 'priv, 'ip) deployment \<Rightarrow> (sync_state, 'a) server_side \<Rightarrow> bool" where
  "server_safe path d w \<longleftrightarrow> safe_on_disk (ae_float (dp_env d)) path (fst (fst w))"

text \<open>A deployed server that keeps its metrics in \<open>syncStorage\<close>.\<close>

definition deployed_sync :: "(nat \<Rightarrow> io_plan) \<Rightarrow> string \<Rightarrow> (sync_state, 'a, 'pub, 'priv, 'ip) deployment \<Rightarrow> bool" where
  "deployed_sync plan path d \<longleftrightarrow> deployed d \<and> dp_store d = inner \<and> saves_well plan path
     \<and> h_storage (dp_handlers d) = sync_ops (ae_float (dp_env d)) plan path"

lemma sync_attempt_safe:
  assumes "deployed_sync plan path d" "collected m" "server_safe path d w"
  shows "server_safe path d (snd (link_attempt d fate m w))"
proof (cases "finite_value m")
  case False
  have "deployed d" using assms(1) by (simp add: deployed_sync_def)
  from metric_link.unsendable [OF deployed_link [OF this] assms(2) False, of fate w] assms(3) show ?thesis by auto
next
  case True
  have d: "deployed d" "saves_well plan path" "h_storage (dp_handlers d) = sync_ops (ae_float (dp_env d)) plan path"
    using assms(1) by (simp_all add: deployed_sync_def)
  have ft: "float_text_ok (ae_float (dp_env d))" using d(1) unfolding deployed_def by blast
  obtain w' where "snd (link_attempt d fate m w) = (if fate = Call_Lost then w else w')"
    "fst (fst w') = store_op (h_storage (dp_handlers d)) m (fst (fst w))"
    using deployed_attempt [OF d(1) assms(2) True, of fate w] by (cases fate) auto
  with store_op_safe [OF ft d(2) assms(2) True] assms(3) d(3) show ?thesis by (simp add: server_safe_def)
qed

lemma deployed_durable:
  assumes "deployed_sync plan path d"
  shows "durable_link (link_attempt d) (server_store d) (server_safe path d)"
proof (intro durable_link.intro durable_link_axioms.intro)
  show "metric_link (link_attempt d) (server_store d)" using assms by (intro deployed_link) (simp add: deployed_sync_def)
qed (rule sync_attempt_safe [OF assms])


section \<open>Nothing applied is lost\<close>

text \<open>
  The file systems a kill may leave: between two attempts the disk as it is, and during an attempt whose update is
  applied any state the save of that update passes through.
\<close>

definition left_by_kill :: "(nat \<Rightarrow> io_plan) \<Rightarrow> string \<Rightarrow> (sync_state, 'a, 'pub, 'priv, 'ip) deployment
    \<Rightarrow> (sync_state, 'a) server_side http_agent \<Rightarrow> file_system \<Rightarrow> bool" where
  "left_by_kill plan path d s fs \<longleftrightarrow> (let st = fst (fst (h_server s)) in
     fs = disk st
     \<or> (\<exists>m \<in> set (sending (h_pipe s)). finite_value m
          \<and> fs \<in> set (snd (saveMetrics (ae_float (dp_env d)) (plan (saves st)) path (mem_apply m (inner st)) (disk st)))))"

lemma kill_leaves:
  assumes "deployed_sync plan path d" "server_safe path d w0" "http_reachable to_float (link_attempt d) n w0 s"
    and "left_by_kill plan path d s fs"
  shows "\<exists>k. (k = [] \<or> (\<exists>m \<in> set (sending (h_pipe s)). k = [m]))
    \<and> loadMetrics (ae_float (dp_env d)) True path fs NewMemStorage = (None, fold mem_apply k (server_store d (h_server s)))"
proof -
  let ?ft = "ae_float (dp_env d)" and ?st = "fst (fst (h_server s))"
  have d: "deployed d" "dp_store d = inner" and plan: "saves_well plan path"
    using assms(1) by (simp_all add: deployed_sync_def)
  have ft: "float_text_ok ?ft" using d(1) unfolding deployed_def by blast
  have "server_safe path d (h_server s)"
    by (rule durable_link.durable_reachable [OF deployed_durable [OF assms(1)] assms(3,2)])
  then have safe: "storable (inner ?st)" "loadMetrics ?ft True path (disk ?st) NewMemStorage = (None, inner ?st)"
    by (simp_all add: server_safe_def safe_on_disk_def current_def)
  have same: "\<exists>k. (k = [] \<or> (\<exists>m \<in> set (sending (h_pipe s)). k = [m]))
      \<and> loadMetrics ?ft True path fs NewMemStorage = (None, fold mem_apply k (server_store d (h_server s)))"
    if "fs path = disk ?st path"
    using that safe(2) d(2) by (intro exI [of _ "[]"]) (simp add: loadMetrics_def read_file_def server_store_def)
  from assms(4) consider "fs = disk ?st"
    | m where "m \<in> set (sending (h_pipe s))" "finite_value m"
        "fs \<in> set (snd (saveMetrics ?ft (plan (saves ?st)) path (mem_apply m (inner ?st)) (disk ?st)))"
    unfolding left_by_kill_def Let_def by blast
  then show ?thesis
  proof cases
    case (2 m)
    have "collected m" by (rule sending_collected [OF assms(3) 2(1)])
    then have st: "storable (mem_apply m (inner ?st))" using safe(1) storable_apply collected_wire 2(2) by blast
    consider "fs path = disk ?st path"
      | "fs path = marshal_list ?ft (snapshot_list (plan (saves ?st)) (mem_apply m (inner ?st)))" "fs path \<noteq> None"
      using save_trace_path_any [OF _ 2(3)] plan unfolding saves_well_def by blast
    then show ?thesis
    proof cases
      case doc: 2
      have "loadMetrics ?ft True path fs NewMemStorage = (None, mem_apply m (inner ?st))"
        by (rule document_restores [where fs = fs and path = path and p = "plan (saves ?st)"])
          (use ft doc plan st in \<open>simp_all add: saves_well_def storable_def\<close>)
      with 2(1) d(2) show ?thesis by (intro exI [of _ "[m]"]) (simp add: server_store_def)
    qed (rule same)
  next
    case 1
    then show ?thesis by (intro same) simp
  qed
qed

text \<open>C9: Agent, network, server and disk together: an agent with any number of workers sends over HTTP to a server
  in synchronous mode, requests and answers may be lost on the way, and the server is killed at any moment, also
  in the middle of the save of an update, and started again with RESTORE on the file it left. Both sides are
  configured for each other, the server starts with its metrics on disk, all names valid UTF-8 and gauges finite, and
  saves meet no I/O error and no file with the name of a temporary one. The restarted server then serves exactly
  what it had applied, or that and one metric more that a worker was sending; when no call had gone wrong, what it
  had applied is every metric the workers had finished, as far as its value is a number.\<close>
theorem agent_metrics_survive_restart:
  assumes "deployed_sync plan path d" and "server_safe path d w0" and "http_reachable to_float (link_attempt d) n w0 s"
    and "left_by_kill plan path d s fs"
    and "be_config be = Inr cfg" and "sc_DatabaseDSN cfg = ''''" and "sc_Restore cfg"
    and "sc_FileStoragePath cfg = path" and "path \<noteq> ''''" and "sc_StoreIntervalSec cfg = 0"
    and "be_readable be" and "be_float be = ae_float (dp_env d)" and "be_disk be = fs"
    and "Serve b a \<in> set (fst (run_server be))"
  shows "\<exists>k. (k = [] \<or> (\<exists>m \<in> set (sending (h_pipe s)). k = [m]))
    \<and> b = SyncBackend (fold mem_apply (h_log s @ k) (server_store d w0))
    \<and> (\<not> h_mishap s \<longrightarrow>
        b = SyncBackend (fold mem_apply (filter finite_value (a_finished (h_pipe s)) @ k) (server_store d w0)))"
proof -
  have link: "metric_link (link_attempt d) (server_store d)"
    using assms(1) by (intro deployed_link) (simp add: deployed_sync_def)
  obtain k where k: "k = [] \<or> (\<exists>m \<in> set (sending (h_pipe s)). k = [m])"
    "loadMetrics (be_float be) True path (be_disk be) NewMemStorage = (None, fold mem_apply k (server_store d (h_server s)))"
    using kill_leaves [OF assms(1-4)] assms(12,13) by auto
  from restart_serves_file [OF assms(5-9,11) k(2) assms(14)] assms(10)
  have "b = SyncBackend (fold mem_apply k (server_store d (h_server s)))" by simp
  with k(1) show ?thesis
    using metric_link.deliveries_bounded [OF link assms(3)] metric_link.quiet_server [OF link assms(3)]
    by (intro exI [of _ k]) simp
qed

definition fresh_sync :: "(sync_state, event list) server_side" where
  "fresh_sync = ((\<lparr>inner = NewMemStorage, disk = Map.empty, saves = 0\<rparr>, []), [])"

abbreviation synced :: "(sync_state, event list, unit, unit, string) deployment" where
  "synced \<equiv> sync_link (\<lambda>_. good_plan) ''d/m''"

lemma synced_deployed: "deployed_sync (\<lambda>_. good_plan) ''d/m'' synced"
  using demo_benign by (simp add: deployed_sync_def sync_deployed NewHandlers_def saves_well_def benign_def)

lemma fresh_sync_safe: "server_safe ''d/m'' synced fresh_sync"
  using storable_New by (simp add: server_safe_def safe_on_disk_def fresh_sync_def current_def loadMetrics_def read_file_def)

interpretation synced_link: durable_link "link_attempt synced" "server_store synced" "server_safe ''d/m'' synced"
  by (rule deployed_durable [OF synced_deployed])

theorem agent_metrics_survive_restart_witness:
  "\<exists>w'. link_attempt synced Answered (load 0) fresh_sync = (None, w')
     \<and> file_backend bits_text True (disk (fst (fst w'))) recovery_config
         = SyncBackend (mem_UpdateGauge cpu 0 NewMemStorage)"
proof -
  obtain w' where w: "link_attempt synced Answered (load 0) fresh_sync = (None, w')"
    using metric_link.answered [OF deployed_link [OF sync_deployed], where m = "load 0" and w = fresh_sync]
    by (metis load_collected float_zero_finite)
  have reach: "http_reachable Float64 (link_attempt synced) 1 fresh_sync (ended_run 0 w')"
    by (rule ended_run_reachable) (rule w, simp)
  have idle: "sending (h_pipe (ended_run 0 w')) = []"
    by (simp add: ended_run_def sending_def run_pipe_def)
  have killed: "left_by_kill (\<lambda>_. good_plan) ''d/m'' synced (ended_run 0 w') (disk (fst (fst w')))"
    by (simp add: left_by_kill_def Let_def)
  have "file_backend bits_text True (disk (fst (fst w'))) recovery_config
      = SyncBackend (fold mem_apply [load 0] NewMemStorage)"
    using agent_metrics_survive_restart [where cfg = recovery_config, OF synced_deployed fresh_sync_safe reach
        killed _ _ _ _ _ _ _ _ _ recovery_serves]
    by (simp add: recovery_boot_def demo_boot_def recovery_config_def serverDefaults_def zero_server_config_def fresh_sync_def idle)
  with w show ?thesis by (intro exI [of _ w']) simp
qed

end
