(* ===== verification/Grpc_Service.thy ===== *)
theory Grpc_Service
  imports Grpc
begin

text \<open>
  The service around \<open>UpdateMetrics\<close>: the constructor of \<open>internal/grpcserver\<close> and the generated client, method
  handler and service description of \<open>internal/proto/metrics_grpc.pb.go\<close>. How grpc routes a call by its name is the
  library's; what the code relies on is \<open>routes_by_name\<close>.
\<close>

section \<open>The server's side\<close>

record 's metrics_server =
  ms_store :: "'s storage_ops"

definition grpcserver_New :: "'s storage_ops \<Rightarrow> 's metrics_server" where
  "grpcserver_New store = \<lparr>ms_store = store\<rparr>"

definition server_UpdateMetrics ::
    "status_text \<Rightarrow> 's metrics_server \<Rightarrow> pb_metric list \<Rightarrow> 's \<Rightarrow> grpc_status option \<times> 's" where
  "server_UpdateMetrics stx srv req s = grpc_UpdateMetrics stx (ms_store srv) req s"

text \<open>The method of the embedded \<open>UnimplementedMetricsServer\<close>, which \<open>MetricsServer\<close> overrides.\<close>

definition Unimplemented_UpdateMetrics :: "pb_metric list \<Rightarrow> 's \<Rightarrow> grpc_status option \<times> 's" where
  "Unimplemented_UpdateMetrics req s = (Some (Unimplemented, ''method UpdateMetrics not implemented''), s)"

definition Metrics_UpdateMetrics_FullMethodName :: string where
  "Metrics_UpdateMetrics_FullMethodName = ''/metrics.Metrics/UpdateMetrics''"

text \<open>An interceptor gets the context, the method's full name, the request and the handler.\<close>

type_synonym 's interceptor =
  "grpc_md \<Rightarrow> string \<Rightarrow> pb_metric list \<Rightarrow> (pb_metric list \<Rightarrow> 's \<Rightarrow> grpc_status option \<times> 's) \<Rightarrow> 's \<Rightarrow> grpc_status option \<times> 's"

text \<open>A method handler gets the server, the context, the result of decoding and the interceptor.\<close>

type_synonym 's method_handler =
  "'s metrics_server \<Rightarrow> grpc_md \<Rightarrow> grpc_status + pb_metric list \<Rightarrow> 's interceptor option \<Rightarrow> 's \<Rightarrow> grpc_status option \<times> 's"

definition Metrics_UpdateMetrics_Handler :: "status_text \<Rightarrow> 's method_handler" where
  "Metrics_UpdateMetrics_Handler stx srv ctx dec interceptor s =
     (case dec of
        Inl err \<Rightarrow> (Some err, s)
      | Inr req \<Rightarrow>
          (case interceptor of
             None \<Rightarrow> server_UpdateMetrics stx srv req s
           | Some intercept \<Rightarrow>
               intercept ctx Metrics_UpdateMetrics_FullMethodName req (server_UpdateMetrics stx srv) s))"

record 's service_desc =
  sv_name :: string
  sv_methods :: "(string \<times> 's method_handler) list"

definition Metrics_ServiceDesc :: "status_text \<Rightarrow> 's service_desc" where
  "Metrics_ServiceDesc stx =
     \<lparr>sv_name = ''metrics.Metrics'', sv_methods = [(''UpdateMetrics'', Metrics_UpdateMetrics_Handler stx)]\<rparr>"

text \<open>The interceptor \<open>cmd/server/main.go\<close> installs ignores the name.\<close>

definition subnet_interceptor :: "(string \<Rightarrow> 'ip option) \<Rightarrow> ('ip \<Rightarrow> bool) option \<Rightarrow> 's interceptor" where
  "subnet_interceptor parse_ip subnet ctx name req handler s =
     TrustedSubnetInterceptor parse_ip subnet ctx req handler s"

section \<open>The client's side\<close>

text \<open>The generated client invokes the method by its full name.\<close>

definition client_UpdateMetrics ::
    "(string \<Rightarrow> 'md \<Rightarrow> pb_metric list \<Rightarrow> 'n \<Rightarrow> grpc_status option \<times> 'n)
      \<Rightarrow> 'md \<Rightarrow> pb_metric list \<Rightarrow> 'n \<Rightarrow> grpc_status option \<times> 'n" where
  "client_UpdateMetrics invoke md req n = invoke Metrics_UpdateMetrics_FullMethodName md req n"

text \<open>\<open>GRPCSender.Close\<close> closes the sender's connection, which is the library's.\<close>

definition grpc_sender_Close ::
    "(grpc_sender \<Rightarrow> 'n \<Rightarrow> go_error option \<times> 'n) \<Rightarrow> grpc_sender \<Rightarrow> 'n \<Rightarrow> go_error option \<times> 'n" where
  "grpc_sender_Close conn_close g n = conn_close g n"

section \<open>A call through the service\<close>

text \<open>grpc finds a registered method under \<open>/service/method\<close>.\<close>

definition routes_by_name :: "('s service_desc \<Rightarrow> string \<Rightarrow> 's method_handler option) \<Rightarrow> bool" where
  "routes_by_name route \<longleftrightarrow> (\<forall>desc name handler. map_of (sv_methods desc) name = Some handler \<longrightarrow>
     route desc (''/'' @ sv_name desc @ ''/'' @ name) = Some handler)"

text \<open>A call that arrives at a server with one registered service, its message decoded.\<close>

definition call_service ::
    "('s service_desc \<Rightarrow> string \<Rightarrow> 's method_handler option) \<Rightarrow> 's service_desc \<Rightarrow> 's metrics_server
      \<Rightarrow> 's interceptor option \<Rightarrow> string \<Rightarrow> (string \<Rightarrow> string list) \<Rightarrow> pb_metric list \<Rightarrow> 's \<Rightarrow> grpc_status option \<times> 's" where
  "call_service route desc srv interceptor name md req s =
     (case route desc name of
        None \<Rightarrow> Unimplemented_UpdateMetrics req s
      | Some handler \<Rightarrow> handler srv (Some md) (Inr req) interceptor s)"

lemma method_is_registered:
  "routes_by_name route \<Longrightarrow>
    route (Metrics_ServiceDesc stx) Metrics_UpdateMetrics_FullMethodName = Some (Metrics_UpdateMetrics_Handler stx)"
  unfolding routes_by_name_def
  by (elim allE [of _ "Metrics_ServiceDesc stx"] allE [of _ "''UpdateMetrics''"])
    (simp add: Metrics_ServiceDesc_def Metrics_UpdateMetrics_FullMethodName_def)

text \<open>The name the client calls is the one the server registers: a call reaches the handler behind the interceptor.\<close>

lemma client_reaches_handler:
  "routes_by_name route \<Longrightarrow>
    client_UpdateMetrics (call_service route (Metrics_ServiceDesc stx) (grpcserver_New store)
        (Some (subnet_interceptor parse_ip subnet))) md req s
      = metrics_handler stx store parse_ip subnet (Some md) req s"
  by (simp add: client_UpdateMetrics_def call_service_def method_is_registered Metrics_UpdateMetrics_Handler_def
      subnet_interceptor_def server_UpdateMetrics_def [abs_def] metrics_handler_def grpcserver_New_def)

text \<open>A batch from inside the trusted subnet, sent with the generated client to the registered service on
  PostgreSQL, is stored completely.\<close>

lemma grpc_batch_stored_by_service:
  assumes "routes_by_name route" and "pg_ready s" and "ms \<noteq> []" and "list_all canonical ms"
    and "list_all (name_storable \<circ> ID) ms" and "batch_safe ms (pg_abs s)" and "g_localIP g \<noteq> ''''"
    and "parse_ip (g_localIP g) = Some ip" and "within ip"
  shows "\<exists>s'. grpc_SendBatch (client_UpdateMetrics (call_service route (Metrics_ServiceDesc stx) (grpcserver_New pg_ops)
      (Some (subnet_interceptor parse_ip (Some within))))) g ms s = (None, s')
    \<and> pg_abs s' = fold db_apply ms (pg_abs s)"
proof -
  have "\<exists>s'. grpc_SendBatch (\<lambda>md. metrics_handler stx pg_ops parse_ip (Some within) (Some md)) g ms s = (None, s')
      \<and> pg_abs s' = fold db_apply ms (pg_abs s)"
    by (rule grpc_batch_stored) (rule assms)+
  with assms(3) show ?thesis by (simp add: grpc_SendBatch_def client_reaches_handler [OF assms(1)])
qed

section \<open>Refused batches\<close>



section \<open>A whole call\<close>









end
