(* ===== verification/Log_Setup.thy ===== *)
theory Log_Setup
  imports Go_Prelude
begin

text \<open>
  \<open>internal/logger/logger.go\<close>: the global logger of the process and its set-up behind a \<open>sync.Once\<close>. zerolog and
  lumberjack only appear as the target an entry goes to. A caller of \<open>Init\<close> returns when the first call has
  finished, so calls are taken one after the other.
\<close>

record rotation =
  rot_filename :: string
  rot_maxSize :: nat
  rot_maxBackups :: nat
  rot_maxAge :: nat
  rot_compress :: bool

datatype log_target = Console | RotatingFile rotation

datatype time_format = Format_RFC3339 | Format_Unix

record log_state =
  lg_once :: bool
  lg_logger :: log_target
  lg_time :: time_format
  lg_stderr :: "string list"
  lg_entries :: "(log_target \<times> string) list"

text \<open>zerolog's logger at the start of the process.\<close>

definition log_start :: log_state where
  "log_start = \<lparr>lg_once = False, lg_logger = Console, lg_time = Format_RFC3339, lg_stderr = [], lg_entries = []\<rparr>"

definition app_log :: rotation where
  "app_log = \<lparr>rot_filename = ''logs/app.log'', rot_maxSize = 100, rot_maxBackups = 7, rot_maxAge = 30, rot_compress = True\<rparr>"

text \<open>The function given to \<open>once.Do\<close>; \<open>mkdir\<close> is the text of the error of \<open>os.MkdirAll\<close>.\<close>

definition log_setup :: "string option \<Rightarrow> log_state \<Rightarrow> log_state" where
  "log_setup mkdir s =
     (let s1 = (case mkdir of
                  None \<Rightarrow> s
                | Some err \<Rightarrow> s\<lparr>lg_stderr := lg_stderr s @ [''Failed to create logs directory: '' @ err @ [CHR 0x0A]]\<rparr>);
          s2 = s1\<lparr>lg_time := Format_Unix, lg_logger := RotatingFile app_log\<rparr>
      in s2\<lparr>lg_entries := lg_entries s2 @ [(lg_logger s2, ''Logger initialized and writing to logs/app.log'')]\<rparr>)"

definition log_Init :: "string option \<Rightarrow> log_state \<Rightarrow> log_state" where
  "log_Init mkdir s = (if lg_once s then s else (log_setup mkdir s)\<lparr>lg_once := True\<rparr>)"

definition GetLogger :: "log_state \<Rightarrow> log_target" where
  "GetLogger s = lg_logger s"

text \<open>An entry written through a logger obtained before.\<close>

definition log_through :: "log_target \<Rightarrow> string \<Rightarrow> log_state \<Rightarrow> log_state" where
  "log_through target msg s = s\<lparr>lg_entries := lg_entries s @ [(target, msg)]\<rparr>"

section \<open>Once\<close>

lemma log_Init_done [simp]: "lg_once s \<Longrightarrow> log_Init mkdir s = s"
  by (simp add: log_Init_def)

lemma log_Init_sets [simp]: "lg_once (log_Init mkdir s)"
  by (simp add: log_Init_def)

text \<open>However many callers there are, the first one decides: one directory, one first entry.\<close>

lemma log_Init_first: "fold log_Init (mkdir # others) s = log_Init mkdir s"
proof -
  have "lg_once s \<Longrightarrow> fold log_Init others s = s" for s
    by (induction others) simp_all
  then show ?thesis by simp
qed

lemma log_Init_fresh:
  "GetLogger (log_Init mkdir log_start) = RotatingFile app_log
   \<and> lg_entries (log_Init mkdir log_start) = [(RotatingFile app_log, ''Logger initialized and writing to logs/app.log'')]
   \<and> (lg_stderr (log_Init mkdir log_start) = [] \<longleftrightarrow> mkdir = None)"
  by (cases mkdir) (simp_all add: GetLogger_def log_Init_def log_setup_def log_start_def Let_def)

text \<open>A logger is a copy: what was obtained before the set-up keeps writing where it did.\<close>

lemma logger_is_a_copy:
  "\<not> lg_once s \<Longrightarrow> lg_logger s = Console \<Longrightarrow>
    (Console, msg) \<in> set (lg_entries (log_through (GetLogger s) msg (log_Init mkdir s)))"
  by (simp add: log_through_def GetLogger_def)

section \<open>The agent\<close>

text \<open>\<open>run\<close> of \<open>cmd/agent/main.go\<close> takes the logger first thing; nothing in the program calls \<open>Init\<close>.\<close>

definition agent_log :: "string list \<Rightarrow> log_state \<Rightarrow> log_state" where
  "agent_log msgs s = fold (log_through (GetLogger s)) msgs s"

text \<open>So no entry of the agent reaches the rotating file.\<close>

lemma agent_never_logs_to_file: "set (map fst (lg_entries (agent_log msgs log_start))) \<subseteq> {Console}"
proof -
  have "lg_entries (fold (log_through t) msgs s) = lg_entries s @ map (Pair t) msgs" for t s
    by (induction msgs arbitrary: s) (simp_all add: log_through_def)
  then show ?thesis by (auto simp: agent_log_def GetLogger_def log_start_def)
qed

end
