(* ===== verification/Audit_Observers.thy ===== *)
theory Audit_Observers
  imports Audit_Subject
begin

text \<open>
  The two observers of \<open>internal/audit\<close>. The file observer appends one JSON line per event through a
  \<open>json.Encoder\<close>, which remembers its first write error and writes nothing after it; the URL observer
  posts and ignores the outcome.
\<close>

section \<open>The file observer\<close>

record file_observer =
  fo_file :: bytes
  fo_enc_err :: "go_error option"
  fo_closed :: bool

text \<open>\<open>NewFileObserver\<close> opens the file for appending, so what it held stays; \<open>Inl\<close> is the failed open.\<close>

definition NewFileObserver :: "go_error + bytes \<Rightarrow> go_error + file_observer" where
  "NewFileObserver opened =
     (case opened of
        Inl err \<Rightarrow> Inl (ErrWrap ''audit file observer: open'' err)
      | Inr old \<Rightarrow> Inr \<lparr>fo_file = old, fo_enc_err = None, fo_closed = False\<rparr>)"

text \<open>
  \<open>enc.Encode\<close> in one \<open>Write\<close>. The outcome is the environment's: \<open>None\<close> when the whole line is written,
  \<open>Some (n, err)\<close> when only \<open>n\<close> bytes are. A closed file takes nothing.
\<close>

definition ErrFileClosed :: go_error where
  "ErrFileClosed = ErrOther ''file already closed''"

definition FileObserver_Notify :: "(nat \<times> go_error) option \<Rightarrow> event \<Rightarrow> file_observer \<Rightarrow> file_observer" where
  "FileObserver_Notify outcome e o' =
     (case fo_enc_err o' of
        Some _ \<Rightarrow> o'
      | None \<Rightarrow>
          (let line = marshal_event e @ [CHR 0x0A] in
           case (if fo_closed o' then Some (0, ErrFileClosed) else outcome) of
             None \<Rightarrow> o'\<lparr>fo_file := fo_file o' @ line\<rparr>
           | Some (n, err) \<Rightarrow> o'\<lparr>fo_file := fo_file o' @ take n line, fo_enc_err := Some err\<rparr>))"

text \<open>\<open>Close\<close>: the environment may report an error; the handle is released either way.\<close>

definition FileObserver_Close :: "go_error option \<Rightarrow> file_observer \<Rightarrow> go_error option \<times> file_observer" where
  "FileObserver_Close outcome o' =
     (if fo_closed o' then (Some ErrFileClosed, o') else (outcome, o'\<lparr>fo_closed := True\<rparr>))"

fun file_notifies :: "((nat \<times> go_error) option \<times> event) list \<Rightarrow> file_observer \<Rightarrow> file_observer" where
  "file_notifies [] o' = o'"
| "file_notifies ((out, e) # es) o' = file_notifies es (FileObserver_Notify out e o')"

section \<open>The URL observer\<close>

text \<open>\<open>post\<close> is the HTTP client, with its timeout in seconds, on the world it acts on; neither its error nor the response is used.\<close>

record url_observer =
  uo_url :: string
  uo_timeout :: nat

definition NewURLObserver :: "string \<Rightarrow> url_observer" where
  "NewURLObserver url = \<lparr>uo_url = url, uo_timeout = 5\<rparr>"

definition URLObserver_Notify ::
    "(nat \<Rightarrow> string \<Rightarrow> string \<Rightarrow> bytes \<Rightarrow> 'w \<Rightarrow> go_error option \<times> 'w) \<Rightarrow> url_observer \<Rightarrow> event \<Rightarrow> 'w \<Rightarrow> 'w" where
  "URLObserver_Notify post o' e w =
     (case post (uo_timeout o') (uo_url o') ''application/json'' (marshal_event e) w of
        (Some err, w') \<Rightarrow> w'
      | (None, w') \<Rightarrow> w')"

section \<open>One event per line\<close>

lemma hex_char_not_newline: "d < 16 \<Longrightarrow> hex_char d \<noteq> CHR 0x0A"
  by (auto simp: hex_char_def char_of_eq_iff take_bit_eq_mod)

lemma escape_ascii_newline: "CHR 0x0A \<notin> set (escape_ascii c)"
proof -
  have "(of_char c :: nat) < 256" by (metis of_char_mod_256 mod_less_divisor zero_less_numeral)
  then have "of_char c div 16 < (16 :: nat)" by (simp add: less_mult_imp_div_less)
  then show ?thesis
    using hex_char_not_newline [of "of_char c div 16"] hex_char_not_newline [of "of_char c mod 16"]
    by (auto simp: escape_ascii_def json_safe_def byte_in_def)
qed

lemma utf8_tail_newline: "0x80 \<le> lo \<Longrightarrow> utf8_tail k lo hi bs \<Longrightarrow> CHR 0x0A \<notin> set bs"
  by (cases bs) (auto simp: utf8_tail_def byte_in_def list_all_iff)

lemma utf8_lead_second: "utf8_lead c = Some (n, lo, hi) \<Longrightarrow> \<not> byte_in 0 0x7F c \<Longrightarrow> 0x80 \<le> lo \<and> 0 < n"
  by (auto simp: utf8_lead_def split: if_splits)

lemma utf8_multi_newline:
  assumes "\<not> byte_in 0 0x7F c" "utf8_len (c # t) = Some n"
  shows "CHR 0x0A \<notin> set (take n (c # t))"
proof -
  obtain lo hi where l: "utf8_lead c = Some (n, lo, hi)" "utf8_tail (n - 1) lo hi (take (n - 1) t)"
    using assms(2) by (auto simp: utf8_len_def split: option.splits if_splits)
  have "0x80 \<le> lo" "0 < n" using utf8_lead_second [OF l(1) assms(1)] by simp_all
  moreover have "c \<noteq> CHR 0x0A" using assms(1) by (auto simp: byte_in_def)
  ultimately show ?thesis using utf8_tail_newline [OF _ l(2)] by (cases n) auto
qed

lemma quote_body_newline: "CHR 0x0A \<notin> set (quote_body s)"
proof (induction s rule: quote_body.induct)
  case (1 s)
  show ?case
  proof (cases s)
    case (Cons c t)
    show ?thesis
    proof (cases "byte_in 0 0x7F c")
      case True
      with 1(1) [OF Cons] Cons show ?thesis by (simp add: quote_body_ascii escape_ascii_newline)
    next
      case False
      show ?thesis
      proof (cases "utf8_len s")
        case None
        with 1(2) [OF Cons False] Cons False show ?thesis by (subst quote_body.simps) simp
      next
        case (Some n)
        with 1(3) [OF Cons False Some] Cons False utf8_multi_newline [OF False, of t n] show ?thesis
          by (simp add: quote_body_multi escape_multi_def)
      qed
    qed
  qed simp
qed

lemma nat_digits_newline: "CHR 0x0A \<notin> set (nat_digits n)"
  using nat_digits_digits [of n] by (auto simp: list_all_iff is_digit_def)

lemma format_int_newline: "CHR 0x0A \<notin> set (format_int i)"
  using nat_digits_newline by (simp add: format_int_def)

lemma render_strings_newline: "CHR 0x0A \<notin> set (render_elems (map JStr ss))"
  by (induction ss) (simp_all add: json_quote_def quote_body_newline)

lemma marshal_event_newline: "CHR 0x0A \<notin> set (marshal_event e)"
  by (simp add: marshal_event_def event_to_json_def json_quote_def quote_body_newline format_int_newline
      render_strings_newline split: option.split)

text \<open>The complete lines of a file.\<close>

fun lines_of :: "bytes \<Rightarrow> bytes \<Rightarrow> bytes list" where
  "lines_of acc [] = []"
| "lines_of acc (c # s) = (if c = CHR 0x0A then acc # lines_of [] s else lines_of (acc @ [c]) s)"

lemma lines_of_line: "CHR 0x0A \<notin> set l \<Longrightarrow> lines_of acc (l @ CHR 0x0A # s) = (acc @ l) # lines_of [] s"
  by (induction l arbitrary: acc) auto

lemma lines_of_events:
  "lines_of [] (concat (map (\<lambda>e. marshal_event e @ [CHR 0x0A]) es)) = map marshal_event es"
proof (induction es)
  case (Cons e es)
  then show ?case using lines_of_line [OF marshal_event_newline, of "[]" e] by simp
qed simp

definition event_ok :: "event \<Rightarrow> bool" where
  "event_ok e \<longleftrightarrow> valid_utf8 (IPAddress e) \<and> (\<forall>ms. Metrics e = Some ms \<longrightarrow> list_all valid_utf8 ms)"

lemma event_keys_valid: "valid_utf8 ''ts''" "valid_utf8 ''metrics''" "valid_utf8 ''ip_address''"
  by (simp_all add: valid_utf8_ascii byte_in_def)

lemma wf_strings: "list_all valid_utf8 ss \<Longrightarrow> wf_elems (map JStr ss)"
  by (induction ss) simp_all

lemma event_unmarshal: "event_ok e \<Longrightarrow> json_unmarshal (marshal_event e) = Some (event_to_json e)"
  unfolding marshal_event_def
  by (rule unmarshal_render)
    (simp add: event_ok_def event_to_json_def event_keys_valid wf_strings format_int_number_lit split: option.split)

lemma file_notifies_good:
  "fo_enc_err o' = None \<Longrightarrow> \<not> fo_closed o' \<Longrightarrow> file_notifies (map (Pair None) es) o'
     = o'\<lparr>fo_file := fo_file o' @ concat (map (\<lambda>e. marshal_event e @ [CHR 0x0A]) es)\<rparr>"
  by (induction es arbitrary: o') (simp_all add: FileObserver_Notify_def Let_def)

lemma file_notifies_stuck: "fo_enc_err o' = Some err \<Longrightarrow> file_notifies es o' = o'"
  by (induction es rule: list.induct) (auto simp: FileObserver_Notify_def)

text \<open>As long as its writes succeed, the file observer extends an empty file by exactly one line per
  event, in order, and each line parses back to its event's JSON when the strings are valid UTF-8.\<close>
lemma audit_file_one_line_per_event:
  assumes "NewFileObserver (Inr []) = Inr o'" and "list_all event_ok es"
  shows "map json_unmarshal (lines_of [] (fo_file (file_notifies (map (Pair None) es) o')))
    = map (Some \<circ> event_to_json) es"
proof -
  have "fo_file (file_notifies (map (Pair None) es) o') = concat (map (\<lambda>e. marshal_event e @ [CHR 0x0A]) es)"
    using assms(1) by (auto simp: NewFileObserver_def file_notifies_good)
  then show ?thesis
    using assms(2) by (simp add: lines_of_events event_unmarshal list_all_iff)
qed

lemma ping_event_ok [simp]: "event_ok ping_event"
  by (simp add: event_ok_def ping_event_def valid_utf8_ascii byte_in_def)

lemma audit_file_one_line_per_event_witness:
  "map json_unmarshal (lines_of [] (fo_file (file_notifies (map (Pair None) [ping_event, ping_event])
      \<lparr>fo_file = [], fo_enc_err = None, fo_closed = False\<rparr>))) = [Some (event_to_json ping_event), Some (event_to_json ping_event)]"
  using audit_file_one_line_per_event [of "\<lparr>fo_file = [], fo_enc_err = None, fo_closed = False\<rparr>" "[ping_event, ping_event]"]
  by (simp add: NewFileObserver_def)

text \<open>A single failed write silences the file observer for good: whatever is notified afterwards,
  with or without errors, the file stays as that write left it.\<close>
lemma audit_file_stuck_after_error:
  assumes "fo_enc_err o' = None" and "\<not> fo_closed o'"
  shows "fo_file (file_notifies ((Some (n, err), e) # later) o')
    = fo_file o' @ take n (marshal_event e @ [CHR 0x0A])"
  using assms by (simp add: FileObserver_Notify_def Let_def file_notifies_stuck)

lemma audit_file_stuck_after_error_witness:
  "fo_file (file_notifies [(Some (0, ErrOther ''no space left on device''), ping_event), (None, ping_event)]
     \<lparr>fo_file = ''x'', fo_enc_err = None, fo_closed = False\<rparr>) = ''x''"
  using audit_file_stuck_after_error [of "\<lparr>fo_file = ''x'', fo_enc_err = None, fo_closed = False\<rparr>" 0
    "ErrOther ''no space left on device''" ping_event "[(None, ping_event)]"] by simp

end
