(* ===== verification/Pool.thy ===== *)
theory Pool
  imports Audit_Subject
begin

text \<open>
  \<open>internal/pool/pool.go\<close>: the generic pool of resettable objects over \<open>sync.Pool\<close>. Objects are
  addresses in an explicit heap, because the point of the pool is that an address is reused; which
  free object \<open>Get\<close> returns, whether it returns one at all, and which ones the garbage collector
  takes from the pool is left open, as \<open>sync.Pool\<close> leaves it. The interface \<open>Resettable\<close> is a locale
  with the one law the pool's clients expect of \<open>Reset\<close>, interpreted on the generated \<open>Event.Reset\<close>.
\<close>

record 'a pool_state =
  p_heap :: "nat \<rightharpoonup> 'a"
  p_free :: "nat list"
  p_owned :: "nat set"

text \<open>
  \<open>New\<close>: what an empty pool hands out; a nil \<open>newFunc\<close> gives the zero value. \<open>newFunc\<close> is taken as a constructor:
  each call gives an object of its own with the same contents, at an address that is not in use. A function that
  returns a pointer it shares with others is not modelled; for it the pool could not keep objects apart.
\<close>

definition pool_New :: "'a option \<Rightarrow> 'a \<Rightarrow> 'a" where
  "pool_New newFunc zero = (case newFunc of Some v \<Rightarrow> v | None \<Rightarrow> zero)"

text \<open>\<open>Get\<close> with the runtime's choice: a free object, or none and a fresh address.\<close>

definition pool_Get :: "'a \<Rightarrow> nat option \<Rightarrow> nat \<Rightarrow> 'a pool_state \<Rightarrow> (nat \<times> 'a pool_state) option" where
  "pool_Get new_obj choice addr p =
     (case choice of
        Some a \<Rightarrow>
          if a \<in> set (p_free p)
          then Some (a, p\<lparr>p_free := remove1 a (p_free p), p_owned := insert a (p_owned p)\<rparr>)
          else None
      | None \<Rightarrow>
          if p_heap p addr = None
          then Some (addr, p\<lparr>p_heap := (p_heap p)(addr \<mapsto> new_obj), p_owned := insert addr (p_owned p)\<rparr>)
          else None)"

text \<open>\<open>Put\<close>: \<open>v.Reset()\<close> in place, then the object goes back.\<close>

definition pool_Put :: "('a \<Rightarrow> 'a) \<Rightarrow> nat \<Rightarrow> 'a pool_state \<Rightarrow> 'a pool_state" where
  "pool_Put reset a p =
     p\<lparr>p_heap := (p_heap p)(a := map_option reset (p_heap p a)), p_free := p_free p @ [a],
       p_owned := p_owned p - {a}\<rparr>"

text \<open>What happens around the pool: a client writes to an object it owns, the collector empties a slot.\<close>

inductive pool_step :: "('a \<Rightarrow> 'a) \<Rightarrow> 'a \<Rightarrow> 'a pool_state \<Rightarrow> 'a pool_state \<Rightarrow> bool"
  for reset :: "'a \<Rightarrow> 'a" and new_obj :: 'a where
  get: "pool_Get new_obj choice addr p = Some (a, p') \<Longrightarrow> pool_step reset new_obj p p'"
| put: "a \<in> p_owned p \<Longrightarrow> pool_step reset new_obj p (pool_Put reset a p)"
| client_write: "a \<in> p_owned p \<Longrightarrow> pool_step reset new_obj p (p\<lparr>p_heap := (p_heap p)(a \<mapsto> v)\<rparr>)"
| collect: "pool_step reset new_obj p (p\<lparr>p_free := remove1 a (p_free p)\<rparr>)"

definition empty_pool :: "'a pool_state" where
  "empty_pool = \<lparr>p_heap = Map.empty, p_free = [], p_owned = {}\<rparr>"

definition pool_inv :: "('a \<Rightarrow> bool) \<Rightarrow> 'a pool_state \<Rightarrow> bool" where
  "pool_inv clean p \<longleftrightarrow> distinct (p_free p) \<and> set (p_free p) \<inter> p_owned p = {}
     \<and> (\<forall>a \<in> set (p_free p). \<exists>x. p_heap p a = Some x \<and> clean x)
     \<and> (\<forall>a \<in> p_owned p. p_heap p a \<noteq> None)"

section \<open>The interface\<close>

locale resettable =
  fixes reset :: "'a \<Rightarrow> 'a"
    and clean :: "'a \<Rightarrow> bool"
  assumes reset_clean: "clean (reset x)"
begin

lemma pool_inv_get:
  assumes new_clean: "clean new_obj"
    and "pool_inv clean p" "pool_Get new_obj choice addr p = Some (a, p')"
  shows "pool_inv clean p' \<and> a \<notin> p_owned p \<and> a \<in> p_owned p' \<and> (\<exists>x. p_heap p' a = Some x \<and> clean x)"
proof (cases choice)
  case None
  with assms(3) have "p_heap p addr = None" "a = addr"
    "p' = p\<lparr>p_heap := (p_heap p)(addr \<mapsto> new_obj), p_owned := insert addr (p_owned p)\<rparr>"
    by (auto simp: pool_Get_def split: if_splits)
  with assms(2) show ?thesis
    using new_clean by (fastforce simp: pool_inv_def)
next
  case (Some b)
  with assms(3) have "a = b" "b \<in> set (p_free p)"
    "p' = p\<lparr>p_free := remove1 b (p_free p), p_owned := insert b (p_owned p)\<rparr>"
    by (auto simp: pool_Get_def split: if_splits)
  with assms(2) show ?thesis by (auto simp: pool_inv_def)
qed

lemma pool_inv_step:
  assumes "pool_step reset new_obj p p'" "pool_inv clean p" "clean new_obj"
  shows "pool_inv clean p'"
  using assms(1)
proof cases
  case (get choice addr a)
  then show ?thesis using pool_inv_get [OF assms(3,2)] by blast
next
  case (put a)
  then show ?thesis using assms(2) reset_clean by (auto simp: pool_inv_def pool_Put_def)
next
  case (client_write a v)
  then show ?thesis using assms(2) by (auto simp: pool_inv_def)
next
  case (collect a)
  then show ?thesis using assms(2) by (auto simp: pool_inv_def)
qed

lemma pool_inv_reachable: "clean new_obj \<Longrightarrow> (pool_step reset new_obj)\<^sup>*\<^sup>* empty_pool p \<Longrightarrow> pool_inv clean p"
  by (rotate_tac, induction rule: rtranclp_induct)
    (simp add: pool_inv_def empty_pool_def, blast intro: pool_inv_step)

end

section \<open>Audit events\<close>

text \<open>An event without data: what the documentation calls its zero values (the slice keeps its memory).\<close>

definition event_clean :: "event option \<Rightarrow> bool" where
  "event_clean e \<longleftrightarrow> (case e of None \<Rightarrow> True
     | Some e \<Rightarrow> TS e = 0 \<and> (Metrics e = None \<or> Metrics e = Some []) \<and> IPAddress e = '''')"

definition zero_event :: "event option" where
  "zero_event = Some \<lparr>TS = 0, Metrics = None, IPAddress = ''''\<rparr>"

interpretation ev: resettable event_Reset event_clean
  by unfold_locales (auto simp: event_Reset_def event_clean_def split: option.split)

text \<open>C40: An event obtained from a pool whose constructor returns clean events is clean and is nobody
  else's, whatever its earlier owners wrote into it before they put it back and whatever the runtime does
  with the pooled objects.\<close>
theorem pool_get_clean:
  assumes "newFunc = None \<or> (\<exists>v. newFunc = Some v \<and> event_clean v)"
    and "(pool_step event_Reset (pool_New newFunc None))\<^sup>*\<^sup>* empty_pool p"
    and "pool_Get (pool_New newFunc None) choice addr p = Some (a, p')"
  shows "a \<notin> p_owned p \<and> (\<exists>x. p_heap p' a = Some x \<and> event_clean x)"
proof -
  have c: "event_clean (pool_New newFunc None)"
    using assms(1) by (auto simp: pool_New_def event_clean_def)
  show ?thesis using ev.pool_inv_get [OF c ev.pool_inv_reachable [OF c assms(2)] assms(3)] by blast
qed

definition used_pool :: "event option pool_state" where
  "used_pool = pool_Put event_Reset 0 \<lparr>p_heap = [0 \<mapsto> Some ping_event], p_free = [], p_owned = {0}\<rparr>"

lemma used_pool_reachable: "(pool_step event_Reset (pool_New (Some zero_event) None))\<^sup>*\<^sup>* empty_pool used_pool"
proof -
  let ?z = "pool_New (Some zero_event) None"
  let ?p1 = "\<lparr>p_heap = [0 \<mapsto> ?z], p_free = [], p_owned = {0}\<rparr>"
  let ?p2 = "\<lparr>p_heap = [0 \<mapsto> Some ping_event], p_free = [], p_owned = {0}\<rparr>"
  have s1: "pool_step event_Reset ?z empty_pool ?p1"
    by (rule pool_step.get [of _ None 0 _ 0]) (simp add: pool_Get_def empty_pool_def)
  have s2: "pool_step event_Reset ?z ?p1 ?p2"
    using pool_step.client_write [of 0 ?p1 event_Reset ?z "Some ping_event"] by simp
  have s3: "pool_step event_Reset ?z ?p2 used_pool"
    unfolding used_pool_def by (rule pool_step.put) simp
  show ?thesis
    by (rule rtranclp.rtrancl_into_rtrancl, rule rtranclp.rtrancl_into_rtrancl,
        rule r_into_rtranclp) (fact s1 s2 s3)+
qed

theorem pool_get_clean_witness:
  "\<exists>a p'. pool_Get (pool_New (Some zero_event) None) (Some 0) 7 used_pool = Some (a, p')
     \<and> a \<notin> p_owned used_pool \<and> (\<exists>x. p_heap p' a = Some x \<and> event_clean x)"
proof -
  obtain a p' where g: "pool_Get (pool_New (Some zero_event) None) (Some 0) 7 used_pool = Some (a, p')"
    by (simp add: pool_Get_def used_pool_def pool_Put_def)
  have "Some zero_event = None \<or> (\<exists>v. Some zero_event = Some v \<and> event_clean v)"
    by (simp add: zero_event_def event_clean_def)
  from pool_get_clean [OF this used_pool_reachable g] g show ?thesis by blast
qed

end
