(* ===== verification/Config_Facts.thy ===== *)
theory Config_Facts
  imports Config
begin

text \<open>
  What the configuration parsers guarantee: the scan for the configuration file agrees with the flag package on
  arguments of the form name=value (and not on others), the order of precedence of the sources of a setting with
  its exception for a zero in the file, and the bounds the agent relies on.
\<close>

section \<open>The scan for the file\<close>

lemma split_at_eq:
  assumes "CHR ''='' \<notin> set n" "CHR ''='' \<notin> set m"
  shows "has_prefix (n @ CHR ''='' # v) (m @ [CHR ''='']) \<longleftrightarrow> n = m"
proof
  assume "has_prefix (n @ CHR ''='' # v) (m @ [CHR ''=''])"
  then obtain t where t: "n @ CHR ''='' # v = m @ CHR ''='' # t" by (auto simp: has_prefix_iff)
  have "takeWhile (\<lambda>c. c \<noteq> CHR ''='') (k @ CHR ''='' # u) = k" if "CHR ''='' \<notin> set k" for k u
    using that by (induction k) auto
  from this [OF assms(1), of v] this [OF assms(2), of t] t show "n = m" by simp
qed (simp add: has_prefix_iff)

text \<open>The shape of an argument that gives a value to a flag with an equals sign.\<close>

lemma name_token_value:
  assumes "name_token s = FlagArg n (Some v)"
  shows "s = n @ CHR ''='' # v \<and> CHR ''='' \<notin> set n \<and> n \<noteq> [] \<and> hd n \<noteq> CHR ''-''"
proof -
  from assms obtain c u where s: "s = c # u" "c \<noteq> CHR ''-''" "c \<noteq> CHR ''=''"
    by (cases s) (auto simp: name_token_def split: if_splits)
  with assms obtain e where "dropWhile (\<lambda>c. c \<noteq> CHR ''='') s = e # v" "n = takeWhile (\<lambda>c. c \<noteq> CHR ''='') s"
    by (auto simp: name_token_def split: list.splits)
  moreover from this have "e = CHR ''=''" by (metis (mono_tags) dropWhile_eq_Cons_conv)
  moreover have "s = takeWhile (\<lambda>c. c \<noteq> CHR ''='') s @ dropWhile (\<lambda>c. c \<noteq> CHR ''='') s" by simp
  ultimately show ?thesis using s by (auto dest: set_takeWhileD)
qed

lemma flag_token_value:
  assumes "flag_token s = FlagArg n (Some v)"
  obtains d where "s = d @ n @ CHR ''='' # v" "d = ''-'' \<or> d = ''--''" "CHR ''='' \<notin> set n" "n \<noteq> []"
    "hd n \<noteq> CHR ''-''"
proof -
  from assms obtain c e t where s: "s = c # e # t" "c = CHR ''-''"
    by (auto simp: flag_token_def split: list.splits if_splits)
  show ?thesis
  proof (cases "e = CHR ''-''")
    case True
    with s assms have "name_token t = FlagArg n (Some v)" by (simp add: flag_token_def split: if_splits)
    from name_token_value [OF this] s True show ?thesis by (intro that [of "''--''"]) auto
  next
    case False
    with s assms have "name_token (e # t) = FlagArg n (Some v)" by (simp add: flag_token_def)
    from name_token_value [OF this] s show ?thesis by (intro that [of "''-''"]) auto
  qed
qed

lemma match_names_value:
  assumes "flag_token s = FlagArg n (Some v)"
  shows "match_names config_names s rest path = (if n \<in> {''c'', ''config''} then v else path)"
proof -
  obtain d where s: "s = d @ n @ CHR ''='' # v" "d = ''-'' \<or> d = ''--''" "CHR ''='' \<notin> set n" "n \<noteq> []"
    "hd n \<noteq> CHR ''-''" using flag_token_value [OF assms] by blast
  have ne: "s \<noteq> k" if "CHR ''='' \<notin> set k" for k using s(1) that by auto
  have pre: "has_prefix s (k @ ''='') \<longleftrightarrow> d @ n = k" if "CHR ''='' \<notin> set k" for k
  proof -
    have "CHR ''='' \<notin> set (d @ n)" using s(2,3) by auto
    then show ?thesis using split_at_eq [OF _ that, of "d @ n" v] s(1) by simp
  qed
  have dn: "d @ n = ''-'' @ k \<longleftrightarrow> d = ''-'' \<and> n = k" "d @ n = ''--'' @ k \<longleftrightarrow> d = ''--'' \<and> n = k"
    if "k \<noteq> []" "hd k \<noteq> CHR ''-''" for k
    using s(2,4,5) that by (auto simp: neq_Nil_conv)
  have len: "drop (length (d @ n) + 1) s = v" using s(1) by simp
  have names: "config_names = [''-'' @ ''c'', ''--'' @ ''c'', ''-'' @ ''config'', ''--'' @ ''config'']"
    by (simp add: config_names_def)
  show ?thesis
    unfolding names using s(2) len dn [of "''c''"] dn [of "''config''"]
    by (auto simp: pre [of "''-'' @ ''c''", simplified] pre [of "''--'' @ ''c''", simplified] ne
        pre [of "''-'' @ ''config''", simplified] pre [of "''--'' @ ''config''", simplified])
qed

definition equals_form :: "string \<Rightarrow> bool" where
  "equals_form s \<longleftrightarrow> (case flag_token s of FlagArg n (Some _) \<Rightarrow> server_flag_kind n \<noteq> None | _ \<Rightarrow> False)"

text \<open>C30: When every argument gives its flag a value with an equals sign, the pre-scan for the configuration file
  agrees with the flag package: it returns the value of the last -c or -config, and CONFIG when there is none.\<close>
theorem config_scan_agrees:
  assumes "list_all equals_form args"
  shows "FindConfigPath env args
    = fold (\<lambda>(n, v) path. if n \<in> {''c'', ''config''} then v else path) (flag_values server_flag_kind args) env"
  unfolding FindConfigPath_def using assms
proof (induction args arbitrary: env)
  case Nil
  show ?case by simp
next
  case (Cons s args)
  from Cons.prems obtain n v b where "flag_token s = FlagArg n (Some v)" "server_flag_kind n = Some b"
    by (auto simp: equals_form_def split: flag_token.splits option.splits)
  with Cons match_names_value [of s n v args env] show ?case by (cases b) simp_all
qed

theorem config_scan_agrees_witness:
  "FindConfigPath ''env.json'' [''-c=a.json'', ''-i=5'', ''--config=b.json''] = ''b.json''"
  using config_scan_agrees [of "[''-c=a.json'', ''-i=5'', ''--config=b.json'']" "''env.json''"]
  by (simp add: equals_form_def flag_token_def name_token_def server_flag_kind_def)

text \<open>With separate values the scan takes the value of another flag for the file: here the signing key.\<close>

lemma config_scan_misreads_value:
  "flag_values server_flag_kind [''-k'', ''-c=x''] = [(''k'', ''-c=x'')]
   \<and> FindConfigPath '''' [''-k'', ''-c=x''] = ''x''"
  by (simp add: flag_token_def name_token_def server_flag_kind_def FindConfigPath_def config_names_def has_prefix_def)

section \<open>Precedence\<close>

text \<open>What \<open>mergo.Merge\<close> documents, on one field: a zero field takes the value of the defaults.\<close>

definition merge_fills :: "(server_config \<Rightarrow> server_config \<Rightarrow> go_error + server_config) \<Rightarrow> bool" where
  "merge_fills merge \<longleftrightarrow> (\<forall>a d m. merge a d = Inr m \<longrightarrow>
     sc_StoreIntervalSec m = (if sc_StoreIntervalSec a = 0 then sc_StoreIntervalSec d else sc_StoreIntervalSec a))"

text \<open>The variable STORE_INTERVAL, when it is set, replaces the field.\<close>

definition env_overlay :: "int option \<Rightarrow> (server_config \<Rightarrow> go_error + server_config) \<Rightarrow> bool" where
  "env_overlay var overlay \<longleftrightarrow> (\<forall>c c'. overlay c = Inr c' \<longrightarrow>
     sc_StoreIntervalSec c' = (case var of None \<Rightarrow> sc_StoreIntervalSec c | Some i \<Rightarrow> i))"

definition json_interval :: "(nat \<Rightarrow> nat \<Rightarrow> nat \<Rightarrow> nat) \<Rightarrow> server_json \<Rightarrow> int" where
  "json_interval frac j =
     (if sj_StoreInterval j = '''' then 0
      else (case ParseDuration frac (sj_StoreInterval j) of Inl _ \<Rightarrow> 0 | Inr d \<Rightarrow> whole_seconds d))"

lemma server_json_interval:
  "serverConfigFromJSON frac j = Inr c \<Longrightarrow> sc_StoreIntervalSec c = json_interval frac j"
  by (auto simp: serverConfigFromJSON_def json_interval_def zero_server_config_def Let_def
      split: if_splits sum.splits option.splits)

lemma interval_flag:
  "set_server_flag n v c = Some c' \<Longrightarrow>
   sc_StoreIntervalSec c' = (if n = ''i'' then the (parse_int0 v) else sc_StoreIntervalSec c)"
  by (auto simp: set_server_flag_def split: if_splits)

text \<open>C29: The store interval of a parsed configuration comes from STORE_INTERVAL if it is set, else from the last -i
  flag, else from the file when that gives a non-zero number of seconds, else it is the built-in 300. So an
  interval of zero, the synchronous mode, cannot be asked for in the file.\<close>
theorem interval_precedence:
  assumes "ParseFlags se = Parsed cfg" and "merge_fills (se_merge se)" and "env_overlay var (se_env se)"
  shows "\<exists>j. server_file se = Inr j \<and> sc_StoreIntervalSec cfg =
    (case var of Some i \<Rightarrow> i
     | None \<Rightarrow> (case last_value ''i'' (flag_values server_flag_kind (se_args se)) of
         Some v \<Rightarrow> the (parse_int0 v)
       | None \<Rightarrow> if json_interval (se_frac se) j \<noteq> 0 then json_interval (se_frac se) j else 300))"
proof -
  from assms(1) obtain j c m c' where
    j: "server_file se = Inr j" "serverConfigFromJSON (se_frac se) j = Inr c" "se_merge se c serverDefaults = Inr m"
    and p: "parse_flags server_flag_kind set_server_flag (se_args se) (server_flag_defaults m) = Some (c', [])"
    and e: "se_env se c' = Inr cfg"
    by (auto simp: ParseFlags_def split: sum.splits option.splits if_splits)
  have "sc_StoreIntervalSec (server_flag_defaults m) = (if json_interval (se_frac se) j = 0 then 300
      else json_interval (se_frac se) j)"
    using assms(2) j(2,3) server_json_interval
    by (auto simp: merge_fills_def server_flag_defaults_def serverDefaults_def)
  with parse_flags_field [where get = sc_StoreIntervalSec and name = "''i''", OF interval_flag p]
  show ?thesis using j(1) assms(3) e by (auto simp: env_overlay_def split: option.splits)
qed

definition demo_merge :: "server_config \<Rightarrow> server_config \<Rightarrow> go_error + server_config" where
  "demo_merge a d = Inr (a\<lparr>sc_StoreIntervalSec :=
     (if sc_StoreIntervalSec a = 0 then sc_StoreIntervalSec d else sc_StoreIntervalSec a)\<rparr>)"

definition zero_interval_start :: "server_config start_env" where
  "zero_interval_start = \<lparr>se_config = '''', se_args = [''-c=s.json''],
     se_read = (\<lambda>_. Inr (''{'' @ [CHR 0x22] @ ''store_interval'' @ [CHR 0x22] @ '':'' @ [CHR 0x22] @ ''0s'' @ [CHR 0x22] @ ''}'')),
     se_frac = (\<lambda>_ _ _. 0), se_merge = demo_merge, se_env = Inr\<rparr>"

lemma zero_interval_file:
  "unmarshal_server_json (''{'' @ [CHR 0x22] @ ''store_interval'' @ [CHR 0x22] @ '':'' @ [CHR 0x22] @ ''0s'' @ [CHR 0x22] @ ''}'')
   = Some (zero_server_json\<lparr>sj_StoreInterval := ''0s''\<rparr>)"
  by code_simp

lemma zero_interval_duration: "ParseDuration f ''0s'' = Inr 0"
  using ParseDuration_seconds [of 0 f] by (simp add: nat_digits.simps [of 0] digit_char_0)

lemma zero_interval_parsed:
  "\<exists>cfg. ParseFlags zero_interval_start = Parsed cfg \<and> server_file zero_interval_start = Inr (zero_server_json\<lparr>sj_StoreInterval := ''0s''\<rparr>)"
proof -
  have path: "FindConfigPath '''' [''-c=s.json''] = ''s.json''"
    by (simp add: FindConfigPath_def config_names_def has_prefix_def)
  have f: "server_file zero_interval_start = Inr (zero_server_json\<lparr>sj_StoreInterval := ''0s''\<rparr>)"
    using zero_interval_file by (simp add: server_file_def zero_interval_start_def path loadJSONFile_def)
  have t: "flag_token ''-c=s.json'' = FlagArg ''c'' (Some ''s.json'')" by (simp add: flag_token_def name_token_def)
  show ?thesis
    by (simp add: ParseFlags_def f) (simp add: zero_interval_start_def serverConfigFromJSON_def zero_server_json_def
      zero_interval_duration demo_merge_def t server_flag_kind_def set_server_flag_def)
qed

theorem interval_precedence_witness:
  "\<exists>cfg. ParseFlags zero_interval_start = Parsed cfg \<and> sc_StoreIntervalSec cfg = 300"
proof -
  obtain cfg where c: "ParseFlags zero_interval_start = Parsed cfg"
    and f: "server_file zero_interval_start = Inr (zero_server_json\<lparr>sj_StoreInterval := ''0s''\<rparr>)"
    using zero_interval_parsed by blast
  have v: "flag_values server_flag_kind (se_args zero_interval_start) = [(''c'', ''s.json'')]"
    by (simp add: zero_interval_start_def flag_token_def name_token_def server_flag_kind_def)
  have "json_interval fr (zero_server_json\<lparr>sj_StoreInterval := ''0s''\<rparr>) = 0" for fr
    by (simp add: json_interval_def zero_interval_duration whole_seconds_def)
  moreover have "merge_fills (se_merge zero_interval_start)" "env_overlay None (se_env zero_interval_start)"
    by (simp_all add: merge_fills_def env_overlay_def zero_interval_start_def demo_merge_def)
  ultimately have "sc_StoreIntervalSec cfg = 300"
    using interval_precedence [OF c, of None] f v by (simp add: last_value_Cons)
  with c show ?thesis by blast
qed

section \<open>Bounds\<close>

lemma whole_seconds_exact: "whole_seconds (int n * 1000000000) = int n"
  by (cases "n = 0") (simp_all add: whole_seconds_def sgn_mult)

text \<open>A store interval written as a whole number of seconds in the file is read back as that number, up to the
  largest duration.\<close>
lemma interval_seconds_roundtrip:
  assumes "n \<le> 9223372036" and "sj_StoreInterval j = nat_digits n @ ''s''"
  shows "\<exists>c. serverConfigFromJSON frac j = Inr c \<and> sc_StoreIntervalSec c = int n"
  using assms ParseDuration_seconds [of n frac]
  by (auto simp: serverConfigFromJSON_def Let_def whole_seconds_exact zero_server_config_def split: option.split)

lemma interval_seconds_roundtrip_witness:
  "\<exists>c. serverConfigFromJSON (\<lambda>_ _ _. 0) (zero_server_json\<lparr>sj_StoreInterval := ''300s''\<rparr>) = Inr c
     \<and> sc_StoreIntervalSec c = 300"
proof -
  have "nat_digits 300 = ''300''" by code_simp
  then show ?thesis
    using interval_seconds_roundtrip [of 300 "zero_server_json\<lparr>sj_StoreInterval := ''300s''\<rparr>" "\<lambda>_ _ _. 0"] by simp
qed

text \<open>Whatever the file, the flags, the environment and the merge say, the rate limit of a parsed agent
  configuration is positive: there is at least one worker and the job queue has room.\<close>
lemma agent_rate_limit_positive:
  assumes "ParseAgentFlags se = Parsed cfg"
  shows "0 < ac_RateLimit cfg"
  using assms by (auto simp: ParseAgentFlags_def agentDefaults_def split: sum.splits option.splits if_splits)

lemma agent_rate_limit_positive_witness:
  "\<exists>cfg. ParseAgentFlags \<lparr>se_config = '''', se_args = [''-l'', ''-3''], se_read = (\<lambda>_. Inl (ErrOther ''read'')),
      se_frac = (\<lambda>_ _ _. 0), se_merge = (\<lambda>a d. Inr d), se_env = Inr\<rparr> = Parsed cfg \<and> 0 < ac_RateLimit cfg"
proof -
  let ?se = "\<lparr>se_config = '''', se_args = [''-l'', ''-3''], se_read = (\<lambda>_. Inl (ErrOther ''read'')),
      se_frac = (\<lambda>_ _ _. 0), se_merge = (\<lambda>a d. Inr d), se_env = Inr\<rparr> :: agent_config start_env"
  have i: "parse_int0 ''-3'' = Some (-3)"
    by code_simp
  have "\<exists>cfg. ParseAgentFlags ?se = Parsed cfg"
    by (simp add: ParseAgentFlags_def agent_file_def FindConfigPath_def config_names_def has_prefix_def
        agentConfigFromJSON_def zero_agent_json_def flag_token_def name_token_def agent_flag_kind_def
        set_agent_flag_def i)
  then show ?thesis using agent_rate_limit_positive [of ?se] by blast
qed

end
