(* ===== verification/Agent_Boot.thy ===== *)
theory Agent_Boot
  imports Agent_Main Config_Facts
begin

text \<open>
  \<open>run\<close> of \<open>cmd/agent/main.go\<close> from the configuration to its return: the sender, the goroutines it starts with
  their tickers, the queue and the worker pool, the wait for the signal and for the goroutines, and the deferred
  releases. What the goroutines do is \<open>Agent_Main\<close>, \<open>Agent_Grpc\<close> and \<open>Collector\<close>.
\<close>

section \<open>Actions\<close>

datatype agent_resource = SignalContext | DrainContext | GrpcConnection

text \<open>The goroutines, with the duration of their ticker in nanoseconds.\<close>

datatype 'pub agent_action =
    Hold agent_resource
  | DropLater agent_resource
  | Drop agent_resource
  | GoCollect int
  | GoGopsutil int
  | GoGrpcReporter int grpc_sender
  | GoReporter int int
  | GoWorker "'pub sender"
  | AwaitSignal
  | AwaitGoroutines nat

datatype agent_end = Returns "go_error option" | Exits | Panics

type_synonym 'pub agent_run = "'pub agent_action list \<times> agent_end"

text \<open>\<open>DropLater\<close> is a \<open>defer\<close>: what has been deferred is dropped when \<open>run\<close> returns or panics, the latest first.\<close>

fun dropped_later :: "'pub agent_action list \<Rightarrow> agent_resource list" where
  "dropped_later [] = []"
| "dropped_later (a # acts) = (case a of DropLater r \<Rightarrow> dropped_later acts @ [r] | _ \<Rightarrow> dropped_later acts)"

definition run_agent_defers :: "'pub agent_run \<Rightarrow> 'pub agent_run" where
  "run_agent_defers k = (case k of (acts, e) \<Rightarrow> (acts @ map Drop (dropped_later acts), e))"

definition then_run :: "'pub agent_action list \<Rightarrow> 'pub agent_run \<Rightarrow> 'pub agent_run" where
  "then_run acts k = (case k of (acts', e) \<Rightarrow> (acts @ acts', e))"

text \<open>\<open>ab_chan_limit\<close>: the largest capacity for which the run time can allocate a channel of \<open>model.Metrics\<close>.\<close>

record 'pub agent_boot =
  ab_config :: "agent_config parse_result"
  ab_keys :: "'pub key_library"
  ab_dialled :: "string option"
  ab_grpc :: "string \<Rightarrow> go_error option"
  ab_chan_limit :: int

definition shutdownTimeout :: nat where
  "shutdownTimeout = 30"

text \<open>The end of \<open>run\<close>: the signal, \<open>stop()\<close>, then at most \<open>shutdownTimeout\<close> for the goroutines.\<close>

definition wait_stage :: "'pub agent_run" where
  "wait_stage = ([AwaitSignal, Drop SignalContext, AwaitGoroutines shutdownTimeout], Returns None)"

text \<open>\<open>make(chan, RateLimit*2)\<close> in 64-bit arithmetic; a negative size panics, and so does one that cannot be allocated.\<close>

definition queue_size :: "int \<Rightarrow> int" where
  "queue_size rateLimit = sint (word_of_int rateLimit * 2 :: int64)"

definition http_stage :: "'pub agent_boot \<Rightarrow> agent_config \<Rightarrow> 'pub sender \<Rightarrow> 'pub agent_run" where
  "http_stage ab cfg sender =
     (if queue_size (ac_RateLimit cfg) < 0 \<or> ab_chan_limit ab < queue_size (ac_RateLimit cfg) then ([], Panics)
      else then_run (GoReporter (seconds_duration (ac_ReportInterval cfg)) (queue_size (ac_RateLimit cfg))
             # replicate (nat (ac_RateLimit cfg)) (GoWorker sender)) wait_stage)"

definition grpc_mode_stage :: "'pub agent_boot \<Rightarrow> agent_config \<Rightarrow> 'pub agent_run" where
  "grpc_mode_stage ab cfg =
     (case NewGRPCSender (ac_GRPCAddress cfg) (ab_grpc ab (ac_GRPCAddress cfg)) (outboundIP (ab_dialled ab)) of
        Inl err \<Rightarrow> ([], Returns (Some (ErrWrap ''create grpc sender'' err)))
      | Inr g \<Rightarrow>
          then_run [Hold GrpcConnection, DropLater GrpcConnection,
            GoGrpcReporter (seconds_duration (ac_ReportInterval cfg)) g] wait_stage)"

definition goroutines_stage :: "'pub agent_boot \<Rightarrow> agent_config \<Rightarrow> 'pub sender \<Rightarrow> 'pub agent_run" where
  "goroutines_stage ab cfg sender =
     (let poll = seconds_duration (ac_PollInterval cfg)
      in then_run [GoCollect poll, GoGopsutil poll]
           (if ac_GRPCAddress cfg \<noteq> '''' then grpc_mode_stage ab cfg else http_stage ab cfg sender))"

definition agent_body :: "'pub agent_boot \<Rightarrow> 'pub agent_run" where
  "agent_body ab =
     (case ab_config ab of
        FlagExit \<Rightarrow> ([], Exits)
      | ParseFails err \<Rightarrow> ([], Returns (Some err))
      | Parsed cfg \<Rightarrow>
          (case setup_sender (ab_keys ab) (server_url (ac_Address cfg)) (ac_Key cfg) (ac_CryptoKey cfg) (ab_dialled ab) of
             Inl err \<Rightarrow> ([], Returns (Some err))
           | Inr sender \<Rightarrow>
               then_run [Hold SignalContext, DropLater SignalContext, Hold DrainContext, DropLater DrainContext]
                 (goroutines_stage ab cfg sender)))"

definition run_agent :: "'pub agent_boot \<Rightarrow> 'pub agent_run" where
  "run_agent ab = run_agent_defers (agent_body ab)"

text \<open>\<open>time.NewTicker\<close> panics in the goroutine, which ends the process.\<close>

fun ticker_panics :: "'pub agent_action \<Rightarrow> bool" where
  "ticker_panics (GoCollect d) \<longleftrightarrow> d \<le> 0"
| "ticker_panics (GoGopsutil d) \<longleftrightarrow> d \<le> 0"
| "ticker_panics (GoGrpcReporter d g) \<longleftrightarrow> d \<le> 0"
| "ticker_panics (GoReporter d n) \<longleftrightarrow> d \<le> 0"
| "ticker_panics _ \<longleftrightarrow> False"

section \<open>What a run guarantees\<close>

lemma then_run_sel [simp]:
  "fst (then_run acts k) = acts @ fst k" "snd (then_run acts k) = snd k"
  by (simp_all add: then_run_def split: prod.split)

lemma run_agent_sel [simp]:
  "fst (run_agent_defers k) = fst k @ map Drop (dropped_later (fst k))" "snd (run_agent_defers k) = snd k"
  by (simp_all add: run_agent_defers_def split: prod.split)

lemma dropped_later_append [simp]: "dropped_later (xs @ ys) = dropped_later ys @ dropped_later xs"
  by (induction xs) (simp_all split: agent_action.split)

lemma dropped_later_workers [simp]: "dropped_later (replicate n (GoWorker sender)) = []"
  by (induction n) simp_all

lemma queue_size_exact: "0 < n \<Longrightarrow> n < 2 ^ 62 \<Longrightarrow> queue_size n = 2 * n"
  unfolding queue_size_def using sint_of_range [of "n * 2"] by (simp add: int64_range_def)

text \<open>C32: In HTTP mode an agent whose arguments parse and whose sender can be set up, with intervals between 1 second
  and the largest duration and a rate limit whose double the run time can allocate as a channel capacity, gets
  through \<open>run\<close> without a panic: no ticker is refused, there is at least one worker, exactly as many as the rate
  limit, behind a queue twice that size, and both contexts are cancelled at the end, the later one first (the signal
  context for the second time). With a larger rate limit, below \<open>2 ^ 62\<close>, making the queue panics and the same
  releases follow. That there is memory for the queue and for the workers is assumed.\<close>
theorem agent_starts:
  assumes "ab_config ab = ParseAgentFlags se" and "ParseAgentFlags se = Parsed cfg"
    and "1 \<le> ac_PollInterval cfg" and "ac_PollInterval cfg \<le> 9223372036"
    and "1 \<le> ac_ReportInterval cfg" and "ac_ReportInterval cfg \<le> 9223372036"
    and "ac_RateLimit cfg < 2 ^ 62" and "ac_GRPCAddress cfg = ''''"
    and "setup_sender (ab_keys ab) (server_url (ac_Address cfg)) (ac_Key cfg) (ac_CryptoKey cfg) (ab_dialled ab)
      = Inr sender"
  shows "if 2 * ac_RateLimit cfg \<le> ab_chan_limit ab
    then snd (run_agent ab) = Returns None \<and> list_all (\<lambda>a. \<not> ticker_panics a) (fst (run_agent ab))
      \<and> GoReporter (ac_ReportInterval cfg * 1000000000) (2 * ac_RateLimit cfg) \<in> set (fst (run_agent ab))
      \<and> int (length (filter (\<lambda>a. a = GoWorker sender) (fst (run_agent ab)))) = ac_RateLimit cfg
      \<and> 0 < ac_RateLimit cfg
      \<and> (\<exists>acts. fst (run_agent ab) = acts @ [AwaitSignal, Drop SignalContext, AwaitGoroutines 30, Drop DrainContext, Drop SignalContext])
    else snd (run_agent ab) = Panics
      \<and> (\<exists>acts. fst (run_agent ab) = acts @ [Drop DrainContext, Drop SignalContext])"
proof -
  have pos: "0 < ac_RateLimit cfg" using agent_rate_limit_positive [OF assms(2)] .
  have d: "seconds_duration (ac_PollInterval cfg) = ac_PollInterval cfg * 1000000000"
    "seconds_duration (ac_ReportInterval cfg) = ac_ReportInterval cfg * 1000000000"
    using assms(3-6) by (simp_all add: seconds_duration_exact)
  note q = queue_size_exact [OF pos assms(7)]
  have body: "agent_body ab = then_run [Hold SignalContext, DropLater SignalContext, Hold DrainContext, DropLater DrainContext]
      (goroutines_stage ab cfg sender)"
    using assms(1,2,9) by (simp add: agent_body_def)
  show ?thesis
    unfolding run_agent_def body using assms(3,5,8) pos
    by (simp add: goroutines_stage_def http_stage_def d q wait_stage_def shutdownTimeout_def Let_def list_all_iff)
qed

definition start_with :: "string list \<Rightarrow> agent_config start_env" where
  "start_with args = \<lparr>se_config = '''', se_args = args, se_read = (\<lambda>_. Inl (ErrOther ''read'')),
     se_frac = (\<lambda>_ _ _. 0), se_merge = (\<lambda>a d. Inr d), se_env = Inr\<rparr>"

definition no_keys :: "unit key_library" where
  "no_keys = \<lparr>os_ReadFile = (\<lambda>_. Inl (ErrOther ''read'')), pem_Decode = (\<lambda>_. None),
     parse_PKCS1 = (\<lambda>_. Inl (ErrOther ''key'')), parse_any = (\<lambda>_. Inl (ErrOther ''key''))\<rparr>"

definition boot_with :: "string list \<Rightarrow> unit agent_boot" where
  "boot_with args = \<lparr>ab_config = ParseAgentFlags (start_with args), ab_keys = no_keys, ab_dialled = None,
     ab_grpc = (\<lambda>_. None), ab_chan_limit = 2 ^ 42 - 2\<rparr>"

lemma start_defaults: "ParseAgentFlags (start_with []) = Parsed agentDefaults"
  by (simp add: ParseAgentFlags_def agent_file_def start_with_def FindConfigPath_def agentConfigFromJSON_def
      zero_agent_json_def agentDefaults_def)

lemma start_no_poll: "ParseAgentFlags (start_with [''-p=0'']) = Parsed (agentDefaults\<lparr>ac_PollInterval := 0\<rparr>)"
proof -
  have i: "parse_int0 ''0'' = Some 0" by code_simp
  show ?thesis
    by (simp add: ParseAgentFlags_def agent_file_def start_with_def FindConfigPath_def config_names_def has_prefix_def
        agentConfigFromJSON_def zero_agent_json_def agentDefaults_def flag_token_def name_token_def agent_flag_kind_def
        set_agent_flag_def i)
qed

theorem agent_starts_witness:
  "snd (run_agent (boot_with [])) = Returns None
   \<and> GoReporter 10000000000 10 \<in> set (fst (run_agent (boot_with [])))"
proof -
  have "setup_sender (ab_keys (boot_with [])) (server_url (ac_Address agentDefaults)) (ac_Key agentDefaults)
      (ac_CryptoKey agentDefaults) (ab_dialled (boot_with []))
      = Inr (NewSender (server_url ''localhost:8080'') '''' None None)"
    by (simp add: setup_sender_def agentDefaults_def boot_with_def)
  from agent_starts [OF _ start_defaults _ _ _ _ _ _ this] show ?thesis
    by (simp add: boot_with_def agentDefaults_def)
qed

text \<open>The intervals are not checked: with -p=0 the arguments parse, the agent starts both collecting goroutines
  with a ticker of zero, and \<open>time.NewTicker\<close> panics.\<close>
lemma agent_zero_interval_panics:
  "\<exists>cfg. ParseAgentFlags (start_with [''-p=0'']) = Parsed cfg
     \<and> {GoCollect 0, GoGopsutil 0} \<subseteq> set (fst (run_agent (boot_with [''-p=0''])))
     \<and> list_ex ticker_panics (fst (run_agent (boot_with [''-p=0''])))"
proof -
  have "seconds_duration 0 = 0" by (simp add: seconds_duration_exact)
  then have "{GoCollect 0, GoGopsutil 0} \<subseteq> set (fst (run_agent (boot_with [''-p=0''])))"
    by (simp add: run_agent_def agent_body_def boot_with_def start_no_poll setup_sender_def goroutines_stage_def agentDefaults_def Let_def)
  moreover from this have "list_ex ticker_panics (fst (run_agent (boot_with [''-p=0''])))"
    by (auto simp: list_ex_iff intro!: bexI [of _ "GoCollect 0"])
  ultimately show ?thesis using start_no_poll by blast
qed

end
