(* ===== verification/Build_Info.thy ===== *)
theory Build_Info
  imports Server_Boot Agent_Boot
begin

text \<open>
  The two \<open>main\<close> functions around their \<open>run\<close>: the build information \<open>internal/buildinfo\<close> prints first and the exit
  code of the process.
\<close>

definition Print_text :: "string \<Rightarrow> string \<Rightarrow> string \<Rightarrow> string" where
  "Print_text version date commit_id =
     ''Build version: '' @ version @ [CHR 0x0A] @ ''Build date: '' @ date @ [CHR 0x0A]
     @ ''Build commit_id: '' @ commit_id @ [CHR 0x0A]"

text \<open>\<open>log.Fatalf\<close> and \<open>os.Exit(1)\<close> end with code 1.\<close>

definition server_main :: "string \<times> string \<times> string \<Rightarrow> ('priv, 'ip) boot_env \<Rightarrow> string \<times> action list \<times> nat" where
  "server_main build be =
     (case build of (version, date, commit_id) \<Rightarrow>
        case run_server be of (acts, err) \<Rightarrow>
          (Print_text version date commit_id, acts, if err = None then 0 else 1))"

text \<open>A panic and a flag error end with code 2; help, which the flag package answers with 0, is not told apart.\<close>

definition agent_main :: "string \<times> string \<times> string \<Rightarrow> 'pub agent_boot \<Rightarrow> string \<times> 'pub agent_action list \<times> nat" where
  "agent_main build ab =
     (case build of (version, date, commit_id) \<Rightarrow>
        case run_agent ab of (acts, e) \<Rightarrow>
          (Print_text version date commit_id, acts,
           case e of Returns None \<Rightarrow> 0 | Returns (Some _) \<Rightarrow> 1 | Exits \<Rightarrow> 2 | Panics \<Rightarrow> 2))"

lemma server_main_code: "snd (snd (server_main build be)) = 0 \<longleftrightarrow> snd (run_server be) = None"
  by (cases build; cases "run_server be") (simp add: server_main_def)

end
