(* ===== verification/Reset_Gen.thy ===== *)
theory Reset_Gen
  imports Json_String
begin

text \<open>
  The generator \<open>cmd/reset\<close>: from the syntax of a package's files to the text of its \<open>reset.gen.go\<close>. The Go parser,
  \<open>format.Source\<close> and the tables of the \<open>unicode\<close> package are parameters; everything the program writes itself,
  the template included, is translated.
\<close>

section \<open>Syntax the generator reads\<close>

text \<open>\<open>ast.Expr\<close> as far as the type switches distinguish it. The length of an array type is nil for a slice.\<close>

datatype expr =
    Ident string
  | SelectorExpr expr string
  | ArrayType "expr option" expr
  | MapType expr expr
  | StarExpr expr
  | InterfaceType
  | ChanType
  | FuncType
  | OtherExpr

record ast_field =
  fl_names :: "string list"
  fl_type :: expr

text \<open>A type specification; \<open>ts_fields\<close> is \<open>None\<close> when it is not a struct. A nil comment group is \<open>None\<close>.\<close>

record type_spec =
  ts_name :: string
  ts_doc :: "string list option"
  ts_fields :: "ast_field list option"

datatype decl = TypeDecl "string list option" "type_spec list" | OtherDecl

record struct_info =
  si_name :: string
  si_fields :: "ast_field list"

section \<open>Annotations\<close>

text \<open>The white space of \<open>strings.TrimSpace\<close>, as UTF-8.\<close>

definition space_runes :: "string list" where
  "space_runes = map (\<lambda>c. [c]) [CHR 0x09, CHR 0x0A, CHR 0x0B, CHR 0x0C, CHR 0x0D, CHR 0x20]
     @ [[CHR 0xC2, CHR 0x85], [CHR 0xC2, CHR 0xA0], [CHR 0xE1, CHR 0x9A, CHR 0x80]]
     @ map (\<lambda>n. [CHR 0xE2, CHR 0x80, char_of n]) [0x80..<(0x8B::nat)]
     @ [[CHR 0xE2, CHR 0x80, CHR 0xA8], [CHR 0xE2, CHR 0x80, CHR 0xA9], [CHR 0xE2, CHR 0x80, CHR 0xAF],
        [CHR 0xE2, CHR 0x81, CHR 0x9F], [CHR 0xE3, CHR 0x80, CHR 0x80]]"

function strip_left :: "string list \<Rightarrow> string \<Rightarrow> string" where
  "strip_left spaces s =
     (case find (\<lambda>p. p \<noteq> [] \<and> has_prefix s p) spaces of
        None \<Rightarrow> s
      | Some p \<Rightarrow> strip_left spaces (drop (length p) s))"
  by pat_completeness auto

termination
proof (relation "measure (\<lambda>(spaces, s). length s)", simp)
  fix spaces s p
  assume "find (\<lambda>p. p \<noteq> [] \<and> has_prefix s p) spaces = Some p"
  then have "p \<noteq> []" "has_prefix s p" by (auto simp: find_Some_iff)
  then have "0 < length p" "length p \<le> length s" by (auto simp: has_prefix_iff)
  then have "length s - length p < length s" by linarith
  then show "((spaces, drop (length p) s), spaces, s) \<in> measure (\<lambda>(spaces, s). length s)" by simp
qed

declare strip_left.simps [simp del]

definition TrimSpace :: "string \<Rightarrow> string" where
  "TrimSpace s = rev (strip_left (map rev space_runes) (rev (strip_left space_runes s)))"

definition trim_prefix :: "string \<Rightarrow> string \<Rightarrow> string" where
  "trim_prefix s p = (if has_prefix s p then drop (length p) s else s)"

definition hasResetAnnotation :: "string list option \<Rightarrow> bool" where
  "hasResetAnnotation doc =
     (case doc of
        None \<Rightarrow> False
      | Some texts \<Rightarrow> list_ex (\<lambda>c. TrimSpace (trim_prefix c ''//'') = ''generate:reset'') texts)"

section \<open>Names\<close>

text \<open>\<open>unicode r\<close> is the lower case of the letter \<open>r\<close>, \<open>None\<close> when \<open>r\<close> is no letter; used for runes beyond ASCII.\<close>

fun recvName :: "(string \<Rightarrow> string option) \<Rightarrow> string \<Rightarrow> string" where
  "recvName unicode [] = ''s''"
| "recvName unicode (c # t) =
     (if byte_in 65 90 c then [char_of (of_char c + (32::nat))]
      else if byte_in 97 122 c then [c]
      else if of_char c < (128::nat) then recvName unicode t
      else (case utf8_len (c # t) of
              None \<Rightarrow> recvName unicode t
            | Some n \<Rightarrow>
                (case unicode (take n (c # t)) of
                   Some l \<Rightarrow> l
                 | None \<Rightarrow> recvName unicode (drop (n - 1) t))))"

fun embeddedTypeName :: "expr \<Rightarrow> string" where
  "embeddedTypeName (Ident n) = n"
| "embeddedTypeName (StarExpr x) = embeddedTypeName x"
| "embeddedTypeName (SelectorExpr x sel) = sel"
| "embeddedTypeName _ = ''''"

definition fieldNames :: "ast_field \<Rightarrow> string list" where
  "fieldNames f =
     (if fl_names f \<noteq> [] then fl_names f
      else let name = embeddedTypeName (fl_type f) in if name \<noteq> '''' then [name] else [])"

section \<open>Statements\<close>

definition zero_types :: "string list" where
  "zero_types = [''int'', ''int8'', ''int16'', ''int32'', ''int64'', ''uint'', ''uint8'', ''uint16'', ''uint32'', ''uint64'',
     ''uintptr'', ''byte'', ''rune'', ''float32'', ''float64'', ''complex64'', ''complex128'']"

definition primitiveZero :: "string \<Rightarrow> string option" where
  "primitiveZero name =
     (if name \<in> set zero_types then Some ''0''
      else if name = ''bool'' then Some ''false''
      else if name = ''string'' then Some [CHR 0x22, CHR 0x22]
      else None)"

definition ptrResetLine :: "string \<Rightarrow> expr \<Rightarrow> string" where
  "ptrResetLine ref inn =
     (let delegate = ''if '' @ ref @ '' != nil { if _r, _ok := any('' @ ref @ '').(interface{ Reset() }); _ok { _r.Reset() } }''
      in case inn of
           Ident name \<Rightarrow>
             (case primitiveZero name of
                Some zero \<Rightarrow> ''if '' @ ref @ '' != nil { *'' @ ref @ '' = '' @ zero @ '' }''
              | None \<Rightarrow> delegate)
         | _ \<Rightarrow> delegate)"

definition resetLine :: "string \<Rightarrow> string \<Rightarrow> expr \<Rightarrow> string" where
  "resetLine recv field typ =
     (let ref = recv @ ''.'' @ field;
          delegate = ''if _r, _ok := any(&'' @ ref @ '').(interface{ Reset() }); _ok { _r.Reset() }''
      in case typ of
           Ident name \<Rightarrow>
             (case primitiveZero name of Some zero \<Rightarrow> ref @ '' = '' @ zero | None \<Rightarrow> delegate)
         | SelectorExpr _ _ \<Rightarrow> delegate
         | ArrayType len _ \<Rightarrow> (case len of None \<Rightarrow> ref @ '' = '' @ ref @ ''[:0]'' | Some _ \<Rightarrow> '''')
         | MapType _ _ \<Rightarrow> ''clear('' @ ref @ '')''
         | StarExpr x \<Rightarrow> ptrResetLine ref x
         | InterfaceType \<Rightarrow> ref @ '' = nil''
         | ChanType \<Rightarrow> ref @ '' = nil''
         | FuncType \<Rightarrow> ref @ '' = nil''
         | OtherExpr \<Rightarrow> '''')"

section \<open>Generation\<close>

record tmpl_struct =
  tm_Name :: string
  tm_Recv :: string
  tm_Lines :: "string list"

definition struct_lines :: "string \<Rightarrow> ast_field list \<Rightarrow> string list" where
  "struct_lines recv fl =
     concat (map (\<lambda>f. filter (\<lambda>l. l \<noteq> '''') (map (\<lambda>n. resetLine recv n (fl_type f)) (fieldNames f))) fl)"

definition tmpl_data :: "(string \<Rightarrow> string option) \<Rightarrow> struct_info list \<Rightarrow> tmpl_struct list" where
  "tmpl_data unicode structs = map (\<lambda>s. let recv = recvName unicode (si_name s) in
     \<lparr>tm_Name = si_name s, tm_Recv = recv, tm_Lines = struct_lines recv (si_fields s)\<rparr>) structs"

definition newline :: string where
  "newline = [CHR 0x0A]"

text \<open>The template, executed; the trim marker after the inner \<open>end\<close> removes the line break before the brace.\<close>

definition execute_struct :: "tmpl_struct \<Rightarrow> string" where
  "execute_struct t = newline
     @ ''// Reset resets all fields of '' @ tm_Name t @ '' to their zero values.'' @ newline
     @ ''func ('' @ tm_Recv t @ '' *'' @ tm_Name t @ '') Reset() {'' @ newline
     @ ''if '' @ tm_Recv t @ '' == nil {'' @ newline @ ''return'' @ newline @ ''}'' @ newline
     @ concat (map (\<lambda>l. l @ newline) (tm_Lines t)) @ ''}'' @ newline"

definition execute_template :: "string \<Rightarrow> tmpl_struct list \<Rightarrow> string" where
  "execute_template pkg ts = ''// Code generated by reset; DO NOT EDIT.'' @ newline @ newline
     @ ''package '' @ pkg @ newline @ concat (map execute_struct ts)"

definition generateSource ::
    "(string \<Rightarrow> string option) \<Rightarrow> (string \<Rightarrow> go_error + string) \<Rightarrow> string \<Rightarrow> struct_info list \<Rightarrow> go_error + string" where
  "generateSource unicode format_source pkg structs =
     format_source (execute_template pkg (tmpl_data unicode structs))"

section \<open>Directories\<close>

text \<open>The structs a declaration contributes: annotated on the group or on the type itself.\<close>

definition annotated_structs :: "decl \<Rightarrow> struct_info list" where
  "annotated_structs d =
     (case d of
        OtherDecl \<Rightarrow> []
      | TypeDecl doc specs \<Rightarrow>
          concat (map (\<lambda>ts. case ts_fields ts of
              None \<Rightarrow> []
            | Some fl \<Rightarrow>
                if \<not> hasResetAnnotation doc \<and> \<not> hasResetAnnotation (ts_doc ts) then []
                else [\<lparr>si_name = ts_name ts, si_fields = fl\<rparr>]) specs))"

definition package_structs :: "decl list list \<Rightarrow> struct_info list" where
  "package_structs files = concat (map (\<lambda>decls. concat (map annotated_structs decls)) files)"

text \<open>The files the parser is asked for.\<close>

definition has_suffix :: "string \<Rightarrow> string \<Rightarrow> bool" where
  "has_suffix s p \<longleftrightarrow> has_prefix (rev s) (rev p)"

definition parsed_file :: "string \<Rightarrow> bool" where
  "parsed_file n \<longleftrightarrow> \<not> has_suffix n ''_test.go'' \<and> n \<noteq> ''reset.gen.go''"

text \<open>
  \<open>processDir\<close>: the packages in the order the map is ranged over, each written unless it has no annotated struct.
  \<open>write\<close> is the outcome of \<open>os.WriteFile\<close>. The result lists the texts written and the error that ended it.
\<close>

fun process_packages ::
    "(string \<Rightarrow> string option) \<Rightarrow> (string \<Rightarrow> go_error + string) \<Rightarrow> (string \<Rightarrow> go_error option) \<Rightarrow> string
      \<Rightarrow> (string \<times> decl list list) list \<Rightarrow> string list \<times> go_error option" where
  "process_packages unicode format_source write_file dir [] = ([], None)"
| "process_packages unicode format_source write_file dir ((pkg, files) # rest) =
     (let structs = package_structs files
      in if structs = [] then process_packages unicode format_source write_file dir rest
         else (case generateSource unicode format_source pkg structs of
                 Inl err \<Rightarrow> ([], Some (ErrWrap ''generate'' err))
               | Inr src \<Rightarrow>
                   (case write_file (dir @ ''/reset.gen.go'') of
                      Some err \<Rightarrow> ([], Some err)
                    | None \<Rightarrow>
                        (case process_packages unicode format_source write_file dir rest of
                           (out, err) \<Rightarrow> (src # out, err)))))"

definition processDir ::
    "(string \<Rightarrow> string option) \<Rightarrow> (string \<Rightarrow> go_error + string) \<Rightarrow> (string \<Rightarrow> go_error option)
      \<Rightarrow> (string \<Rightarrow> (string \<times> decl list list) list option) \<Rightarrow> string \<Rightarrow> string list \<times> go_error option" where
  "processDir unicode format_source write_file parse_dir dir =
     (case parse_dir dir of
        None \<Rightarrow> ([], None)
      | Some pkgs \<Rightarrow> process_packages unicode format_source write_file dir pkgs)"

text \<open>\<open>filepath.Walk\<close> from the root: the directories handed to \<open>processDir\<close>, as paths, until an error.\<close>

datatype node = FileNode string | DirNode string "node list"

definition skipped_dir :: "string \<Rightarrow> bool" where
  "skipped_dir name \<longleftrightarrow> name \<noteq> [] \<and> (hd name = CHR ''.'' \<or> name = ''vendor'' \<or> name = ''testdata'')"

fun walk_dirs :: "string list \<Rightarrow> bool \<Rightarrow> node \<Rightarrow> string list list"
  and walk_all :: "string list \<Rightarrow> node list \<Rightarrow> string list list" where
  "walk_dirs base is_root (FileNode name) = []"
| "walk_dirs base is_root (DirNode name children) =
     (if \<not> is_root \<and> skipped_dir name then []
      else (base @ [name]) # walk_all (base @ [name]) children)"
| "walk_all base [] = []"
| "walk_all base (n # ns) = walk_dirs base False n @ walk_all base ns"

text \<open>The whole run: it stops at the first directory that fails.\<close>

fun generate_dirs :: "(string \<Rightarrow> string list \<times> go_error option) \<Rightarrow> string list \<Rightarrow> string list \<times> go_error option" where
  "generate_dirs process [] = ([], None)"
| "generate_dirs process (d # ds) =
     (case process d of
        (out, Some err) \<Rightarrow> (out, Some err)
      | (out, None) \<Rightarrow> (case generate_dirs process ds of (more_out, err) \<Rightarrow> (out @ more_out, err)))"

end
