(* ===== verification/Reset_Gen_Facts.thy ===== *)
theory Reset_Gen_Facts
  imports Reset_Gen Audit_Subject
begin

text \<open>
  What the generated code does: the lines of \<open>cmd/reset\<close> are the text of small statements with a meaning on the
  fields of a struct; running them gives every field the value its type calls for. The checked-in
  \<open>internal/audit/reset.gen.go\<close> is what the generator makes of \<open>Event\<close>, and its meaning is \<open>event_Reset\<close>.
\<close>

section \<open>The statements and their meaning\<close>

datatype reset_action = Assign string | Truncate | Clear | SetNil | Delegate | DerefAssign string | DerefDelegate

fun action_text :: "string \<Rightarrow> reset_action \<Rightarrow> string" where
  "action_text ref (Assign zero) = ref @ '' = '' @ zero"
| "action_text ref Truncate = ref @ '' = '' @ ref @ ''[:0]''"
| "action_text ref Clear = ''clear('' @ ref @ '')''"
| "action_text ref SetNil = ref @ '' = nil''"
| "action_text ref Delegate = ''if _r, _ok := any(&'' @ ref @ '').(interface{ Reset() }); _ok { _r.Reset() }''"
| "action_text ref (DerefAssign zero) = ''if '' @ ref @ '' != nil { *'' @ ref @ '' = '' @ zero @ '' }''"
| "action_text ref DerefDelegate =
     ''if '' @ ref @ '' != nil { if _r, _ok := any('' @ ref @ '').(interface{ Reset() }); _ok { _r.Reset() } }''"

fun action_of :: "expr \<Rightarrow> reset_action option" where
  "action_of (Ident n) = Some (case primitiveZero n of Some z \<Rightarrow> Assign z | None \<Rightarrow> Delegate)"
| "action_of (SelectorExpr _ _) = Some Delegate"
| "action_of (ArrayType None _) = Some Truncate"
| "action_of (ArrayType (Some _) _) = None"
| "action_of (MapType _ _) = Some Clear"
| "action_of (StarExpr (Ident n)) = Some (case primitiveZero n of Some z \<Rightarrow> DerefAssign z | None \<Rightarrow> DerefDelegate)"
| "action_of (StarExpr _) = Some DerefDelegate"
| "action_of InterfaceType = Some SetNil"
| "action_of ChanType = Some SetNil"
| "action_of FuncType = Some SetNil"
| "action_of OtherExpr = None"

lemma resetLine_text:
  "resetLine recv f t = (case action_of t of None \<Rightarrow> '''' | Some a \<Rightarrow> action_text (recv @ ''.'' @ f) a)"
  by (induction t rule: action_of.induct) (simp_all add: resetLine_def ptrResetLine_def Let_def split: option.split)

text \<open>Go values as far as the statements touch them; \<open>VRef\<close> is a non-nil interface, channel or function.\<close>

datatype gval =
    VNum int
  | VBool bool
  | VStr string
  | VSlice "gval list option"
  | VMap "(gval \<times> gval) list option"
  | VPtr "gval option"
  | VNil
  | VRef nat
  | VArray "gval list"
  | VStruct "gval list"

definition literal :: "string \<Rightarrow> gval" where
  "literal z = (if z = ''0'' then VNum 0 else if z = ''false'' then VBool False else VStr '''')"

text \<open>\<open>hook\<close> is what the Reset method of a value's type does, the identity for a type without one.\<close>

fun run_action :: "(gval \<Rightarrow> gval) \<Rightarrow> reset_action \<Rightarrow> gval \<Rightarrow> gval" where
  "run_action hook (Assign z) v = literal z"
| "run_action hook Truncate v = (case v of VSlice s \<Rightarrow> VSlice (map_option (take 0) s) | _ \<Rightarrow> v)"
| "run_action hook Clear v = (case v of VMap m \<Rightarrow> VMap (map_option (\<lambda>_. []) m) | _ \<Rightarrow> v)"
| "run_action hook SetNil v = VNil"
| "run_action hook Delegate v = hook v"
| "run_action hook (DerefAssign z) v = (case v of VPtr p \<Rightarrow> VPtr (map_option (\<lambda>_. literal z) p) | _ \<Rightarrow> v)"
| "run_action hook DerefDelegate v = (case v of VPtr p \<Rightarrow> VPtr (map_option hook p) | _ \<Rightarrow> v)"

type_synonym object = "string \<Rightarrow> gval"

text \<open>The statements of a struct, in the order of its lines.\<close>

definition field_program :: "ast_field \<Rightarrow> (string \<times> reset_action) list" where
  "field_program f = (case action_of (fl_type f) of None \<Rightarrow> [] | Some a \<Rightarrow> map (\<lambda>n. (n, a)) (fieldNames f))"

definition struct_program :: "ast_field list \<Rightarrow> (string \<times> reset_action) list" where
  "struct_program fl = concat (map field_program fl)"

fun run_program :: "(gval \<Rightarrow> gval) \<Rightarrow> (string \<times> reset_action) list \<Rightarrow> object \<Rightarrow> object" where
  "run_program hook [] ob = ob"
| "run_program hook ((n, a) # prog) ob = run_program hook prog (ob(n := run_action hook a (ob n)))"

lemma action_text_nonempty: "action_text ref a \<noteq> ''''"
  by (cases a) simp_all

lemma struct_lines_text:
  "struct_lines recv fl = map (\<lambda>(n, a). action_text (recv @ ''.'' @ n) a) (struct_program fl)"
  by (induction fl)
    (simp_all add: struct_lines_def struct_program_def field_program_def resetLine_text action_text_nonempty
      split: option.split)

section \<open>The effect\<close>

text \<open>What a reset field holds, by the type of the field.\<close>

fun reset_ok :: "(gval \<Rightarrow> gval) \<Rightarrow> expr \<Rightarrow> gval \<Rightarrow> gval \<Rightarrow> bool" where
  "reset_ok hook (Ident n) v v' \<longleftrightarrow> v' = (case primitiveZero n of Some z \<Rightarrow> literal z | None \<Rightarrow> hook v)"
| "reset_ok hook (SelectorExpr _ _) v v' \<longleftrightarrow> v' = hook v"
| "reset_ok hook (ArrayType None _) v v' \<longleftrightarrow> (\<forall>xs. v = VSlice xs \<longrightarrow> v' = VSlice (if xs = None then None else Some []))"
| "reset_ok hook (ArrayType (Some _) _) v v' \<longleftrightarrow> v' = v"
| "reset_ok hook (MapType _ _) v v' \<longleftrightarrow> (\<forall>xs. v = VMap xs \<longrightarrow> v' = VMap (if xs = None then None else Some []))"
| "reset_ok hook (StarExpr t) v v' \<longleftrightarrow> (\<forall>p. v = VPtr p \<longrightarrow> v' = VPtr (map_option
     (\<lambda>u. case t of Ident n \<Rightarrow> (case primitiveZero n of Some z \<Rightarrow> literal z | None \<Rightarrow> hook u) | _ \<Rightarrow> hook u) p))"
| "reset_ok hook InterfaceType v v' \<longleftrightarrow> v' = VNil"
| "reset_ok hook ChanType v v' \<longleftrightarrow> v' = VNil"
| "reset_ok hook FuncType v v' \<longleftrightarrow> v' = VNil"
| "reset_ok hook OtherExpr v v' \<longleftrightarrow> v' = v"

lemma reset_ok_action:
  "reset_ok hook t v (case action_of t of None \<Rightarrow> v | Some a \<Rightarrow> run_action hook a v)"
  by (induction t rule: action_of.induct) (auto split: option.split)

lemma run_program_append: "run_program hook (p @ q) ob = run_program hook q (run_program hook p ob)"
  by (induction p arbitrary: ob) auto

lemma run_program_other: "n \<notin> fst ` set p \<Longrightarrow> run_program hook p ob n = ob n"
  by (induction p arbitrary: ob) auto

lemma run_program_once:
  "distinct (map fst p) \<Longrightarrow> (n, a) \<in> set p \<Longrightarrow> run_program hook p ob n = run_action hook a (ob n)"
proof (induction p arbitrary: ob)
  case (Cons kb p)
  obtain k b where kb: "kb = (k, b)" by (cases kb)
  show ?case
  proof (cases "k = n")
    case True
    then have "n \<notin> fst ` set p" "a = b" using Cons.prems kb by (auto simp: image_iff)
    then show ?thesis using kb True by (simp add: run_program_other)
  next
    case False
    then show ?thesis using Cons kb by auto
  qed
qed simp

definition all_names :: "ast_field list \<Rightarrow> string list" where
  "all_names fl = concat (map fieldNames fl)"

lemma program_names: "set (map fst (struct_program fl)) \<subseteq> set (all_names fl)"
  by (induction fl) (auto simp: struct_program_def field_program_def all_names_def split: option.splits)

lemma program_distinct: "distinct (all_names fl) \<Longrightarrow> distinct (map fst (struct_program fl))"
proof (induction fl)
  case (Cons f fl)
  have "map fst (field_program f) = (if action_of (fl_type f) = None then [] else fieldNames f)"
    by (simp add: field_program_def comp_def split: option.split)
  with Cons program_names [of fl] show ?case
    by (auto simp: struct_program_def all_names_def)
qed (simp add: struct_program_def)

text \<open>C27: The lines the generator writes for a struct are statements whose execution gives every field the value its
  type calls for: zero for builtin types, empty slices and maps with their storage kept, nil for interfaces,
  channels and functions, the Reset of named types and pointees. Fixed-size arrays, named types without a Reset,
  and fields of an instantiated generic type or of a struct type written out (with a Reset or not) keep their
  contents. The names of the fields are different; a blank field, for which the line written does not compile,
  is outside the statement.\<close>
theorem generated_reset_resets_fields:
  assumes "distinct (all_names fl)" and "f \<in> set fl" and "n \<in> set (fieldNames f)"
  shows "struct_lines recv fl = map (\<lambda>(n, a). action_text (recv @ ''.'' @ n) a) (struct_program fl)
    \<and> reset_ok hook (fl_type f) (ob n) (run_program hook (struct_program fl) ob n)"
proof -
  have "run_program hook (struct_program fl) ob n
      = (case action_of (fl_type f) of None \<Rightarrow> ob n | Some a \<Rightarrow> run_action hook a (ob n))"
  proof (cases "action_of (fl_type f)")
    case (Some a)
    then have "(n, a) \<in> set (field_program f)" using assms(3) by (simp add: field_program_def)
    then have "(n, a) \<in> set (struct_program fl)" using assms(2) by (auto simp: struct_program_def)
    with Some show ?thesis using run_program_once [OF program_distinct [OF assms(1)]] by simp
  next
    case None
    have "n \<notin> fst ` set (struct_program fl)"
    proof
      assume "n \<in> fst ` set (struct_program fl)"
      then obtain g where g: "g \<in> set fl" "n \<in> set (fieldNames g)" "action_of (fl_type g) \<noteq> None"
        unfolding struct_program_def field_program_def by (fastforce split: option.splits)
      from assms(1-3) g(1,2) have "g = f"
        by (induction fl) (auto simp: all_names_def)
      with g(3) None show False by simp
    qed
    with None show ?thesis by (simp add: run_program_other)
  qed
  then show ?thesis using reset_ok_action [of hook "fl_type f" "ob n"] struct_lines_text by simp
qed

section \<open>The audit event\<close>

definition event_fields :: "ast_field list" where
  "event_fields = [\<lparr>fl_names = [''TS''], fl_type = Ident ''int64''\<rparr>,
     \<lparr>fl_names = [''Metrics''], fl_type = ArrayType None (Ident ''string'')\<rparr>,
     \<lparr>fl_names = [''IPAddress''], fl_type = Ident ''string''\<rparr>]"

lemma event_program: "struct_program event_fields = [(''TS'', Assign ''0''), (''Metrics'', Truncate), (''IPAddress'', Assign [CHR 0x22, CHR 0x22])]"
  by (simp add: struct_program_def field_program_def event_fields_def fieldNames_def primitiveZero_def zero_types_def)

definition event_object :: "event \<Rightarrow> object" where
  "event_object e = (\<lambda>_. VNil)(''TS'' := VNum (sint (TS e)), ''Metrics'' := VSlice (map_option (map VStr) (Metrics e)),
     ''IPAddress'' := VStr (IPAddress e))"

theorem generated_reset_resets_fields_witness:
  "reset_ok id (Ident ''int64'') (VNum 7) (run_program id (struct_program event_fields) (\<lambda>_. VNum 7) ''TS'')"
proof -
  have "distinct (all_names event_fields)" "\<lparr>fl_names = [''TS''], fl_type = Ident ''int64''\<rparr> \<in> set event_fields"
    by (simp_all add: event_fields_def all_names_def fieldNames_def)
  from generated_reset_resets_fields [OF this, of "''TS''" "''e''" id "\<lambda>_. VNum 7"] show ?thesis
    by (simp add: fieldNames_def)
qed

text \<open>\<open>internal/audit/reset.gen.go\<close> is what the generator writes for \<open>Event\<close>, and running its statements on the
  fields of an event is the Reset method the pool calls.\<close>
lemma event_reset_is_generated:
  "struct_lines (recvName unicode ''Event'') event_fields
     = [''e.TS = 0'', ''e.Metrics = e.Metrics[:0]'', ''e.IPAddress = '' @ [CHR 0x22, CHR 0x22]]
   \<and> Some (run_program hook (struct_program event_fields) (event_object e))
     = map_option event_object (event_Reset (Some e))"
proof -
  have "recvName unicode ''Event'' = ''e''" by (simp add: byte_in_def char_of_eq_iff)
  then show ?thesis
    by (simp add: struct_lines_text event_program)
      (simp add: event_object_def event_Reset_def literal_def fun_eq_iff option.map_comp comp_def)
qed

section \<open>The directories\<close>

fun all_dirs :: "string list \<Rightarrow> node \<Rightarrow> string list list"
  and all_dirs_list :: "string list \<Rightarrow> node list \<Rightarrow> string list list" where
  "all_dirs base (FileNode name) = []"
| "all_dirs base (DirNode name children) = (base @ [name]) # all_dirs_list (base @ [name]) children"
| "all_dirs_list base [] = []"
| "all_dirs_list base (n # ns) = all_dirs base n @ all_dirs_list base ns"

lemma all_dirs_below:
  "p \<in> set (all_dirs base n) \<Longrightarrow> \<exists>q. p = base @ q"
  "p \<in> set (all_dirs_list base ns) \<Longrightarrow> \<exists>q. p = base @ q"
  by (induction base n and base ns rule: all_dirs_all_dirs_list.induct) auto

definition visible :: "nat \<Rightarrow> string list \<Rightarrow> bool" where
  "visible k p \<longleftrightarrow> list_all (\<lambda>name. \<not> skipped_dir name) (drop k p)"

lemma visible_child:
  "p \<in> set (all_dirs_list (base @ [name]) ns) \<Longrightarrow>
   visible (length base) p \<longleftrightarrow> \<not> skipped_dir name \<and> visible (Suc (length base)) p"
  by (drule all_dirs_below(2)) (auto simp: visible_def)

lemma visible_self [simp]: "visible (length base) (base @ [name]) \<longleftrightarrow> \<not> skipped_dir name"
  by (simp add: visible_def)

lemma walk_below:
  "walk_dirs base False n = filter (visible (length base)) (all_dirs base n)"
  "walk_all base ns = filter (visible (length base)) (all_dirs_list base ns)"
proof (induction base n and base ns rule: all_dirs_all_dirs_list.induct)
  case (2 base name children)
  have "filter (visible (length base)) (all_dirs_list (base @ [name]) children)
      = (if skipped_dir name then [] else filter (visible (Suc (length base))) (all_dirs_list (base @ [name]) children))"
    by (auto simp: filter_empty_conv visible_child cong: filter_cong)
  with 2 show ?case by simp
qed auto

text \<open>The generator visits exactly the directories of the tree none of whose components below the root is
  hidden, vendor or testdata, each once and parents first.\<close>
lemma walk_visits_visible_dirs:
  "walk_dirs [] True (DirNode root children)
     = filter (\<lambda>p. list_all (\<lambda>name. \<not> skipped_dir name) (tl p)) (all_dirs [] (DirNode root children))"
proof -
  have "tl p = drop (length [root]) p" for p :: "string list" by (simp add: drop_Suc)
  then have "(\<lambda>p. list_all (\<lambda>name. \<not> skipped_dir name) (tl p)) = visible (length [root])"
    by (simp add: visible_def fun_eq_iff)
  then show ?thesis using walk_below(2) [of "[root]" children] by (simp add: visible_def)
qed

end
