(* ===== verification/Linter.thy ===== *)
theory Linter
  imports Go_Prelude
begin

text \<open>
  The two passes of \<open>cmd/linter\<close> over the syntax trees of a package. Type information is a parameter: the object
  an identifier at a position resolves to. Positions are those of the file set, one number per place in the
  package's files.
\<close>

section \<open>Syntax\<close>

text \<open>
  The nodes the passes look at: identifiers, selectors, calls, function declarations with whether they have a
  receiver and their body between its braces; every other node only has children.
\<close>

datatype go_syntax =
    NIdent nat string
  | NSelector go_syntax string
  | NCall nat go_syntax "go_syntax list"
  | NFuncDecl string bool "(nat \<times> nat) option" "go_syntax list"
  | NOther "go_syntax list"

text \<open>The inspector's preorder: a node before its children, in source order.\<close>

fun preorder :: "go_syntax \<Rightarrow> go_syntax list" where
  "preorder (NIdent p n) = [NIdent p n]"
| "preorder (NSelector x s) = NSelector x s # preorder x"
| "preorder (NCall p f args) = NCall p f args # preorder f @ concat (map preorder args)"
| "preorder (NFuncDecl n r b kids) = NFuncDecl n r b kids # concat (map preorder kids)"
| "preorder (NOther kids) = NOther kids # concat (map preorder kids)"

definition preorder_all :: "go_syntax list \<Rightarrow> go_syntax list" where
  "preorder_all files = concat (map preorder files)"

text \<open>What an identifier refers to: an imported package with its path, or anything else.\<close>

datatype go_object = PkgObject string | OtherObject

section \<open>The exit pass\<close>

definition forbiddenCalls :: "string \<Rightarrow> string list option" where
  "forbiddenCalls = [''os'' \<mapsto> [''Exit''], ''log'' \<mapsto> [''Fatal'', ''Fatalf'', ''Fatalln'']]"

text \<open>The last declaration of a function main without receiver wins; its body may be missing.\<close>

fun main_body :: "go_syntax list \<Rightarrow> (nat \<times> nat) option \<Rightarrow> (nat \<times> nat) option" where
  "main_body [] acc = acc"
| "main_body (NFuncDecl n recv body kids # ns) acc =
     main_body ns (if n = ''main'' \<and> \<not> recv then body else acc)"
| "main_body (_ # ns) acc = main_body ns acc"

definition nodeInBlock :: "nat \<Rightarrow> nat \<times> nat \<Rightarrow> bool" where
  "nodeInBlock pos block \<longleftrightarrow> pos \<ge> fst block \<and> pos \<le> snd block"

type_synonym report = "nat \<times> string"

fun report_names :: "nat \<Rightarrow> string \<Rightarrow> string \<Rightarrow> (nat \<times> nat) option \<Rightarrow> string list \<Rightarrow> report list" where
  "report_names pos pkg sel body [] = []"
| "report_names pos pkg sel body (name # names) =
     (if sel = name then
        (if (case body of None \<Rightarrow> False | Some b \<Rightarrow> nodeInBlock pos b) then []
         else (pos, ''call to '' @ pkg @ ''.'' @ sel @ '' is forbidden outside of main.main'')
                # report_names pos pkg sel body names)
      else report_names pos pkg sel body names)"

definition exit_visit :: "(nat \<Rightarrow> go_object option) \<Rightarrow> (nat \<times> nat) option \<Rightarrow> go_syntax \<Rightarrow> report list" where
  "exit_visit uses body n =
     (case n of
        NCall pos (NSelector (NIdent ip pkg) sel) args \<Rightarrow>
          (case uses ip of
             Some (PkgObject path) \<Rightarrow>
               (case forbiddenCalls path of None \<Rightarrow> [] | Some names \<Rightarrow> report_names pos pkg sel body names)
           | _ \<Rightarrow> [])
      | _ \<Rightarrow> [])"

definition runExitCheck :: "string \<Rightarrow> (nat \<Rightarrow> go_object option) \<Rightarrow> go_syntax list \<Rightarrow> report list" where
  "runExitCheck pkg_name uses files =
     (if pkg_name \<noteq> ''main'' then []
      else let nodes = preorder_all files
           in concat (map (exit_visit uses (main_body nodes None)) nodes))"

section \<open>The panic pass\<close>

definition panic_visit :: "go_syntax \<Rightarrow> report list" where
  "panic_visit n =
     (case n of
        NCall pos (NIdent _ name) _ \<Rightarrow> if name = ''panic'' then [(pos, ''use of built-in panic is forbidden'')] else []
      | _ \<Rightarrow> [])"

definition runPanicCheck :: "go_syntax list \<Rightarrow> report list" where
  "runPanicCheck files = concat (map panic_visit (preorder_all files))"

section \<open>What the exit pass reports\<close>

text \<open>A call by name of a forbidden function, whatever alias the import has.\<close>

definition forbidden_call :: "(nat \<Rightarrow> go_object option) \<Rightarrow> go_syntax \<Rightarrow> bool" where
  "forbidden_call uses n \<longleftrightarrow>
     (\<exists>pos ip pkg sel args path. n = NCall pos (NSelector (NIdent ip pkg) sel) args \<and> uses ip = Some (PkgObject path)
        \<and> (path = ''os'' \<and> sel = ''Exit'' \<or> path = ''log'' \<and> sel \<in> {''Fatal'', ''Fatalf'', ''Fatalln''}))"

definition call_pos :: "go_syntax \<Rightarrow> nat option" where
  "call_pos n = (case n of NCall pos _ _ \<Rightarrow> Some pos | _ \<Rightarrow> None)"

definition in_main :: "(nat \<times> nat) option \<Rightarrow> go_syntax \<Rightarrow> bool" where
  "in_main body n \<longleftrightarrow> (case (body, call_pos n) of (Some b, Some pos) \<Rightarrow> nodeInBlock pos b | _ \<Rightarrow> False)"

lemma exit_visit_positions:
  "map fst (exit_visit uses body n) = (if forbidden_call uses n \<and> \<not> in_main body n then [the (call_pos n)] else [])"
proof (cases "\<exists>pos ip pkg sel args. n = NCall pos (NSelector (NIdent ip pkg) sel) args")
  case True
  then obtain pos ip pkg sel args where n: "n = NCall pos (NSelector (NIdent ip pkg) sel) args" by blast
  have f: "forbidden_call uses n \<longleftrightarrow> (\<exists>path. uses ip = Some (PkgObject path)
      \<and> (path = ''os'' \<and> sel = ''Exit'' \<or> path = ''log'' \<and> sel \<in> {''Fatal'', ''Fatalf'', ''Fatalln''}))"
    unfolding forbidden_call_def n by auto
  show ?thesis
    unfolding f by (auto simp: n exit_visit_def forbiddenCalls_def in_main_def call_pos_def
        split: option.splits go_object.splits)
next
  case False
  then have "\<not> forbidden_call uses n" by (auto simp: forbidden_call_def)
  moreover have "exit_visit uses body n = []"
    using False by (auto simp: exit_visit_def split: go_syntax.splits)
  ultimately show ?thesis by simp
qed

lemma exit_positions:
  "map fst (concat (map (exit_visit uses body) ns))
     = map (the \<circ> call_pos) (filter (\<lambda>n. forbidden_call uses n \<and> \<not> in_main body n) ns)"
  by (induction ns) (auto simp: exit_visit_positions)

definition declares_main :: "go_syntax \<Rightarrow> bool" where
  "declares_main n \<longleftrightarrow> (\<exists>body kids. n = NFuncDecl ''main'' False body kids)"

lemma main_body_none: "list_all (\<lambda>n. \<not> declares_main n) ns \<Longrightarrow> main_body ns acc = acc"
  by (induction ns acc rule: main_body.induct) (auto simp: declares_main_def)

lemma main_body_append: "main_body (ms @ ns) acc = main_body ns (main_body ms acc)"
  by (induction ms acc rule: main_body.induct) auto

lemma preorder_all_append [simp]: "preorder_all (xs @ ys) = preorder_all xs @ preorder_all ys"
  by (simp add: preorder_all_def)

lemma preorder_all_Cons: "preorder_all (x # ys) = preorder x @ preorder_all ys"
  by (simp add: preorder_all_def)

text \<open>Positions grow with the text: the calls in the body of main lie between its braces, the others do not.\<close>

definition well_placed :: "nat \<times> nat \<Rightarrow> go_syntax list \<Rightarrow> go_syntax list \<Rightarrow> bool" where
  "well_placed b inside outside \<longleftrightarrow>
     list_all (\<lambda>n. \<forall>p. call_pos n = Some p \<longrightarrow> nodeInBlock p b) inside
     \<and> list_all (\<lambda>n. \<forall>p. call_pos n = Some p \<longrightarrow> \<not> nodeInBlock p b) outside"

text \<open>C28: In package main the exit pass reports exactly the calls of os.Exit and log.Fatal, Fatalf and Fatalln, under
  any import alias, that stand outside the body of func main, at their positions and in source order: the test
  by position is the test by containment, over all files of the package.\<close>
theorem exit_check_exact:
  assumes "preorder_all files = before @ NFuncDecl ''main'' False (Some b) kids # preorder_all kids @ after"
    and "list_all (\<lambda>n. \<not> declares_main n) (before @ preorder_all kids @ after)"
    and "well_placed b (preorder_all kids) (before @ after)"
  shows "map fst (runExitCheck ''main'' uses files)
    = map (the \<circ> call_pos) (filter (forbidden_call uses) (before @ after))"
proof -
  let ?main = "NFuncDecl ''main'' False (Some b) kids"
  have body: "main_body (preorder_all files) None = Some b"
    using assms(2) main_body_none by (simp add: assms(1) main_body_append)
  have nocall: "\<not> forbidden_call uses ?main" "exit_visit uses (Some b) ?main = []"
    by (simp_all add: forbidden_call_def exit_visit_def)
  have inside: "filter (\<lambda>n. forbidden_call uses n \<and> \<not> in_main (Some b) n) (preorder_all kids) = []"
    using assms(3) by (auto simp: well_placed_def in_main_def list_all_iff filter_empty_conv forbidden_call_def call_pos_def)
  have outside: "filter (\<lambda>n. forbidden_call uses n \<and> \<not> in_main (Some b) n) ns = filter (forbidden_call uses) ns"
    if "set ns \<subseteq> set (before @ after)" for ns
    using assms(3) that
    by (auto simp: well_placed_def in_main_def list_all_iff split: option.splits intro!: filter_cong)
  show ?thesis
    unfolding runExitCheck_def Let_def body unfolding assms(1)
    by (simp add: exit_positions nocall inside outside flip: map_append concat_append)
qed

definition demo_uses :: "nat \<Rightarrow> go_object option" where
  "demo_uses p = (if p = 2 \<or> p = 11 then Some (PkgObject ''log'') else None)"

definition helper_decl :: go_syntax where
  "helper_decl = NFuncDecl ''helper'' False (Some (1, 5)) [NCall 2 (NSelector (NIdent 2 ''mylog'') ''Fatal'') []]"

definition main_kids :: "go_syntax list" where
  "main_kids = [NCall 11 (NSelector (NIdent 11 ''mylog'') ''Fatal'') []]"

theorem exit_check_exact_witness:
  "map fst (runExitCheck ''main'' demo_uses
     [NOther [helper_decl], NOther [NFuncDecl ''main'' False (Some (10, 20)) main_kids]]) = [2]"
proof -
  let ?files = "[NOther [helper_decl], NOther [NFuncDecl ''main'' False (Some (10, 20)) main_kids]]"
  let ?before = "NOther [helper_decl] # preorder helper_decl @ [NOther [NFuncDecl ''main'' False (Some (10, 20)) main_kids]]"
  have p: "preorder_all ?files = ?before @ NFuncDecl ''main'' False (Some (10, 20)) main_kids # preorder_all main_kids @ []"
    by (simp add: preorder_all_def)
  have f: "forbidden_call demo_uses (NCall 2 (NSelector (NIdent 2 ''mylog'') ''Fatal'') [])"
    by (simp add: forbidden_call_def demo_uses_def)
  have n: "\<not> forbidden_call demo_uses (NFuncDecl x r b k)" "\<not> forbidden_call demo_uses (NIdent i x)"
    "\<not> forbidden_call demo_uses (NSelector y x)" "\<not> forbidden_call demo_uses (NOther k)" for x r b k i y
    by (simp_all add: forbidden_call_def)
  have "map fst (runExitCheck ''main'' demo_uses ?files)
      = map (the \<circ> call_pos) (filter (forbidden_call demo_uses) (?before @ []))"
    by (rule exit_check_exact [OF p])
      (simp_all add: preorder_all_def declares_main_def well_placed_def nodeInBlock_def call_pos_def helper_decl_def
        main_kids_def)
  then show ?thesis by (simp add: helper_decl_def f n call_pos_def)
qed

text \<open>
  The panic pass goes by the name alone: a call of a function that the package itself calls panic is reported,
  although it is not the built-in. A function imported with a dot is called without a selector and escapes the
  exit pass.
\<close>

lemma panic_check_by_name:
  "map fst (runPanicCheck files)
     = map (the \<circ> call_pos) (filter (\<lambda>n. \<exists>p ip args. n = NCall p (NIdent ip ''panic'') args) (preorder_all files))"
proof -
  have "map fst (panic_visit n) = (if \<exists>p ip args. n = NCall p (NIdent ip ''panic'') args then [the (call_pos n)] else [])" for n
    by (auto simp: panic_visit_def call_pos_def split: go_syntax.splits)
  then have "map fst (concat (map panic_visit ns))
      = map (the \<circ> call_pos) (filter (\<lambda>n. \<exists>p ip args. n = NCall p (NIdent ip ''panic'') args) ns)" for ns
    by (induction ns) auto
  then show ?thesis by (simp add: runPanicCheck_def)
qed

lemma dot_import_escapes:
  "runExitCheck ''main'' uses [NFuncDecl ''helper'' False (Some (1, 5)) [NCall 2 (NIdent 2 ''Exit'') []]] = []"
  by (simp add: runExitCheck_def preorder_all_def exit_visit_def)

end
