(* ===== verification/Spec2Isabelle.thy ===== *)
theory Spec2Isabelle
  imports Collector_Buffer Persistence_Facts Postgres_Facts Handlers_Facts Agent_Http_Shutdown Agent_Grpc Agent_Durable Grpc_Service Log_Setup
    Audit_Observers Pool Config_Facts Server_Recovery Agent_Boot Build_Info Reset_Gen_Facts Linter
begin

text \<open>
  A verification library for the metrics and alerting service: an agent that reads runtime and system metrics
  and ships them, a server that stores and serves them, and two development tools (a generator of \<open>Reset\<close> methods
  and a linter). Paths are relative to \<open>src/\<close>.

  \<^bold>\<open>The program.\<close> The agent (\<open>cmd/agent\<close>) runs two collecting goroutines over one \<open>Collector\<close> and
  a reporter. Over HTTP the reporter puts metrics into a bounded channel that workers empty, each through
  \<open>Sender.SendMetric\<close>, which marshals, encrypts, compresses, signs and posts with retries; over gRPC the reporter
  itself sends a batch. The server (\<open>cmd/server\<close>) passes a request through logging, decryption, the subnet
  check, gzip and the signature check to a handler, which works on the interface \<open>storage.Storage\<close>: maps in
  memory, the same with a synchronous file snapshot, or PostgreSQL. A write that is accepted is told to the audit
  subject, whose dispatcher goroutine calls the observers. With file storage a periodic saver and a final
  save at shutdown write the snapshot that the next start restores.

  \<^bold>\<open>Foundations.\<close>
  \<^item> \<open>Go_Prelude\<close>: floats as 64-bit patterns, \<open>int64\<close> as a word, errors, maps and ranging over them in any
    order (\<open>visits\<close>, \<open>range_pairs\<close>, \<open>put_pairs\<close>).
  \<^item> \<open>Go_Chan\<close>: buffered channels, a locale for bounded queues and its interpretation. \<open>Go_Flag\<close>, \<open>Go_Duration\<close>,
    \<open>Strconv\<close>: what the program uses of \<open>flag\<close>, \<open>time.ParseDuration\<close> and \<open>strconv\<close>. \<open>Http\<close>: requests and the calls
    a handler makes on its response writer.
  \<^item> \<open>Json_String\<close>, \<open>Json_Text\<close>: the text \<open>encoding/json\<close> writes and reads, escapes and UTF-8 included, with the
    round trip of every well-formed value. The reader takes fuel; \<open>json_fuel\<close>, twice the length plus two, is shown
    to be enough for every input, so that it is not a bound of the model.

  \<^bold>\<open>The data.\<close>
  \<^item> \<open>Metrics_Model\<close> (\<open>internal/model/metrics.go\<close>): the record with its nil pointers. \<open>Metrics_Json\<close>: its JSON
    in both directions; a metric survives the round trip.
  \<^item> \<open>Storage\<close> (\<open>internal/storage/storage.go\<close>): the interface as a record of operations, and the maps in
    memory. \<open>Storage_Contract\<close>: an abstract database over mathematical integers; the locale \<open>storage_contract\<close>
    says what every backend promises and \<open>atomic_storage\<close> adds batches that happen entirely or not at all. The
    memory, the synchronous file backend and PostgreSQL are interpretations, the last one of both.
    \<open>Storage_Facts\<close>: refinement, totals that do not depend on the order of calls, the failing batch.
  \<^item> \<open>Persistence\<close>, \<open>Persistence_Facts\<close> (\<open>saveMetrics\<close>, \<open>loadMetrics\<close>, \<open>dirOf\<close>, \<open>syncStorage\<close> in \<open>cmd/server/main.go\<close>):
    a save is the list of file system states it passes through and each system call may fail; a kill at any
    point leaves the old file or the new one, and a loaded file gives back the store.
  \<^item> \<open>Retry\<close> (\<open>withRetry\<close>, \<open>retryOnConnErr\<close>): both loops; they agree, and make at most four calls.
  \<^item> \<open>Postgres\<close>, \<open>Postgres_Facts\<close> (\<open>internal/storage/postgresql.go\<close>): two tables, statements with the meaning SQL
    gives them, round trips that are lost before or after they take effect. A batch is applied exactly once as
    long as no reply of a commit is lost; a single increment may be counted twice.

  \<^bold>\<open>The server.\<close>
  \<^item> \<open>Crypto\<close> (\<open>internal/crypto\<close>): the envelope, byte for byte, with slice expressions that may panic; decryption
    inverts encryption and never panics.
  \<^item> \<open>Middleware\<close>, \<open>Middleware_Facts\<close> (\<open>internal/httpmw\<close>, \<open>internal/logger/logging.go\<close> and the signature check in
    \<open>internal/handler\<close>): compression is transparent to a client that unzips, the log has the status that was sent,
    and each check decides what the configuration says.
  \<^item> \<open>Handlers\<close>, \<open>Handlers_Facts\<close> (\<open>internal/handler/handlers.go\<close>): every handler on every branch and the
    routes; what is stored, answered and audited. \<open>Router\<close>, \<open>End_To_End\<close>: the chain as \<open>run\<close> builds it and a
    request of the agent through all of it, up to the stored counter; a body exchanged on the way is refused by the
    signature. \<open>Delivery\<close>: the same with logging, the
    retry loop and a network that loses requests and answers; the locale \<open>metric_link\<close> says what one attempt does
    to the server's store, and the deployed server is an interpretation of it. A metric is applied at most four
    times, and at least once when its sending is reported a success.
  \<^item> \<open>Audit_Subject\<close>, \<open>Audit_Observers\<close> (\<open>internal/audit\<close>): queue and dispatcher as steps, with delivery exactly
    once and termination of \<open>Close\<close>; the file of JSON lines. \<open>Pool\<close> (\<open>internal/pool\<close>): objects from the pool are
    clean and not shared, given the law of \<open>Reset\<close> (locale \<open>resettable\<close>).
  \<^item> \<open>Config\<close>, \<open>Config_Facts\<close> (\<open>internal/config\<close>): flags, environment, file and defaults, with their precedence.
  \<^item> \<open>Server_Boot\<close>: every stage of \<open>run\<close> with its failures. A \<open>defer\<close> is an action of its own and the return of
    \<open>run\<close> executes those that were reached; what is acquired is released once, in reverse and after all else.
    \<open>Server_Run\<close>: handlers, periodic saver, signal, the stop of gRPC, final save and kill, interleaved; the file
    is always a complete past state of the store. \<open>Server_Shutdown\<close>: when no save fails, a quiet shutdown loses
    nothing, while a periodic save that is still under way may undo the final one. \<open>Server_Sync\<close>: in synchronous
    mode, as long as no save fails and no batch is rejected, the file is the current state between requests, and a
    crash keeps every answered write. \<open>Server_Recovery\<close>: the server that restarts on that file serves those
    writes; the final snapshot, which takes no lock, may undo one.

  \<^bold>\<open>The agent.\<close>
  \<^item> \<open>Collector\<close>, \<open>Collector_Facts\<close> (\<open>internal/agent/collector.go\<close>, \<open>gopsutil_collector.go\<close>), \<open>Sender\<close> (\<open>sender.go\<close>, \<open>util.go\<close>),
    \<open>Grpc\<close>, \<open>Grpc_Service\<close> (\<open>grpcsender.go\<close>, \<open>internal/grpcserver\<close>, messages, client stub and method handler of
    \<open>internal/proto\<close>): a batch survives the conversion, the name the client calls is the one the server registers,
    a call is refused as a whole or carried out as a whole, and a bad metric is quoted (\<open>Go_Quote\<close>) in the status
    without a control character. \<open>Collector_Buffer\<close>: the buffered path of
    the collector with concurrent senders, which no part of the program uses; first in first out, and a value that
    is not a number stops it for good. \<open>Log_Setup\<close> (\<open>internal/logger/logger.go\<close>): the set-up of the log file behind its
    \<open>sync.Once\<close>, which the agent never calls.
  \<^item> \<open>Agent_Boot\<close>: \<open>run\<close> of \<open>cmd/agent/main.go\<close> with its goroutines, tickers and deferred calls; the capacity for
    which a channel can still be allocated is a parameter (\<open>ab_chan_limit\<close>). \<open>Agent_Main\<close>: reporter, channel,
    workers and shutdown over HTTP; first in first out, nothing in the channel is lost, and the shutdown
    ends within \<open>work_left\<close> steps. \<open>Agent_Http\<close>, \<open>Agent_Http_Facts\<close>, \<open>Agent_Http_Shutdown\<close>: this pipeline with its
    collectors, with the attempts of each worker as single steps and with the server; it refines the pipeline, the
    counters of the server are exact whatever the interleaving, a shutdown with one worker leaves the server with
    the agent's gauges, with two workers an older gauge may come back, and retries included the shutdown ends within
    \<open>http_left\<close> steps. \<open>Agent_Durable\<close>: against a server in synchronous mode whatever was applied is in the file
    between attempts (locale \<open>durable_link\<close>, an extension of \<open>metric_link\<close>); a server killed at any moment and
    restarted serves it, and at most one metric more that was being sent.
    \<open>Agent_Grpc\<close>: collectors and reporter over gRPC together with the server, with
    calls that may be lost; the server holds the last snapshot delivered, and the shutdown ends within five
    steps.
  \<^item> \<open>Build_Info\<close> (\<open>internal/buildinfo\<close>): the banner and the exit codes of both \<open>main\<close> functions.

  \<^bold>\<open>The tools.\<close>
  \<^item> \<open>Reset_Gen\<close>, \<open>Reset_Gen_Facts\<close> (\<open>cmd/reset\<close>): from declarations to text, and what the generated statements do
    when they are executed; \<open>internal/audit/reset.gen.go\<close> is one output.
  \<^item> \<open>Linter\<close> (\<open>cmd/linter\<close>): both passes over a syntax tree; the exit pass reports exactly the calls it is
    meant to.

  \<^bold>\<open>Parameters and hypotheses.\<close> Third-party and system code is an argument of the definitions that use it.
  Hypotheses state what its documentation says: the shortest text of a float reads back as that float
  (\<open>float_text_ok\<close>), AES-GCM opens what it sealed and RSA keys come in pairs (\<open>gcm_ok\<close>, \<open>key_pair_ok\<close>,
  \<open>entropy_ok\<close>), gzip inverts itself (\<open>gzip_ok\<close>), a merge of configurations fills the zero fields
  (\<open>merge_fills\<close>), the environment parser sets the fields whose variables are set (\<open>env_overlay\<close>). The Go parser,
  type checker and formatter, the Unicode tables, the matching of \<open>chi\<close>, HMAC, the back-off library, readings of
  the runtime and of gopsutil, the routing of gRPC calls, time and the network are parameters as well. Each theorem under such a
  hypothesis comes with an instance on a concrete function.

  \<^bold>\<open>Not modelled.\<close> The writers behind the loggers (rotation of the log file, formatting of its
  lines). The generated code under \<open>internal/proto\<close> beyond messages, getters, client stub, method handler and
  service description is descriptors and calls into the protobuf run time; the wire encoding, connections and the
  routing of a call to its method (\<open>routes_by_name\<close>) are the grpc library's. The dashboard's HTML is the
  text of a template that a library executes; the model has the chunks it writes. \<open>cmd/linter/main.go\<close> and
  \<open>main\<close> of \<open>cmd/reset\<close> hand over to a library and to \<open>walk_dirs\<close>. A request that the client gives up on is
  either executed by then or never; that the server executes it later is not modelled. Running out of memory,
  garbage collection, and the scheduling of goroutines beyond the interleaving of the steps given, are outside
  the model.
\<close>

end
